(* ===== verification/Ssr_Base.thy ===== *)
theory Ssr_Base
  imports Main "HOL-Library.Signed_Division" "HOL-Library.AList" "HOL-Library.Multiset"
begin

text \<open>
  Shared vocabulary of the development: results that may throw, JavaScript's
  truncating BigInt division, its stable array sort, and insertion-ordered
  dictionaries (JavaScript's \<open>Map\<close> and plain objects keyed by addresses), with the
  lemmas every component uses.
\<close>

section \<open>Results that may throw\<close>

text \<open>
  A TypeScript function that can \<open>throw new Error(..)\<close> returns \<open>'e + 'a\<close>: \<open>Inl\<close> is
  the exception, \<open>Inr\<close> the value. Every component has an error datatype of its own,
  one constructor per \<open>throw\<close>. \<open>rbind\<close> is the sequencing of two statements of
  which the first may throw; \<open>rmap\<close> is \<open>Array.map\<close> with a callback that may throw.
\<close>

definition rbind :: "'e + 'a \<Rightarrow> ('a \<Rightarrow> 'e + 'b) \<Rightarrow> 'e + 'b" where
  "rbind m f = (case m of Inl e \<Rightarrow> Inl e | Inr x \<Rightarrow> f x)"

definition require :: "bool \<Rightarrow> 'e \<Rightarrow> 'e + unit" where
  "require b e = (if b then Inr () else Inl e)"

fun rmap :: "('a \<Rightarrow> 'e + 'b) \<Rightarrow> 'a list \<Rightarrow> 'e + 'b list" where
  "rmap f [] = Inr []"
| "rmap f (x # xs) = rbind (f x) (\<lambda>y. rbind (rmap f xs) (\<lambda>ys. Inr (y # ys)))"

named_theorems res_iff \<comment> \<open>inversion of successful results\<close>

lemma rbind_simps [simp]: "rbind (Inl e) f = Inl e" "rbind (Inr x) f = f x"
  by (simp_all add: rbind_def)

lemma rbind_Inr_iff [res_iff]: "rbind m f = Inr y \<longleftrightarrow> (\<exists>x. m = Inr x \<and> f x = Inr y)"
  by (cases m) auto

lemma rbind_Inl_iff: "rbind m f = Inl e \<longleftrightarrow> m = Inl e \<or> (\<exists>x. m = Inr x \<and> f x = Inl e)"
  by (cases m) auto

lemma require_Inr_iff [res_iff]: "require b e = Inr u \<longleftrightarrow> b"
  by (simp add: require_def)

lemma require_Inl_iff: "require b e = Inl e' \<longleftrightarrow> \<not> b \<and> e' = e"
  by (auto simp: require_def)

lemma require_simps [simp]: "require True e = Inr ()" "require False e = Inl e"
  by (simp_all add: require_def)

lemma rmap_all_Inr:
  "(\<And>x. x \<in> set xs \<Longrightarrow> f x = Inr (g x)) \<Longrightarrow> rmap f xs = Inr (map g xs)"
  by (induction xs) auto

lemma rmap_Inr_list_all2: "rmap f xs = Inr ys \<Longrightarrow> list_all2 (\<lambda>x y. f x = Inr y) xs ys"
  by (induction xs arbitrary: ys) (auto simp: res_iff)

lemma rmap_Inr_length: "rmap f xs = Inr ys \<Longrightarrow> length ys = length xs"
  using list_all2_lengthD [OF rmap_Inr_list_all2] by metis

section \<open>BigInt division\<close>

text \<open>
  A JavaScript \<open>bigint\<close> is unbounded and is modelled by \<open>int\<close>. Its \<open>/\<close> truncates
  towards zero and its \<open>%\<close> takes the sign of the dividend: \<open>sdiv\<close> and \<open>smod\<close> of
  HOL-Library. On the amounts of this program, which are not negative, they agree
  with \<open>div\<close> and \<open>mod\<close>. Division by zero throws a RangeError, so a division whose
  divisor is not a positive constant is guarded in the definition that uses it.
\<close>

lemma sdiv_nonneg_eq: "0 \<le> a \<Longrightarrow> 0 < b \<Longrightarrow> a sdiv b = a div (b::int)"
  by (simp add: signed_divide_int_def sgn_if)

lemma smod_nonneg_eq: "0 \<le> a \<Longrightarrow> 0 < b \<Longrightarrow> a smod b = a mod (b::int)"
  using sdiv_mult_smod_eq [of a b] div_mult_mod_eq [of a b] sdiv_nonneg_eq [of a b]
  by (metis add_left_imp_eq)

lemma sdiv_nonneg: "0 \<le> a \<Longrightarrow> 0 < b \<Longrightarrow> 0 \<le> a sdiv (b::int)"
  by (simp add: sdiv_nonneg_eq pos_imp_zdiv_nonneg_iff)

lemma div_le_of_le_mult: "0 < (b::int) \<Longrightarrow> a \<le> b * c \<Longrightarrow> a div b \<le> c"
proof -
  assume b: "0 < b" and le: "a \<le> b * c"
  have "a div b \<le> (b * c) div b" using zdiv_mono1 [OF le b] .
  with b show "a div b \<le> c" by simp
qed

lemma le_div_of_mult_le: "0 < (b::int) \<Longrightarrow> b * c \<le> a \<Longrightarrow> c \<le> a div b"
proof -
  assume b: "0 < b" and le: "b * c \<le> a"
  have "(b * c) div b \<le> a div b" using zdiv_mono1 [OF le b] .
  with b show "c \<le> a div b" by simp
qed

lemma div_lt_of_lt_mult: "0 < (b::int) \<Longrightarrow> a < b * c \<Longrightarrow> a div b < c"
  using div_le_of_le_mult [of b "a" c] pos_mod_sign [of b a] div_mult_mod_eq [of a b]
  by (smt (verit) mult.commute mult_less_cancel_left_pos)

lemma mult_div_le_int: "0 < (b::int) \<Longrightarrow> b * (a div b) \<le> a"
  using pos_mod_sign [of b a] mult_div_mod_eq [of b a] by linarith

lemma lt_mult_div_succ: "0 < (b::int) \<Longrightarrow> a < b * (a div b + 1)"
proof -
  assume b: "0 < b"
  then have "a mod b < b" by (rule pos_mod_bound)
  then show ?thesis using mult_div_mod_eq [of b a] by (simp only: distrib_left)
qed

text \<open>The ceiling division \<open>(a + c - 1) / c\<close> of the source.\<close>

lemma ceil_div_ge: "0 < (c::int) \<Longrightarrow> a \<le> c * ((a + c - 1) div c)"
  using lt_mult_div_succ [of c "a + c - 1"] by (simp add: distrib_left)

lemma ceil_div_lt: "0 < (c::int) \<Longrightarrow> c * ((a + c - 1) div c - 1) < a"
  using mult_div_le_int [of c "a + c - 1"] by (simp add: right_diff_distrib)

lemma ceil_div_nonneg: "0 < (c::int) \<Longrightarrow> 0 \<le> a \<Longrightarrow> 0 \<le> (a + c - 1) div c"
  by (rule le_div_of_mult_le) auto

lemma ceil_div_le_iff: "0 < (c::int) \<Longrightarrow> (a + c - 1) div c \<le> k \<longleftrightarrow> a \<le> c * k"
proof
  assume c: "0 < c" and "(a + c - 1) div c \<le> k"
  then have "c * ((a + c - 1) div c) \<le> c * k" by simp
  with ceil_div_ge [OF c, of a] show "a \<le> c * k" by linarith
next
  assume c: "0 < c" and le: "a \<le> c * k"
  have "c * ((a + c - 1) div c - 1) < c * k" using ceil_div_lt [OF c, of a] le by linarith
  then have "(a + c - 1) div c - 1 < k" using c by simp
  then show "(a + c - 1) div c \<le> k" by simp
qed

lemmas div_bounds = mult_div_le_int lt_mult_div_succ ceil_div_ge ceil_div_lt

section \<open>The stable array sort\<close>

text \<open>
  \<open>Array.prototype.sort(cmp)\<close> is stable. \<open>gt x y\<close> stands for \<open>cmp(x, y) > 0\<close>:
  \<open>x\<close> has to come after \<open>y\<close>.
\<close>

fun insert_by :: "('a \<Rightarrow> 'a \<Rightarrow> bool) \<Rightarrow> 'a \<Rightarrow> 'a list \<Rightarrow> 'a list" where
  "insert_by gt x [] = [x]"
| "insert_by gt x (y # ys) = (if gt x y then y # insert_by gt x ys else x # y # ys)"

definition sort_by :: "('a \<Rightarrow> 'a \<Rightarrow> bool) \<Rightarrow> 'a list \<Rightarrow> 'a list" where
  "sort_by gt xs = foldr (insert_by gt) xs []"

lemma mset_insert_by [simp]: "mset (insert_by gt x ys) = add_mset x (mset ys)"
  by (induction ys) auto

lemma mset_sort_by [simp]: "mset (sort_by gt xs) = mset xs"
  unfolding sort_by_def by (induction xs) auto

lemma set_sort_by [simp]: "set (sort_by gt xs) = set xs"
  using mset_sort_by mset_eq_setD by metis

lemma length_sort_by [simp]: "length (sort_by gt xs) = length xs"
  using mset_sort_by mset_eq_length by metis

lemma distinct_sort_by [simp]: "distinct (sort_by gt xs) = distinct xs"
  using mset_sort_by mset_eq_imp_distinct_iff by metis

lemma set_insert_by [simp]: "set (insert_by gt x ys) = insert x (set ys)"
  by (induction ys) auto

text \<open>
  The order a comparator describes: \<open>gt\<close> is asymmetric and its complement is
  transitive (a total preorder). The sorted list never has an element that must come
  after a later one.
\<close>

definition comparator :: "('a \<Rightarrow> 'a \<Rightarrow> bool) \<Rightarrow> bool" where
  "comparator gt \<longleftrightarrow> (\<forall>x y. gt x y \<longrightarrow> \<not> gt y x) \<and>
     (\<forall>x y z. \<not> gt x y \<longrightarrow> \<not> gt y z \<longrightarrow> \<not> gt x z)"

lemma sorted_insert_by:
  assumes "comparator gt" "sorted_wrt (\<lambda>x y. \<not> gt x y) ys"
  shows "sorted_wrt (\<lambda>x y. \<not> gt x y) (insert_by gt x ys)"
  using assms(2)
proof (induction ys)
  case (Cons y ys)
  from assms(1) have asym: "gt x y \<Longrightarrow> \<not> gt y x"
    and trans: "\<And>z. \<not> gt x y \<Longrightarrow> \<not> gt y z \<Longrightarrow> \<not> gt x z"
    unfolding comparator_def by blast+
  from Cons asym trans show ?case by auto
qed simp

lemma sorted_sort_by: "comparator gt \<Longrightarrow> sorted_wrt (\<lambda>x y. \<not> gt x y) (sort_by gt xs)"
  unfolding sort_by_def by (induction xs) (auto intro: sorted_insert_by)

section \<open>Dictionaries\<close>

text \<open>
  The program's dictionaries (\<open>Map\<close>, \<open>Record<string, _>\<close>) remember insertion order,
  and a stored key keeps its place: association lists with \<open>AList.update\<close> and
  \<open>AList.delete\<close>. The interface the components rely on is a locale; the proofs about
  loops that only ever write keys use its facts.
\<close>

locale dictionary =
  fixes get :: "'m \<Rightarrow> 'k \<Rightarrow> 'v option"
    and put :: "'k \<Rightarrow> 'v \<Rightarrow> 'm \<Rightarrow> 'm"
    and del :: "'k \<Rightarrow> 'm \<Rightarrow> 'm"
    and keys :: "'m \<Rightarrow> 'k set"
    and none :: "'m"
  assumes get_put: "get (put k v m) k' = (if k' = k then Some v else get m k')"
    and get_del: "get (del k m) k' = (if k' = k then None else get m k')"
    and get_none: "get none k = None"
    and keys_get: "keys m = {k. get m k \<noteq> None}"
begin

lemma keys_put: "keys (put k v m) = insert k (keys m)"
  by (auto simp: keys_get get_put)

lemma keys_del: "keys (del k m) = keys m - {k}"
  by (auto simp: keys_get get_del)

lemma get_put_same: "get (put k v m) k = Some v"
  by (simp add: get_put)

lemma get_put_other: "k' \<noteq> k \<Longrightarrow> get (put k v m) k' = get m k'"
  by (simp add: get_put)

end

definition dget :: "('k \<times> 'v) list \<Rightarrow> 'k \<Rightarrow> 'v option" where
  "dget m k = map_of m k"

definition dput :: "'k \<Rightarrow> 'v \<Rightarrow> ('k \<times> 'v) list \<Rightarrow> ('k \<times> 'v) list" where
  "dput k v m = AList.update k v m"

definition ddel :: "'k \<Rightarrow> ('k \<times> 'v) list \<Rightarrow> ('k \<times> 'v) list" where
  "ddel k m = AList.delete k m"

definition dkeys :: "('k \<times> 'v) list \<Rightarrow> 'k list" where
  "dkeys m = map fst m"

interpretation od: dictionary dget dput ddel "\<lambda>m. set (dkeys m)" "[]"
proof unfold_locales
  show "\<And>k v m k'. dget (dput k v m) k' = (if k' = k then Some v else dget m k')"
    by (simp add: dget_def dput_def update_conv')
  show "\<And>k m k'. dget (ddel k m) k' = (if k' = k then None else dget m k')"
    by (simp add: dget_def ddel_def delete_conv')
  show "\<And>k. dget [] k = None" by (simp add: dget_def)
  show "\<And>m. set (dkeys m) = {k. dget m k \<noteq> None}"
    by (auto simp: dkeys_def dget_def map_of_eq_None_iff)
qed

lemma dget_simps [simp]: "dget [] k = None"
  "dget ((k', v) # m) k = (if k = k' then Some v else dget m k)"
  by (auto simp: dget_def)

lemma distinct_dput: "distinct (dkeys m) \<Longrightarrow> distinct (dkeys (dput k v m))"
  by (simp add: dkeys_def dput_def distinct_update)

lemma set_dkeys: "set (dkeys m) = {k. dget m k \<noteq> None}"
  by (rule od.keys_get)

lemma dget_in_set: "distinct (dkeys m) \<Longrightarrow> (k, v) \<in> set m \<longleftrightarrow> dget m k = Some v"
  by (simp add: dget_def dkeys_def)

lemma dget_SomeD: "dget m k = Some v \<Longrightarrow> (k, v) \<in> set m"
  unfolding dget_def by (rule map_of_SomeD)

text \<open>
  The loop \<open>for (const [k, v] of Object.entries(m)) ... out[k] = x\<close>: \<open>f\<close> says what is
  stored for an entry, if anything.
\<close>

definition collect :: "('k \<Rightarrow> 'v \<Rightarrow> 'w option) \<Rightarrow> ('k \<times> 'v) list \<Rightarrow> ('k \<times> 'w) list" where
  "collect f m = foldl (\<lambda>out (k, v). case f k v of None \<Rightarrow> out | Some x \<Rightarrow> dput k x out) [] m"

lemma collect_foldl_get:
  "distinct (dkeys m) \<Longrightarrow>
   dget (foldl (\<lambda>out (k, v). case f k v of None \<Rightarrow> out | Some x \<Rightarrow> dput k x out) out m) k =
     (case dget m k of None \<Rightarrow> dget out k | Some v \<Rightarrow> (case f k v of None \<Rightarrow> dget out k | Some x \<Rightarrow> Some x))"
proof (induction m arbitrary: out)
  case (Cons e m)
  obtain k' v where e: "e = (k', v)" by fastforce
  have fresh: "dget m k' = None" using Cons.prems e by (auto simp: dkeys_def dget_def map_of_eq_None_iff)
  have "distinct (dkeys m)" using Cons.prems by (simp add: dkeys_def)
  from Cons.IH [OF this] show ?case
    using fresh by (auto simp: e od.get_put split: option.split)
qed simp

lemma dget_collect:
  "distinct (dkeys m) \<Longrightarrow> dget (collect f m) k = (case dget m k of None \<Rightarrow> None | Some v \<Rightarrow> f k v)"
  unfolding collect_def by (simp add: collect_foldl_get split: option.split)

lemma distinct_collect: "distinct (dkeys (collect f m))"
proof -
  have "distinct (dkeys out) \<Longrightarrow>
      distinct (dkeys (foldl (\<lambda>out (k, v). case f k v of None \<Rightarrow> out | Some x \<Rightarrow> dput k x out) out m))" for out
    by (induction m arbitrary: out) (auto simp: distinct_dput split: option.split)
  then show ?thesis by (simp add: collect_def dkeys_def)
qed

text \<open>\<open>[...new Set(xs)]\<close>: the first occurrence of each value, in order.\<close>

fun remdups_first :: "'a list \<Rightarrow> 'a list" where
  "remdups_first [] = []"
| "remdups_first (x # xs) = x # filter (\<lambda>y. y \<noteq> x) (remdups_first xs)"

lemma set_remdups_first [simp]: "set (remdups_first xs) = set xs"
  by (induction xs) auto

lemma distinct_remdups_first [simp]: "distinct (remdups_first xs)"
  by (induction xs) auto

end
