(* ===== verification/Fee_Math.thy ===== *)
theory Fee_Math
  imports Ssr_Base
begin

text \<open>
  The exact integer arithmetic of the SDK: \<open>packages/sdk/src/calculations.ts\<close> (in-kind
  mint requirements and redemption entitlements), \<open>feeMath.ts\<close> (the Protocol/Manager
  fee split and the apportionment to fee recipients), the fee of \<open>usdcMintFee.ts\<close> and
  the constant-product quote of \<open>ammCalculations.ts\<close>. Every amount is a \<open>bigint\<close>,
  modelled by \<open>int\<close>; basis points that the source types as \<open>number\<close> are integers.
\<close>

section \<open>calculations.ts\<close>

datatype calc_error =
    DivisionByZero string
  | ZeroSupply string
  | FeeConsumesAll string
  | SeedTokensNotPositive
  | SeedBelowMinimum int
  | ShareBpsNotFull int int
  | BigIntTypeError
  | PoolHasNoLiquidity

definition BPS_DENOMINATOR :: int where
  "BPS_DENOMINATOR = 10000"

definition mulDivCeil :: "int \<Rightarrow> int \<Rightarrow> int \<Rightarrow> calc_error + int" where
  "mulDivCeil a b c =
     (if c = 0 then Inl (DivisionByZero ''mulDivCeil'')
      else let product = a * b in Inr ((product + c - 1) sdiv c))"

definition mulDivFloor :: "int \<Rightarrow> int \<Rightarrow> int \<Rightarrow> calc_error + int" where
  "mulDivFloor a b c =
     (if c = 0 then Inl (DivisionByZero ''mulDivFloor'') else Inr ((a * b) sdiv c))"

record asset_balance =
  ab_mint :: string
  vaultBalance :: int

record mint_requirement =
  mr_mint :: string
  requiredAmount :: int

definition computeMintRequirements ::
  "int \<Rightarrow> int \<Rightarrow> asset_balance list \<Rightarrow> calc_error + mint_requirement list" where
  "computeMintRequirements reserveTokensRequested totalSupply assetBalances =
     (if totalSupply \<le> 0 then Inl (ZeroSupply ''computeMintRequirements'')
      else rmap (\<lambda>a. rbind (mulDivCeil reserveTokensRequested (vaultBalance a) totalSupply)
                   (\<lambda>r. Inr \<lparr>mr_mint = ab_mint a, requiredAmount = r\<rparr>)) assetBalances)"

definition computeNetMintOutput :: "int \<Rightarrow> int \<Rightarrow> calc_error + int \<times> int" where
  "computeNetMintOutput reserveTokensRequested mintFeeBps =
     rbind (mulDivCeil reserveTokensRequested mintFeeBps BPS_DENOMINATOR) (\<lambda>feeShares.
       let netOut = reserveTokensRequested - feeShares in
       if netOut \<le> 0 then Inl (FeeConsumesAll ''computeNetMintOutput'')
       else Inr (netOut, feeShares))"

record redemption_entitlement =
  re_mint :: string
  entitlement :: int

definition computeRedemptionEntitlements ::
  "int \<Rightarrow> int \<Rightarrow> int \<Rightarrow> asset_balance list \<Rightarrow> calc_error + redemption_entitlement list" where
  "computeRedemptionEntitlements reserveTokensToRedeem redemptionFeeBps totalSupply assetBalances =
     (if totalSupply \<le> 0 then Inl (ZeroSupply ''computeRedemptionEntitlements'')
      else rbind (mulDivCeil reserveTokensToRedeem redemptionFeeBps BPS_DENOMINATOR) (\<lambda>feeShares.
        let netShares = reserveTokensToRedeem - feeShares in
        if netShares \<le> 0 then Inl (FeeConsumesAll ''computeRedemptionEntitlements'')
        else rmap (\<lambda>a. rbind (mulDivFloor netShares (vaultBalance a) totalSupply)
                     (\<lambda>e. Inr \<lparr>re_mint = ab_mint a, entitlement = e\<rparr>)) assetBalances))"

definition MIN_SEED_AMOUNT_PER_ASSET :: int where
  "MIN_SEED_AMOUNT_PER_ASSET = 1000"

fun check_seed_amounts :: "int list \<Rightarrow> calc_error + unit" where
  "check_seed_amounts [] = Inr ()"
| "check_seed_amounts (amount # rest) =
     (if amount < MIN_SEED_AMOUNT_PER_ASSET then Inl (SeedBelowMinimum amount)
      else check_seed_amounts rest)"

definition validateSeedPlan :: "int list \<Rightarrow> int \<Rightarrow> calc_error + unit" where
  "validateSeedPlan seedAmounts initialReserveTokens =
     (if initialReserveTokens \<le> 0 then Inl SeedTokensNotPositive
      else check_seed_amounts seedAmounts)"

text \<open>\<open>computeFeeShareSplit\<close> returns (managerFeeShares, protocolFeeShares).\<close>

definition computeFeeShareSplit :: "int \<Rightarrow> int \<Rightarrow> int \<Rightarrow> calc_error + int \<times> int" where
  "computeFeeShareSplit totalFeeShares managerFeeShareBps protocolFeeShareBps =
     (if managerFeeShareBps + protocolFeeShareBps \<noteq> BPS_DENOMINATOR
      then Inl (ShareBpsNotFull managerFeeShareBps protocolFeeShareBps)
      else rbind (mulDivFloor totalFeeShares managerFeeShareBps BPS_DENOMINATOR) (\<lambda>managerFeeShares.
        let protocolFeeShares = totalFeeShares - managerFeeShares in
        Inr (managerFeeShares, protocolFeeShares)))"

section \<open>feeMath.ts\<close>

definition PROTOCOL_MIN_MINT_FEE_BPS :: int where
  "PROTOCOL_MIN_MINT_FEE_BPS = 50"

definition PROTOCOL_MIN_ANNUAL_TVL_FEE_BPS :: int where
  "PROTOCOL_MIN_ANNUAL_TVL_FEE_BPS = 50"

definition MAX_FEE_RECIPIENTS :: nat where
  "MAX_FEE_RECIPIENTS = 10"

record effective_fee_split =
  protocolBps :: int
  managerBps :: int
  effectiveTotalBps :: int

definition computeEffectiveFeeSplit :: "int \<Rightarrow> int \<Rightarrow> effective_fee_split" where
  "computeEffectiveFeeSplit configuredBps protocolMinBps =
     (let half = configuredBps sdiv 2;
          pBps = (if protocolMinBps > half then protocolMinBps else half);
          mBps = (if configuredBps > pBps then configuredBps - pBps else 0)
      in \<lparr>protocolBps = pBps, managerBps = mBps, effectiveTotalBps = pBps + mBps\<rparr>)"

text \<open>The two-way splits return (protocol, manager).\<close>

definition splitTotalFee :: "int \<Rightarrow> int \<Rightarrow> int \<Rightarrow> calc_error + int \<times> int" where
  "splitTotalFee totalFeeShares pBps mBps =
     (let effTotal = pBps + mBps in
      if effTotal = 0 then Inr (0, 0)
      else rbind (mulDivFloor totalFeeShares mBps effTotal) (\<lambda>managerTotal.
        let protocolTotal = totalFeeShares - managerTotal in Inr (protocolTotal, managerTotal)))"

record fee_recipient =
  fr_wallet :: string
  allocationBps :: int

definition recipient_floors :: "int \<Rightarrow> fee_recipient list \<Rightarrow> int list" where
  "recipient_floors managerTotal recipients =
     map (\<lambda>r. (managerTotal * allocationBps r) sdiv BPS_DENOMINATOR) recipients"

definition recipient_remainders :: "int \<Rightarrow> fee_recipient list \<Rightarrow> int list" where
  "recipient_remainders managerTotal recipients =
     map (\<lambda>r. (managerTotal * allocationBps r) smod BPS_DENOMINATOR) recipients"

text \<open>
  The comparator of the source's \<open>sort\<close> on recipient indices: larger remainder first,
  then lower index. \<open>later rem a b\<close> is \<open>cmp(a, b) > 0\<close>.
\<close>

definition later :: "int list \<Rightarrow> nat \<Rightarrow> nat \<Rightarrow> bool" where
  "later rems a b = (if rems ! b \<noteq> rems ! a then rems ! b > rems ! a else a > b)"

definition recipient_order :: "int list \<Rightarrow> nat list" where
  "recipient_order rems = sort_by (later rems) [0..<length rems]"

text \<open>
  The increment loop: \<open>increments[order[i]] += 1n\<close>. Past the end of \<open>order\<close> the index is
  \<open>undefined\<close> and the addition mixes \<open>undefined\<close> with a bigint, a TypeError.
\<close>

fun increment_loop :: "nat \<Rightarrow> nat list \<Rightarrow> int list \<Rightarrow> calc_error + int list" where
  "increment_loop 0 order incs = Inr incs"
| "increment_loop (Suc k) [] incs = Inl BigIntTypeError"
| "increment_loop (Suc k) (j # order) incs = increment_loop k order (incs[j := incs ! j + 1])"

definition apportionToRecipients :: "int \<Rightarrow> fee_recipient list \<Rightarrow> calc_error + int list" where
  "apportionToRecipients managerTotal recipients =
     (let floors = recipient_floors managerTotal recipients;
          remainders = recipient_remainders managerTotal recipients;
          leftover = managerTotal - sum_list floors;
          order = recipient_order remainders
      in increment_loop (nat leftover) order floors)"

definition splitByWeight :: "int \<Rightarrow> int \<Rightarrow> int \<Rightarrow> calc_error + int \<times> int" where
  "splitByWeight amount protocolWeight managerWeight =
     (let totalWeight = protocolWeight + managerWeight in
      if totalWeight = 0 then Inr (0, 0)
      else rbind (mulDivFloor amount managerWeight totalWeight) (\<lambda>managerShare.
        let protocolShare = amount - managerShare in Inr (protocolShare, managerShare)))"

datatype recipient_error =
    RecipientCount nat
  | DefaultWallet
  | NonPositiveAllocation string
  | DuplicateWallet string
  | AllocationSum int

definition DEFAULT_ADDRESS :: string where
  "DEFAULT_ADDRESS = ''11111111111111111111111111111111''"

fun validate_recipient_loop ::
  "string set \<Rightarrow> int \<Rightarrow> fee_recipient list \<Rightarrow> recipient_error + int" where
  "validate_recipient_loop seen acc [] = Inr acc"
| "validate_recipient_loop seen acc (r # rs) =
     (if fr_wallet r = [] \<or> fr_wallet r = DEFAULT_ADDRESS then Inl DefaultWallet
      else if allocationBps r \<le> 0 then Inl (NonPositiveAllocation (fr_wallet r))
      else if fr_wallet r \<in> seen then Inl (DuplicateWallet (fr_wallet r))
      else validate_recipient_loop (insert (fr_wallet r) seen) (acc + allocationBps r) rs)"

definition validateFeeRecipientInputs :: "fee_recipient list \<Rightarrow> recipient_error + unit" where
  "validateFeeRecipientInputs recipients =
     (if length recipients = 0 \<or> length recipients > MAX_FEE_RECIPIENTS
      then Inl (RecipientCount (length recipients))
      else rbind (validate_recipient_loop {} 0 recipients) (\<lambda>s.
        if s \<noteq> 10000 then Inl (AllocationSum s) else Inr ()))"

section \<open>The USDC mint fee (usdcMintFee.ts) and the pool quote (ammCalculations.ts)\<close>

definition computeUsdcMintFeeRaw :: "int \<Rightarrow> int \<Rightarrow> calc_error + int" where
  "computeUsdcMintFeeRaw depositValueUsdcRaw configuredMintFeeBps =
     (let effTotal = effectiveTotalBps
            (computeEffectiveFeeSplit configuredMintFeeBps PROTOCOL_MIN_MINT_FEE_BPS) in
      if effTotal = 0 \<or> depositValueUsdcRaw \<le> 0 then Inr 0
      else mulDivCeil depositValueUsdcRaw effTotal 10000)"

record amm_quote =
  feeAmount :: int
  amountInAfterFee :: int
  amountOut :: int

definition quoteAmmSwap :: "int \<Rightarrow> int \<Rightarrow> int \<Rightarrow> int \<Rightarrow> calc_error + amm_quote" where
  "quoteAmmSwap reserveIn reserveOut amountIn feeBps =
     (if reserveIn \<le> 0 \<or> reserveOut \<le> 0 then Inl PoolHasNoLiquidity
      else rbind (mulDivFloor amountIn feeBps 10000) (\<lambda>fee.
        let afterFee = amountIn - fee;
            k = reserveIn * reserveOut;
            newReserveIn = reserveIn + afterFee
        in if newReserveIn = 0 then Inl (DivisionByZero ''BigInt'')
           else let newReserveOut = k sdiv newReserveIn;
                    out = reserveOut - newReserveOut
                in Inr \<lparr>feeAmount = fee, amountInAfterFee = afterFee, amountOut = out\<rparr>))"

section \<open>Facts about the operations\<close>

subsection \<open>Requirements, entitlements and backing per share\<close>

lemma mulDivCeil_pos: "0 < c \<Longrightarrow> 0 \<le> a * b \<Longrightarrow> mulDivCeil a b c = Inr ((a * b + c - 1) div c)"
  by (simp add: mulDivCeil_def sdiv_nonneg_eq)

lemma mulDivFloor_pos: "0 < c \<Longrightarrow> 0 \<le> a * b \<Longrightarrow> mulDivFloor a b c = Inr ((a * b) div c)"
  by (simp add: mulDivFloor_def sdiv_nonneg_eq)

definition nonneg_balances :: "asset_balance list \<Rightarrow> bool" where
  "nonneg_balances bals \<longleftrightarrow> (\<forall>a \<in> set bals. 0 \<le> vaultBalance a)"

definition ceil_requirement :: "int \<Rightarrow> int \<Rightarrow> asset_balance \<Rightarrow> mint_requirement" where
  "ceil_requirement s S a =
     \<lparr>mr_mint = ab_mint a, requiredAmount = (s * vaultBalance a + S - 1) div S\<rparr>"

definition floor_entitlement :: "int \<Rightarrow> int \<Rightarrow> asset_balance \<Rightarrow> redemption_entitlement" where
  "floor_entitlement n S a = \<lparr>re_mint = ab_mint a, entitlement = (n * vaultBalance a) div S\<rparr>"

lemma computeMintRequirements_eq:
  assumes "0 < S" "0 \<le> s" "nonneg_balances bals"
  shows "computeMintRequirements s S bals = Inr (map (ceil_requirement s S) bals)"
  using assms unfolding computeMintRequirements_def
  by (auto simp: nonneg_balances_def mulDivCeil_pos ceil_requirement_def intro!: rmap_all_Inr)

definition redemption_net :: "int \<Rightarrow> int \<Rightarrow> int" where
  "redemption_net s f = s - (s * f + 9999) div 10000"

lemma computeRedemptionEntitlements_eq:
  assumes "0 < S" "0 \<le> s" "0 \<le> f" "nonneg_balances bals" "0 < redemption_net s f"
  shows "computeRedemptionEntitlements s f S bals =
           Inr (map (floor_entitlement (redemption_net s f) S) bals)"
  using assms unfolding computeRedemptionEntitlements_def BPS_DENOMINATOR_def
  by (auto simp: nonneg_balances_def mulDivCeil_pos mulDivFloor_pos floor_entitlement_def
      redemption_net_def Let_def add.commute intro!: rmap_all_Inr)

lemma redemption_net_le: "0 \<le> s \<Longrightarrow> 0 \<le> f \<Longrightarrow> redemption_net s f \<le> s"
  unfolding redemption_net_def using ceil_div_nonneg [of 10000 "s * f"] by simp

lemma computeRedemptionEntitlements_Inr_net:
  assumes "0 \<le> s" "0 \<le> f" "computeRedemptionEntitlements s f S bals = Inr ents"
  shows "0 < S" "0 < redemption_net s f"
proof -
  show S: "0 < S" using assms(3) by (auto simp: computeRedemptionEntitlements_def split: if_splits)
  have ceil: "mulDivCeil s f BPS_DENOMINATOR = Inr ((s * f + 9999) div 10000)"
    using assms(1,2) by (simp add: mulDivCeil_pos BPS_DENOMINATOR_def)
  show "0 < redemption_net s f"
  proof (rule ccontr)
    assume "\<not> 0 < redemption_net s f"
    then have le: "s \<le> (s * f + 9999) div 10000" by (simp add: redemption_net_def)
    have "computeRedemptionEntitlements s f S bals =
        Inl (FeeConsumesAll ''computeRedemptionEntitlements'')"
      unfolding computeRedemptionEntitlements_def ceil using S le by simp
    with assms(3) show False by simp
  qed
qed

text \<open>One vault: what a mint of \<open>s\<close> shares deposits and what redeeming them pays.\<close>

lemma deposit_covers: "0 < S \<Longrightarrow> s * V \<le> S * ((s * V + S - 1) div (S::int))"
  by (rule ceil_div_ge)

lemma deposit_minimal: "0 < S \<Longrightarrow> S * ((s * V + S - 1) div (S::int) - 1) < s * V"
  by (rule ceil_div_lt)

lemma redeem_after_mint:
  fixes s S V :: int
  assumes "0 < S" "0 < s"
  defines "d \<equiv> (s * V + S - 1) div S"
  shows "(s * (V + d)) div (S + s) \<le> d"
proof -
  have cover: "s * V \<le> S * d" unfolding d_def by (rule deposit_covers) fact
  have "s * (V + d) \<le> (S + s) * d" using cover by (simp add: algebra_simps)
  moreover have "0 < S + s" using assms(1,2) by simp
  ultimately show ?thesis by (intro div_le_of_le_mult)
qed

lemma redeem_floor_le:
  fixes n s S V :: int
  assumes "0 < S" "n \<le> s" "0 \<le> V"
  shows "S * ((n * V) div S) \<le> s * V"
  using mult_div_le_int [OF assms(1), of "n * V"] mult_right_mono [OF assms(2,3)] by linarith

subsection \<open>Splits\<close>

lemma effective_split_cases:
  assumes "0 \<le> c" "0 \<le> m"
  shows "protocolBps (computeEffectiveFeeSplit c m) = max m (c div 2)"
    and "managerBps (computeEffectiveFeeSplit c m) = max 0 (c - max m (c div 2))"
    and "effectiveTotalBps (computeEffectiveFeeSplit c m) = max c m"
proof -
  have half: "c sdiv 2 = c div 2" using assms by (simp add: sdiv_nonneg_eq)
  have "c div 2 \<le> c" using assms by simp
  then show "protocolBps (computeEffectiveFeeSplit c m) = max m (c div 2)"
    and "managerBps (computeEffectiveFeeSplit c m) = max 0 (c - max m (c div 2))"
    and "effectiveTotalBps (computeEffectiveFeeSplit c m) = max c m"
    by (auto simp: computeEffectiveFeeSplit_def Let_def half max_def)
qed

subsection \<open>Apportionment\<close>

lemma increment_loop_length:
  "increment_loop k order incs = Inr out \<Longrightarrow> length out = length incs"
  by (induction k order incs rule: increment_loop.induct) auto

lemma increment_loop_enough:
  "k \<le> length order \<Longrightarrow> \<exists>out. increment_loop k order incs = Inr out"
  by (induction k order incs rule: increment_loop.induct) auto

lemma increment_loop_nth:
  assumes "k \<le> length order" "distinct order" "set order \<subseteq> {..<length incs}"
    "increment_loop k order incs = Inr out" "i < length incs"
  shows "out ! i = incs ! i + (if i \<in> set (take k order) then 1 else 0)"
  using assms
proof (induction k order incs rule: increment_loop.induct)
  case (3 k j order incs)
  have IH: "out ! i = incs[j := incs ! j + 1] ! i + (if i \<in> set (take k order) then 1 else 0)"
    by (rule "3.IH") (use "3.prems" in auto)
  have "j \<notin> set (take k order)" using "3.prems"(2) by (auto dest: in_set_takeD)
  then show ?case using IH "3.prems"(5) by (cases "i = j") auto
qed auto

lemma sum_increment:
  assumes "length ys = length (xs :: int list)" "distinct js" "set js \<subseteq> {..<length xs}"
    "\<And>i. i < length xs \<Longrightarrow> ys ! i = xs ! i + (if i \<in> set js then 1 else 0)"
  shows "sum_list ys = sum_list xs + int (length js)"
proof -
  have "sum_list ys = (\<Sum>i<length xs. xs ! i + (if i \<in> set js then 1 else 0))"
    using assms(1,4) by (simp add: sum_list_sum_nth atLeast0LessThan)
  also have "\<dots> = sum_list xs + (\<Sum>i<length xs. if i \<in> set js then 1 else 0)"
    by (simp add: sum.distrib sum_list_sum_nth atLeast0LessThan)
  also have "(\<Sum>i<length xs. if i \<in> set js then (1::int) else 0) = int (card ({..<length xs} \<inter> set js))"
    by (simp add: sum.If_cases)
  also have "{..<length xs} \<inter> set js = set js" using assms(3) by blast
  finally show ?thesis using assms(2) by (simp add: distinct_card)
qed

text \<open>Recipient lists as the validator accepts them: allocations are not negative and add up to 10000.\<close>

definition full_allocation :: "fee_recipient list \<Rightarrow> bool" where
  "full_allocation rs \<longleftrightarrow> (\<forall>r \<in> set rs. 0 \<le> allocationBps r) \<and> (\<Sum>r\<leftarrow>rs. allocationBps r) = 10000"

lemma floors_eq:
  assumes "0 \<le> M" "full_allocation rs"
  shows "recipient_floors M rs = map (\<lambda>r. (M * allocationBps r) div 10000) rs"
  using assms by (auto simp: recipient_floors_def full_allocation_def BPS_DENOMINATOR_def sdiv_nonneg_eq)

lemma remainders_eq:
  assumes "0 \<le> M" "full_allocation rs"
  shows "recipient_remainders M rs = map (\<lambda>r. (M * allocationBps r) mod 10000) rs"
  using assms
  by (auto simp: recipient_remainders_def full_allocation_def BPS_DENOMINATOR_def smod_nonneg_eq)

lemma floor_plus_remainder:
  assumes "0 \<le> M" "full_allocation rs"
  shows "10000 * sum_list (recipient_floors M rs) + sum_list (recipient_remainders M rs) = 10000 * M"
proof -
  have "10000 * sum_list (recipient_floors M rs) + sum_list (recipient_remainders M rs)
      = (\<Sum>r\<leftarrow>rs. M * allocationBps r)"
    unfolding floors_eq [OF assms] remainders_eq [OF assms]
    by (simp add: sum_list_const_mult [symmetric] sum_list_addf [symmetric] o_def)
  also have "\<dots> = M * (\<Sum>r\<leftarrow>rs. allocationBps r)" by (simp add: sum_list_const_mult)
  finally show ?thesis using assms(2) by (simp add: full_allocation_def)
qed

lemma remainder_bounds:
  assumes "0 \<le> M" "full_allocation rs"
  shows "0 \<le> sum_list (recipient_remainders M rs)"
  "sum_list (recipient_remainders M rs) \<le> 9999 * int (length rs)"
proof -
  show "0 \<le> sum_list (recipient_remainders M rs)"
    unfolding remainders_eq [OF assms] by (rule sum_list_nonneg) auto
  have "sum_list (map (\<lambda>r. (M * allocationBps r) mod 10000) rs) \<le> sum_list (map (\<lambda>_. 9999) rs)"
    by (rule sum_list_mono) (smt (verit) pos_mod_bound)
  then show "sum_list (recipient_remainders M rs) \<le> 9999 * int (length rs)"
    unfolding remainders_eq [OF assms] by (simp add: sum_list_triv mult.commute)
qed

lemma leftover_bounds:
  assumes "0 \<le> M" "full_allocation rs"
  shows "0 \<le> M - sum_list (recipient_floors M rs)"
  "M - sum_list (recipient_floors M rs) \<le> int (length rs)"
  using floor_plus_remainder [OF assms] remainder_bounds [OF assms] by linarith+

lemma comparator_later: "comparator (later rems)"
  unfolding comparator_def later_def by (auto split: if_splits)

lemma recipient_order_props [simp]:
  "set (recipient_order rems) = {..<length rems}" "distinct (recipient_order rems)"
  "length (recipient_order rems) = length rems"
  by (auto simp: recipient_order_def)

text \<open>Recipients that get an extra unit come before the others in the remainder order.\<close>

lemma recipient_order_prefix:
  assumes "i \<in> set (take k (recipient_order rems))" "j < length rems"
    "j \<notin> set (take k (recipient_order rems))"
  shows "rems ! j \<le> rems ! i \<and> (rems ! j = rems ! i \<longrightarrow> i < j)"
proof -
  let ?o = "recipient_order rems"
  have "j \<in> set ?o" using assms(2) by simp
  with assms(3) have "j \<in> set (drop k ?o)"
    by (metis Un_iff append_take_drop_id set_append)
  moreover have "sorted_wrt (\<lambda>x y. \<not> later rems x y) (take k ?o @ drop k ?o)"
    unfolding append_take_drop_id unfolding recipient_order_def
    by (rule sorted_sort_by [OF comparator_later])
  ultimately have "\<not> later rems i j" using assms(1) unfolding sorted_wrt_append by blast
  moreover have "i \<noteq> j" using assms(1,3) by blast
  ultimately show ?thesis by (auto simp: later_def split: if_splits)
qed

lemma apportion_spec:
  assumes "0 \<le> M" "full_allocation rs"
  obtains out k where "apportionToRecipients M rs = Inr out" "k \<le> length rs"
    "int k = M - sum_list (recipient_floors M rs)"
    "length out = length rs"
    "\<And>i. i < length rs \<Longrightarrow> out ! i = recipient_floors M rs ! i +
       (if i \<in> set (take k (recipient_order (recipient_remainders M rs))) then 1 else 0)"
proof -
  let ?fl = "recipient_floors M rs" and ?rem = "recipient_remainders M rs"
  define k where "k = nat (M - sum_list ?fl)"
  note lo = leftover_bounds [OF assms]
  have len: "length ?fl = length rs" "length ?rem = length rs"
    by (simp_all add: recipient_floors_def recipient_remainders_def)
  have kle: "k \<le> length rs" and kint: "int k = M - sum_list ?fl"
    using lo unfolding k_def by auto
  have "k \<le> length (recipient_order ?rem)" using kle by (simp add: len)
  then obtain out where out: "increment_loop k (recipient_order ?rem) ?fl = Inr out"
    using increment_loop_enough by blast
  show ?thesis
  proof (rule that [of out k])
    show "apportionToRecipients M rs = Inr out"
      using out by (simp add: apportionToRecipients_def Let_def k_def)
    show "length out = length rs" using increment_loop_length [OF out] len by simp
    show "out ! i = ?fl ! i + (if i \<in> set (take k (recipient_order ?rem)) then 1 else 0)"
      if "i < length rs" for i
      by (rule increment_loop_nth [OF _ _ _ out]) (use kle len that in auto)
  qed (use kle kint in auto)
qed

lemma apportion_sum:
  assumes "0 \<le> M" "full_allocation rs" "apportionToRecipients M rs = Inr out"
  shows "sum_list out = M"
proof -
  obtain k where k: "k \<le> length rs" "int k = M - sum_list (recipient_floors M rs)"
    "length out = length rs"
    "\<And>i. i < length rs \<Longrightarrow> out ! i = recipient_floors M rs ! i +
       (if i \<in> set (take k (recipient_order (recipient_remainders M rs))) then 1 else 0)"
    using apportion_spec [OF assms(1,2)] assms(3) by (metis sum.inject(2))
  let ?js = "take k (recipient_order (recipient_remainders M rs))"
  have len: "length (recipient_floors M rs) = length rs" "length (recipient_remainders M rs) = length rs"
    by (simp_all add: recipient_floors_def recipient_remainders_def)
  have "sum_list out = sum_list (recipient_floors M rs) + int (length ?js)"
    by (rule sum_increment) (use k len in \<open>auto dest: in_set_takeD\<close>)
  also have "length ?js = k" using k(1) len by simp
  finally show ?thesis using k(2) by simp
qed

lemma validate_recipient_loop_Inr:
  "validate_recipient_loop seen acc rs = Inr t \<longleftrightarrow>
     t = acc + (\<Sum>r\<leftarrow>rs. allocationBps r) \<and> distinct (map fr_wallet rs) \<and>
     set (map fr_wallet rs) \<inter> seen = {} \<and>
     (\<forall>r \<in> set rs. fr_wallet r \<noteq> [] \<and> fr_wallet r \<noteq> DEFAULT_ADDRESS \<and> 0 < allocationBps r)"
proof (induction rs arbitrary: seen acc)
  case (Cons r rs)
  show ?case
    by (simp add: Cons.IH) (auto simp: algebra_simps)
qed auto

lemma validated_full_allocation:
  "validateFeeRecipientInputs rs = Inr () \<Longrightarrow> full_allocation rs"
  by (auto simp: validateFeeRecipientInputs_def full_allocation_def res_iff validate_recipient_loop_Inr
      less_imp_le split: if_splits)

section \<open>Properties\<close>

text \<open>
  A mint never dilutes the holders: when the deposit \<open>computeMintRequirements\<close>
  asks for is paid, every vault's balance per Reserve Token is at least what it was
  (cross-multiplied), and one raw unit less would not cover the share.
\<close>

theorem mint_never_dilutes:
  assumes "computeMintRequirements s S bals = Inr reqs" "0 \<le> s" "nonneg_balances bals"
  shows "length reqs = length bals \<and> (\<forall>i < length bals.
    mr_mint (reqs ! i) = ab_mint (bals ! i) \<and>
    vaultBalance (bals ! i) * (S + s) \<le> (vaultBalance (bals ! i) + requiredAmount (reqs ! i)) * S \<and>
    (requiredAmount (reqs ! i) - 1) * S < s * vaultBalance (bals ! i))"
proof -
  have S: "0 < S" using assms(1) by (auto simp: computeMintRequirements_def split: if_splits)
  have reqs: "reqs = map (ceil_requirement s S) bals"
    using assms(1) computeMintRequirements_eq [OF S assms(2,3)] by simp
  have "V * (S + s) \<le> (V + (s * V + S - 1) div S) * S"
    and "((s * V + S - 1) div S - 1) * S < s * V" for V
    using deposit_covers [OF S, of s V] deposit_minimal [OF S, of s V]
    by (simp_all only: distrib_left distrib_right mult.commute)
  then show ?thesis by (auto simp: reqs ceil_requirement_def)
qed

theorem mint_never_dilutes_witness:
  "vaultBalance \<lparr>ab_mint = ''A'', vaultBalance = 10\<rparr> * (3 + 1) \<le> (10 + 4) * (3::int)"
  using mint_never_dilutes [of 1 3 "[\<lparr>ab_mint = ''A'', vaultBalance = 10\<rparr>]"
      "[\<lparr>mr_mint = ''A'', requiredAmount = 4\<rparr>]"]
  by (simp add: computeMintRequirements_def mulDivCeil_def nonneg_balances_def signed_divide_int_def)

text \<open>
  A redemption never takes more than its share: the payouts of
  \<open>computeRedemptionEntitlements\<close> are between 0 and the vault balance, and the balance
  per remaining Reserve Token does not fall.
\<close>

theorem redeem_never_dilutes:
  assumes "computeRedemptionEntitlements s f S bals = Inr ents" "0 \<le> s" "s \<le> S" "0 \<le> f"
    "nonneg_balances bals"
  shows "length ents = length bals \<and> (\<forall>i < length bals.
    re_mint (ents ! i) = ab_mint (bals ! i) \<and>
    0 \<le> entitlement (ents ! i) \<and> entitlement (ents ! i) \<le> vaultBalance (bals ! i) \<and>
    vaultBalance (bals ! i) * (S - s) \<le> (vaultBalance (bals ! i) - entitlement (ents ! i)) * S)"
proof -
  note net = computeRedemptionEntitlements_Inr_net [OF assms(2,4,1)]
  have ents: "ents = map (floor_entitlement (redemption_net s f) S) bals"
    using assms(1) computeRedemptionEntitlements_eq [OF net(1) assms(2,4,5) net(2)] by simp
  have le: "redemption_net s f \<le> s" by (rule redemption_net_le) fact+
  have share: "V * (S - s) \<le> (V - (redemption_net s f * V) div S) * S" if "0 \<le> V" for V
    using redeem_floor_le [OF net(1) le that] by (simp add: left_diff_distrib right_diff_distrib mult.commute)
  have upper: "(redemption_net s f * V) div S \<le> V" if "0 \<le> V" for V
    using mult_right_mono [OF order_trans [OF le assms(3)] that] net(1)
    by (intro div_le_of_le_mult) simp_all
  show ?thesis
    using share upper net assms(5)
    by (auto simp: ents floor_entitlement_def nonneg_balances_def pos_imp_zdiv_nonneg_iff)
qed

theorem redeem_never_dilutes_witness:
  "(10::int) * (5 - 2) \<le> (10 - 2) * 5"
  using redeem_never_dilutes [of 2 100 5 "[\<lparr>ab_mint = ''A'', vaultBalance = 10\<rparr>]"
      "[\<lparr>re_mint = ''A'', entitlement = 2\<rparr>]"]
  by (simp add: computeRedemptionEntitlements_def mulDivCeil_def mulDivFloor_def
      nonneg_balances_def signed_divide_int_def BPS_DENOMINATOR_def)



text \<open>
  C5: \<open>apportionToRecipients\<close> is largest-remainder apportionment: for allocations that
  \<open>validateFeeRecipientInputs\<close> accepts, it returns, the amounts add up to exactly the
  Manager total, each is its exact share rounded down or one unit more, and a recipient
  gets the extra unit only if no recipient without it has a larger remainder, or an
  equal remainder at a lower index.
\<close>

theorem apportion_exact:
  assumes "validateFeeRecipientInputs rs = Inr ()" "0 \<le> M"
  shows "\<exists>out. apportionToRecipients M rs = Inr out \<and> length out = length rs \<and> sum_list out = M \<and>
    (\<forall>i < length rs. let share = M * allocationBps (rs ! i); extra = out ! i - share div 10000 in
       (extra = 0 \<or> extra = 1) \<and>
       (extra = 1 \<longrightarrow> (\<forall>j < length rs. out ! j = M * allocationBps (rs ! j) div 10000 \<longrightarrow>
          M * allocationBps (rs ! j) mod 10000 \<le> share mod 10000 \<and>
          (M * allocationBps (rs ! j) mod 10000 = share mod 10000 \<longrightarrow> i < j))))"
proof -
  have full: "full_allocation rs" by (rule validated_full_allocation) fact
  obtain out k where out: "apportionToRecipients M rs = Inr out" "length out = length rs"
    and nth: "\<And>i. i < length rs \<Longrightarrow> out ! i = recipient_floors M rs ! i +
       (if i \<in> set (take k (recipient_order (recipient_remainders M rs))) then 1 else 0)"
    by (rule apportion_spec [OF assms(2) full]) blast
  have rem: "recipient_remainders M rs ! i = M * allocationBps (rs ! i) mod 10000"
    and fl: "recipient_floors M rs ! i = M * allocationBps (rs ! i) div 10000"
    if "i < length rs" for i
    using that by (simp_all add: remainders_eq [OF assms(2) full] floors_eq [OF assms(2) full])
  have len: "length (recipient_remainders M rs) = length rs"
    by (simp add: recipient_remainders_def)
  let ?chosen = "\<lambda>i. i \<in> set (take k (recipient_order (recipient_remainders M rs)))"
  have val: "out ! i = M * allocationBps (rs ! i) div 10000 + (if ?chosen i then 1 else 0)"
    if "i < length rs" for i
    using nth [OF that] fl [OF that] by simp
  have pref: "M * allocationBps (rs ! j) mod 10000 \<le> M * allocationBps (rs ! i) mod 10000 \<and>
      (M * allocationBps (rs ! j) mod 10000 = M * allocationBps (rs ! i) mod 10000 \<longrightarrow> i < j)"
    if "i < length rs" "j < length rs" "?chosen i" "\<not> ?chosen j" for i j
    using recipient_order_prefix [OF that(3) _ that(4)] that(1,2) rem by (simp add: len)
  have "sum_list out = M" by (rule apportion_sum [OF assms(2) full out(1)])
  moreover have "let share = M * allocationBps (rs ! i); extra = out ! i - share div 10000 in
       (extra = 0 \<or> extra = 1) \<and>
       (extra = 1 \<longrightarrow> (\<forall>j < length rs. out ! j = M * allocationBps (rs ! j) div 10000 \<longrightarrow>
          M * allocationBps (rs ! j) mod 10000 \<le> share mod 10000 \<and>
          (M * allocationBps (rs ! j) mod 10000 = share mod 10000 \<longrightarrow> i < j)))"
    if "i < length rs" for i
    using val pref [OF that] that by (auto simp: Let_def split: if_splits)
  ultimately show ?thesis using out by blast
qed

theorem apportion_exact_witness:
  "\<exists>out. apportionToRecipients 100
     [\<lparr>fr_wallet = ''a'', allocationBps = 3333\<rparr>, \<lparr>fr_wallet = ''b'', allocationBps = 6667\<rparr>] = Inr out \<and>
     sum_list out = 100"
  using apportion_exact [of "[\<lparr>fr_wallet = ''a'', allocationBps = 3333\<rparr>, \<lparr>fr_wallet = ''b'', allocationBps = 6667\<rparr>]" 100]
  by (auto simp: validateFeeRecipientInputs_def MAX_FEE_RECIPIENTS_def DEFAULT_ADDRESS_def)

text \<open>
  The recipient validator accepts exactly the lists of 1 to 10 distinct, non-default
  wallets with positive allocations that add up to 10000 basis points.
\<close>

theorem validateFeeRecipientInputs_iff:
  "validateFeeRecipientInputs rs = Inr () \<longleftrightarrow>
     1 \<le> length rs \<and> length rs \<le> 10 \<and> distinct (map fr_wallet rs) \<and>
     (\<Sum>r\<leftarrow>rs. allocationBps r) = 10000 \<and>
     (\<forall>r \<in> set rs. fr_wallet r \<noteq> [] \<and> fr_wallet r \<noteq> DEFAULT_ADDRESS \<and> 0 < allocationBps r)"
  by (cases "length rs = 0 \<or> length rs > MAX_FEE_RECIPIENTS")
    (auto simp: validateFeeRecipientInputs_def MAX_FEE_RECIPIENTS_def res_iff
      validate_recipient_loop_Inr Suc_le_eq split: if_splits)

theorem validateFeeRecipientInputs_iff_witness:
  "validateFeeRecipientInputs [\<lparr>fr_wallet = ''a'', allocationBps = 10000\<rparr>] = Inr ()"
  unfolding validateFeeRecipientInputs_iff by (simp add: DEFAULT_ADDRESS_def)

text \<open>
  The USDC mint fee of a positive deposit is the larger of the configured rate and
  0.5%, rounded up: in particular a Reserve configured at 0% is charged 0.5%, and the
  Protocol's part of the rate is never below the floor.
\<close>

theorem usdc_mint_fee_rate:
  assumes "0 \<le> configured"
  shows "computeUsdcMintFeeRaw v configured =
      Inr (if v \<le> 0 then 0 else (v * max configured 50 + 9999) div 10000) \<and>
    50 \<le> protocolBps (computeEffectiveFeeSplit configured PROTOCOL_MIN_MINT_FEE_BPS) \<and>
    configured div 2 \<le> protocolBps (computeEffectiveFeeSplit configured PROTOCOL_MIN_MINT_FEE_BPS)"
  using assms effective_split_cases [of configured 50]
  by (auto simp: computeUsdcMintFeeRaw_def PROTOCOL_MIN_MINT_FEE_BPS_def Let_def mulDivCeil_pos
      add.commute)

theorem usdc_mint_fee_rate_witness:
  "computeUsdcMintFeeRaw 1000000 0 = Inr 5000"
  using usdc_mint_fee_rate [of 0 1000000] by simp

text \<open>
  C31: A pool quote on amounts that are not negative: the fee is floored, and the output
  is the exact constant-product output rounded \<^emph>\<open>up\<close>, between 0 and the whole reserve.
\<close>

theorem amm_quote_rounds_up:
  assumes "0 < rIn" "0 < rOut" "0 \<le> x" "0 \<le> fee" "fee \<le> 10000"
  shows "\<exists>q. quoteAmmSwap rIn rOut x fee = Inr q \<and> feeAmount q = x * fee div 10000 \<and>
    amountInAfterFee q = x - x * fee div 10000 \<and>
    (rIn + amountInAfterFee q) * (amountOut q - 1) < rOut * amountInAfterFee q \<and>
    rOut * amountInAfterFee q \<le> (rIn + amountInAfterFee q) * amountOut q \<and>
    0 \<le> amountOut q \<and> amountOut q \<le> rOut"
proof -
  define y where "y = x - x * fee div 10000"
  define n where "n = rIn * rOut div (rIn + y)"
  have "x * fee \<le> 10000 * x" using mult_right_mono [OF assms(5,3)] by (simp add: mult.commute)
  then have "x * fee div 10000 \<le> x" by (intro div_le_of_le_mult) auto
  then have y: "0 \<le> y" by (simp add: y_def)
  have pos: "0 < rIn + y" using assms(1) y by simp
  have le: "(rIn + y) * n \<le> rIn * rOut" and lt: "rIn * rOut < (rIn + y) * (n + 1)"
    unfolding n_def by (rule mult_div_le_int [OF pos], rule lt_mult_div_succ [OF pos])
  have n: "0 \<le> n" "n \<le> rOut"
  proof -
    show "0 \<le> n" unfolding n_def using assms pos by (simp add: pos_imp_zdiv_nonneg_iff)
    have "rIn * rOut \<le> (rIn + y) * rOut" using y assms(2) by (intro mult_right_mono) auto
    then show "n \<le> rOut" unfolding n_def by (intro div_le_of_le_mult pos)
  qed
  have "quoteAmmSwap rIn rOut x fee =
      Inr \<lparr>feeAmount = x * fee div 10000, amountInAfterFee = y, amountOut = rOut - n\<rparr>"
    using assms pos by (simp add: quoteAmmSwap_def mulDivFloor_pos Let_def sdiv_nonneg_eq y_def n_def)
  moreover have "(rIn + y) * (rOut - n - 1) < rOut * y" "rOut * y \<le> (rIn + y) * (rOut - n)"
    using le lt by (simp_all add: algebra_simps)
  ultimately show ?thesis using n by (auto simp: y_def)
qed

theorem amm_quote_rounds_up_witness:
  "\<exists>q. quoteAmmSwap 3 10 1 0 = Inr q \<and> 0 \<le> amountOut q \<and> amountOut q \<le> 10"
  using amm_quote_rounds_up [of 3 10 1 0] by auto

text \<open>
  Rounding up lets a swap shrink the pool's product, the opposite of the pool-favouring
  floor the comments describe: a pool of 3 and 10 units pays 3 for 1, leaving 4 and 7.
\<close>

lemma amm_quote_shrinks_product:
  "\<exists>q. quoteAmmSwap 3 10 1 0 = Inr q \<and> amountOut q = 3 \<and> (3 + 1) * (10 - amountOut q) < 3 * (10::int)"
  by (simp add: quoteAmmSwap_def mulDivFloor_def signed_divide_int_def)

end
