(* ===== verification/Solana.thy ===== *)
theory Solana
  imports Ssr_Base "HOL-Library.Word" "HOL-Library.Char_ord"
begin

text \<open>
  Bytes, public keys, account metas and instructions as the SDK handles them, the
  little-endian integers of account and instruction data, and the program-derived
  addresses of \<open>packages/sdk/src/pda.ts\<close> and of the liquidity modules. What
  \<open>@solana/web3.js\<close> and \<open>@solana/spl-token\<close> compute (the hash behind
  \<open>findProgramAddressSync\<close>, base58) is a parameter, the record \<open>web3\<close>.
\<close>

section \<open>Bytes and little-endian integers\<close>

type_synonym byte = "8 word"
type_synonym bytes = "byte list"

definition buffer_of :: "string \<Rightarrow> bytes" where
  \<comment> \<open>\<open>Buffer.from("...")\<close> of an ASCII literal\<close>
  "buffer_of s = map of_char s"

definition subarray :: "bytes \<Rightarrow> nat \<Rightarrow> nat \<Rightarrow> bytes" where
  \<comment> \<open>\<open>data.subarray(a, b)\<close>: clamped to the buffer\<close>
  "subarray d a b = take (b - a) (drop a d)"

fun le_val :: "bytes \<Rightarrow> int" where
  "le_val [] = 0"
| "le_val (b # bs) = uint b + 256 * le_val bs"

fun le_bytes :: "nat \<Rightarrow> int \<Rightarrow> bytes" where
  "le_bytes 0 v = []"
| "le_bytes (Suc n) v = word_of_int (v mod 256) # le_bytes n (v div 256)"

lemma length_le_bytes [simp]: "length (le_bytes n v) = n"
  by (induction n arbitrary: v) auto

lemma le_val_nonneg [simp]: "0 \<le> le_val bs"
  by (induction bs) auto

lemma le_val_less: "le_val bs < 256 ^ length bs"
proof (induction bs)
  case (Cons b bs)
  have "uint b < 256" using uint_lt2p [of b] by simp
  then show ?case using Cons by simp
qed simp

lemma le_val_le_bytes: "0 \<le> v \<Longrightarrow> v < 256 ^ n \<Longrightarrow> le_val (le_bytes n v) = v"
proof (induction n arbitrary: v)
  case (Suc n)
  have "v div 256 < 256 ^ n" using Suc.prems by (intro div_lt_of_lt_mult) auto
  moreover have "uint (word_of_int (v mod 256) :: byte) = v mod 256"
    by (simp add: uint_word_of_int)
  ultimately show ?case using Suc by simp
qed simp

lemma le_bytes_le_val: "length bs = n \<Longrightarrow> le_bytes n (le_val bs) = bs"
proof (induction bs arbitrary: n)
  case (Cons b bs)
  have "uint b < 256" using uint_lt2p [of b] by simp
  then have "(uint b + 256 * le_val bs) mod 256 = uint b" "(uint b + 256 * le_val bs) div 256 = le_val bs"
    by simp_all
  then show ?case using Cons by auto
qed simp

datatype buffer_error = RangeError

definition read_le :: "nat \<Rightarrow> bytes \<Rightarrow> nat \<Rightarrow> buffer_error + int" where
  \<comment> \<open>\<open>readUInt16LE\<close>, \<open>readBigUInt64LE\<close>: an access outside the buffer throws\<close>
  "read_le n d off = (if off + n \<le> length d then Inr (le_val (take n (drop off d))) else Inl RangeError)"

definition readUInt16LE :: "bytes \<Rightarrow> nat \<Rightarrow> buffer_error + int" where
  "readUInt16LE = read_le 2"

definition readBigUInt64LE :: "bytes \<Rightarrow> nat \<Rightarrow> buffer_error + int" where
  "readBigUInt64LE = read_le 8"

definition readBigInt64LE :: "bytes \<Rightarrow> nat \<Rightarrow> buffer_error + int" where
  "readBigInt64LE d off =
     rbind (read_le 8 d off) (\<lambda>v. Inr (if v < 2 ^ 63 then v else v - 2 ^ 64))"

definition write_le :: "nat \<Rightarrow> int \<Rightarrow> buffer_error + bytes" where
  \<comment> \<open>\<open>writeUInt16LE\<close>, \<open>writeBigUInt64LE\<close>: a value outside the width throws\<close>
  "write_le n v = (if 0 \<le> v \<and> v < 256 ^ n then Inr (le_bytes n v) else Inl RangeError)"

lemma le_val_inject: "le_val a = le_val b \<Longrightarrow> length a = length b \<Longrightarrow> a = b"
  using le_bytes_le_val by metis

lemma le_bytes_inject:
  "0 \<le> a \<Longrightarrow> a < 256 ^ n \<Longrightarrow> 0 \<le> b \<Longrightarrow> b < 256 ^ n \<Longrightarrow> le_bytes n a = le_bytes n b \<longleftrightarrow> a = b"
  using le_val_le_bytes by metis

lemma le_bytes_neq_length:
  "length ys \<noteq> n \<Longrightarrow> (le_bytes n v = ys) = False" "length ys \<noteq> n \<Longrightarrow> (ys = le_bytes n v) = False"
  by auto

lemma pow256 [simp]: "(256::int) ^ 8 = 2 ^ 64" "(256::int) ^ 2 = 2 ^ 16"
  by simp_all

section \<open>Keys, metas, instructions\<close>

type_synonym pubkey = bytes

record account_meta =
  meta_key :: pubkey
  isWritable :: bool
  isSigner :: bool

record instruction =
  programId :: pubkey
  ix_data :: bytes
  ix_keys :: "account_meta list"

text \<open>Accounts as the RPC returns them.\<close>

record account =
  acc_address :: pubkey
  acc_owner :: pubkey
  acc_data :: bytes

text \<open>The functions of the Solana libraries the code calls.\<close>

record web3 =
  findProgramAddressSync :: "bytes list \<Rightarrow> pubkey \<Rightarrow> pubkey"
  toBase58 :: "pubkey \<Rightarrow> string"
  ofBase58 :: "string \<Rightarrow> pubkey"
  associatedTokenAddress :: "pubkey \<Rightarrow> pubkey \<Rightarrow> pubkey \<Rightarrow> pubkey"
    \<comment> \<open>mint, owner, token program\<close>
  isOnCurve :: "pubkey \<Rightarrow> bool"

definition base58_roundtrip :: "web3 \<Rightarrow> bool" where
  \<comment> \<open>documented: parsing an address gives back the key it was printed from\<close>
  "base58_roundtrip w \<longleftrightarrow> (\<forall>k. length k = 32 \<longrightarrow> ofBase58 w (toBase58 w k) = k)"

definition SYSTEM_PROGRAM_ID :: "web3 \<Rightarrow> pubkey" where
  "SYSTEM_PROGRAM_ID w = ofBase58 w ''11111111111111111111111111111111''"

definition TOKEN_PROGRAM_ID :: "web3 \<Rightarrow> pubkey" where
  "TOKEN_PROGRAM_ID w = ofBase58 w ''TokenkegQfeZyiNwAJbNbGKPFXCWuBvf9Ss623VQ5DA''"

definition TOKEN_2022_PROGRAM_ID :: "web3 \<Rightarrow> pubkey" where
  "TOKEN_2022_PROGRAM_ID w = ofBase58 w ''TokenzQdBNbLqP5VEhdkAS6EPFLC1PHnBqCXEpPxuEb''"

definition ASSOCIATED_TOKEN_PROGRAM :: "web3 \<Rightarrow> pubkey" where
  "ASSOCIATED_TOKEN_PROGRAM w = ofBase58 w ''ATokenGPvbdGVxr1b2hvZbsiqW5xWH25efTNsLJA8knL''"

definition INSTRUCTIONS_SYSVAR :: "web3 \<Rightarrow> pubkey" where
  "INSTRUCTIONS_SYSVAR w = ofBase58 w ''Sysvar1nstructions1111111111111111111111111''"

definition USDC_MINT :: "web3 \<Rightarrow> pubkey" where
  "USDC_MINT w = ofBase58 w ''EPjFWdd5AufqSSqeM2qN1xzybapC8G4wEGGkZwyTDt1v''"

definition meta :: "pubkey \<Rightarrow> bool \<Rightarrow> bool \<Rightarrow> account_meta" where
  "meta k w s = \<lparr>meta_key = k, isWritable = w, isSigner = s\<rparr>"

definition signers :: "instruction \<Rightarrow> pubkey set" where
  "signers ix = meta_key ` {m \<in> set (ix_keys ix). isSigner m}"

definition writables :: "instruction \<Rightarrow> pubkey set" where
  "writables ix = meta_key ` {m \<in> set (ix_keys ix). isWritable m}"

text \<open>
  \<open>getAssociatedTokenAddressSync(mint, owner, allowOwnerOffCurve, program)\<close>: the library
  throws on an owner that is not a wallet (a program-derived address) unless it is allowed.
\<close>

definition associated_address :: "web3 \<Rightarrow> 'e \<Rightarrow> pubkey \<Rightarrow> pubkey \<Rightarrow> bool \<Rightarrow> pubkey \<Rightarrow> 'e + pubkey" where
  "associated_address w offCurve mint owner allowOwnerOffCurve program =
     (if allowOwnerOffCurve \<or> isOnCurve w owner then Inr (associatedTokenAddress w mint owner program)
      else Inl offCurve)"

section \<open>Program-derived addresses\<close>

text \<open>
  Every account of the protocol lives at the address derived from a seed list. The
  datatype names them: \<open>pda.ts\<close> first, then \<open>liquidityRevenue.ts\<close>, \<open>tradeTax.ts\<close> and
  \<open>rebalanceSwapInstructions.ts\<close>.
\<close>

datatype pda =
    ProtocolConfig
  | Reserve int
  | ReserveAsset pubkey pubkey
  | ReserveVault pubkey pubkey
  | VaultAuthority pubkey
  | ReserveTokenMint pubkey
  | MintAuthority pubkey
  | Delegate pubkey pubkey
  | ManagerFeeRecipients pubkey
  | TvlAccrual pubkey
  | FeeSettlement pubkey
  | FeeVaultAuthority pubkey
  | SettlementAuthority pubkey
  | SettlementKeeperConfig
  | TransferFeeAuthority
  | LiquidityRevenue pubkey
  | LiquidityTerms pubkey
  | LiquiditySplit pubkey
  | PoolFeedTicket pubkey
  | TradeTax pubkey
  | RebalanceTicket pubkey

fun pda_seeds :: "pda \<Rightarrow> bytes list" where
  "pda_seeds ProtocolConfig = [buffer_of ''protocol_config'']"
| "pda_seeds (Reserve reserveId) = [buffer_of ''reserve'', le_bytes 8 reserveId]"
| "pda_seeds (ReserveAsset reserve assetMint) = [buffer_of ''reserve_asset'', reserve, assetMint]"
| "pda_seeds (ReserveVault reserve assetMint) = [buffer_of ''reserve_vault'', reserve, assetMint]"
| "pda_seeds (VaultAuthority reserve) = [buffer_of ''vault_authority'', reserve]"
| "pda_seeds (ReserveTokenMint reserve) = [buffer_of ''reserve_token_mint'', reserve]"
| "pda_seeds (MintAuthority reserve) = [buffer_of ''mint_authority'', reserve]"
| "pda_seeds (Delegate reserve wallet) = [buffer_of ''delegate'', reserve, wallet]"
| "pda_seeds (ManagerFeeRecipients reserve) = [buffer_of ''manager_fee_recipients'', reserve]"
| "pda_seeds (TvlAccrual reserve) = [buffer_of ''tvl_accrual'', reserve]"
| "pda_seeds (FeeSettlement reserve) = [buffer_of ''fee_settlement'', reserve]"
| "pda_seeds (FeeVaultAuthority reserve) = [buffer_of ''fee_vault_authority'', reserve]"
| "pda_seeds (SettlementAuthority reserve) = [buffer_of ''settlement_authority'', reserve]"
| "pda_seeds SettlementKeeperConfig = [buffer_of ''settlement_keeper_config'']"
| "pda_seeds TransferFeeAuthority = [buffer_of ''transfer_fee_authority'']"
| "pda_seeds (LiquidityRevenue reserve) = [buffer_of ''liquidity_revenue'', reserve]"
| "pda_seeds (LiquidityTerms revenue) = [buffer_of ''liquidity_terms'', revenue]"
| "pda_seeds (LiquiditySplit terms) = [buffer_of ''liquidity_split'', terms]"
| "pda_seeds (PoolFeedTicket reserve) = [buffer_of ''pool_feed_ticket'', reserve]"
| "pda_seeds (TradeTax reserve) = [buffer_of ''trade_tax'', reserve]"
| "pda_seeds (RebalanceTicket reserve) = [buffer_of ''rebalance_ticket'', reserve]"

definition find_pda :: "web3 \<Rightarrow> pda \<Rightarrow> pubkey \<Rightarrow> pubkey" where
  "find_pda w p pid = findProgramAddressSync w (pda_seeds p) pid"

definition findFeeVaultAta :: "web3 \<Rightarrow> pubkey \<Rightarrow> pubkey \<Rightarrow> pubkey \<Rightarrow> pubkey \<Rightarrow> pubkey" where
  "findFeeVaultAta w reserve reserveTokenMint pid reserveTokenProgram =
     associatedTokenAddress w reserveTokenMint (find_pda w (FeeVaultAuthority reserve) pid) reserveTokenProgram"

definition resolveProtocolFeeDestinationTokenAccount ::
  "web3 \<Rightarrow> pubkey \<Rightarrow> pubkey \<Rightarrow> pubkey \<Rightarrow> pubkey \<Rightarrow> pubkey \<Rightarrow> pubkey" where
  "resolveProtocolFeeDestinationTokenAccount w protocolFeeDestination otherWallet reserveTokenMint pid reserveTokenProgram =
     (if protocolFeeDestination = otherWallet then pid
      else associatedTokenAddress w reserveTokenMint protocolFeeDestination reserveTokenProgram)"

end
