(* ===== verification/Liquidity.thy ===== *)
theory Liquidity
  imports Solana
begin

text \<open>
  The secondary-market fee policy: \<open>packages/sdk/src/liquidityRevenue.ts\<close> (project tax,
  creator revenue with carried remainders, the basket feed's linear release, the pool
  share) and \<open>tradeTax.ts\<close>, with the account decoders and instruction builders of both.
  Amounts are bigints; basis points are integers, so \<open>Number.isInteger\<close> holds of them.
\<close>

section \<open>Splits\<close>

datatype liq_error =
    InvalidTax
  | UnsupportedRetention
  | InvalidRemainder
  | InvalidHolderShare
  | InvalidCreatorRevenue
  | InvalidPoolShare
  | NotLiquidityTerms
  | NotLiquiditySplit
  | NotTradeTax
  | AmountOutsideU64
  | InvalidTaxedSwap
  | InvalidPoolFeedAmount
  | InvalidBasketFeedAmount
  | TooManyHarvestSources nat
  | BufferRange
  | BigIntDivisionByZero

definition PROJECT_TAX_MAX_BPS :: int where "PROJECT_TAX_MAX_BPS = 200"
definition SSR_CREATOR_SHARE_BPS :: int where "SSR_CREATOR_SHARE_BPS = 2000"
definition HOLDER_SHARE_MAX_BPS :: int where "HOLDER_SHARE_MAX_BPS = 10000"
definition BASKET_FEED_RELEASE_SECONDS :: int where "BASKET_FEED_RELEASE_SECONDS = 86400"

record tax_split =
  tx_total :: int
  tx_protocol :: int
  tx_creator :: int

definition splitProjectTax :: "int \<Rightarrow> int \<Rightarrow> liq_error + tax_split" where
  "splitProjectTax usdc taxBps =
     (if usdc < 0 \<or> taxBps < 0 \<or> taxBps > PROJECT_TAX_MAX_BPS then Inl InvalidTax
      else let tot = (usdc * taxBps + 9999) sdiv 10000;
               creator = tot * 3 sdiv 4
           in Inr \<lparr>tx_total = tot, tx_protocol = tot - creator, tx_creator = creator\<rparr>)"

record revenue_split =
  rv_protocol :: int
  rv_creator :: int
  rv_remainder :: int

definition splitNativeCreatorRevenue :: "int \<Rightarrow> int \<Rightarrow> int \<Rightarrow> liq_error + revenue_split" where
  "splitNativeCreatorRevenue netUsdc retainedRate carry =
     (if netUsdc < 0 \<or> retainedRate < 0 \<or> retainedRate > 50000 then Inl UnsupportedRetention
      else let denominator = 7500 * (1000000 - retainedRate) in
        if carry < 0 \<or> carry \<ge> denominator then Inl InvalidRemainder
        else let numerator = netUsdc * 500 * 1000000 + carry;
                 protocol = numerator sdiv denominator
             in Inr \<lparr>rv_protocol = protocol, rv_creator = netUsdc - protocol,
                     rv_remainder = numerator smod denominator\<rparr>)"

definition checkHolderShare :: "int \<Rightarrow> liq_error + unit" where
  "checkHolderShare holderShareBps =
     (if holderShareBps < 0 \<or> holderShareBps > HOLDER_SHARE_MAX_BPS then Inl InvalidHolderShare
      else Inr ())"

definition holderPart :: "int \<Rightarrow> int \<Rightarrow> liq_error + int" where
  "holderPart creatorUsdc holderShareBps =
     rbind (checkHolderShare holderShareBps) (\<lambda>_. Inr (creatorUsdc * holderShareBps sdiv 10000))"

record revenue_split_v2 =
  v2_protocol :: int
  v2_creator :: int
  v2_holders :: int
  v2_remainder :: int

definition splitCreatorRevenueV2 :: "int \<Rightarrow> int \<Rightarrow> int \<Rightarrow> liq_error + revenue_split_v2" where
  "splitCreatorRevenueV2 netUsdc holderShareBps carry =
     (if netUsdc < 0 \<or> carry < 0 \<or> carry \<ge> 10000 then Inl InvalidCreatorRevenue
      else let numerator = netUsdc * SSR_CREATOR_SHARE_BPS + carry;
               protocol = numerator sdiv 10000
           in rbind (holderPart (netUsdc - protocol) holderShareBps) (\<lambda>holders.
                Inr \<lparr>v2_protocol = protocol, v2_creator = netUsdc - protocol - holders,
                     v2_holders = holders, v2_remainder = numerator smod 10000\<rparr>))"

record tax_split_v2 =
  t2_total :: int
  t2_protocol :: int
  t2_creator :: int
  t2_holders :: int

definition splitProjectTaxV2 :: "int \<Rightarrow> int \<Rightarrow> int \<Rightarrow> liq_error + tax_split_v2" where
  "splitProjectTaxV2 usdc taxBps holderShareBps =
     (if usdc < 0 \<or> taxBps < 0 \<or> taxBps > PROJECT_TAX_MAX_BPS then Inl InvalidTax
      else let tot = (usdc * taxBps + 9999) sdiv 10000;
               creatorTotal = tot * (10000 - SSR_CREATOR_SHARE_BPS) sdiv 10000
           in rbind (holderPart creatorTotal holderShareBps) (\<lambda>holders.
                Inr \<lparr>t2_total = tot, t2_protocol = tot - creatorTotal,
                     t2_creator = creatorTotal - holders, t2_holders = holders\<rparr>))"

text \<open>\<open>splitTradeTax\<close> returns (protocol, creator, burned).\<close>

definition splitTradeTax :: "int \<Rightarrow> int \<Rightarrow> int \<Rightarrow> int \<Rightarrow> liq_error + int \<times> int \<times> int" where
  "splitTradeTax withheld feeBps protocolBps holderShareBps =
     (if feeBps \<le> protocolBps \<or> withheld = 0 then Inr (withheld, 0, 0)
      else if feeBps = 0 then Inl BigIntDivisionByZero
      else let protocolPart = withheld * protocolBps sdiv feeBps;
               tax = withheld - protocolPart;
               creatorAll = tax * (10000 - SSR_CREATOR_SHARE_BPS) sdiv 10000
           in rbind (holderPart creatorAll holderShareBps) (\<lambda>burned.
                Inr (withheld - creatorAll, creatorAll - burned, burned)))"

section \<open>The basket feed\<close>

text \<open>Anchor account discriminators.\<close>

definition DISC_termsAccount :: bytes where "DISC_termsAccount = [4,203,181,73,116,168,168,255]"
definition DISC_splitAccount :: bytes where "DISC_splitAccount = [105,120,208,91,229,148,37,250]"
definition DISC_tradeTaxAccount :: bytes where "DISC_tradeTaxAccount = [207,216,73,70,44,28,233,84]"

record terms_state =
  lt_reserve :: pubkey
  lt_revenue :: pubkey
  lt_holderShareBps :: int
  lt_locked :: int
  lt_unlocked :: int
  lt_streamEnd :: int
  lt_lastUpdate :: int
  lt_totalFed :: int

definition decodeLiquidityTerms :: "bytes \<Rightarrow> liq_error + terms_state" where
  "decodeLiquidityTerms d =
     (if length d < 115 \<or> subarray d 0 8 \<noteq> DISC_termsAccount then Inl NotLiquidityTerms
      else case (readUInt16LE d 72, readBigUInt64LE d 74, readBigUInt64LE d 82,
                 readBigInt64LE d 90, readBigInt64LE d 98, readBigUInt64LE d 106) of
        (Inr share, Inr lkd, Inr unl, Inr se, Inr lu, Inr fed) \<Rightarrow>
          Inr \<lparr>lt_reserve = subarray d 8 40, lt_revenue = subarray d 40 72, lt_holderShareBps = share,
               lt_locked = lkd, lt_unlocked = unl, lt_streamEnd = se, lt_lastUpdate = lu,
               lt_totalFed = fed\<rparr>
      | _ \<Rightarrow> Inl BufferRange)"

text \<open>
  \<open>releasedBasketFeed\<close> returns (locked, unlocked, streamEnd): first the linear release up
  to \<open>now\<close>, then the reconciliation with the feed's token balance.
\<close>

definition feed_release :: "terms_state \<Rightarrow> int \<Rightarrow> int \<times> int" where
  "feed_release t now =
     (if now > lt_lastUpdate t \<and> lt_locked t > 0 then
        if now \<ge> lt_streamEnd t then (0, lt_unlocked t + lt_locked t)
        else let r = lt_locked t * (now - lt_lastUpdate t) sdiv (lt_streamEnd t - lt_lastUpdate t)
             in (lt_locked t - r, lt_unlocked t + r)
      else (lt_locked t, lt_unlocked t))"

definition releasedBasketFeed :: "terms_state \<Rightarrow> int \<Rightarrow> int \<Rightarrow> int \<times> int \<times> int" where
  "releasedBasketFeed t now feedBalance =
     (case feed_release t now of (lkd, unl) \<Rightarrow>
        let tracked = lkd + unl in
        if feedBalance < tracked then
          let unl' = (if unl < feedBalance then unl else feedBalance);
              rest = feedBalance - unl'
          in (if lkd < rest then lkd else rest, unl', lt_streamEnd t)
        else if feedBalance > tracked then
          (lkd + (feedBalance - tracked), unl, now + BASKET_FEED_RELEASE_SECONDS)
        else (lkd, unl, lt_streamEnd t))"

record split_state =
  ls_terms :: pubkey
  ls_poolShareBps :: int
  ls_poolFed :: int
  ls_lpLocked :: int

definition LIQUIDITY_SPLIT_SIZE :: nat where
  "LIQUIDITY_SPLIT_SIZE = 8+32+2+8+8+1"

definition decodeLiquiditySplit :: "bytes \<Rightarrow> liq_error + split_state" where
  "decodeLiquiditySplit d =
     (if length d < LIQUIDITY_SPLIT_SIZE \<or> subarray d 0 8 \<noteq> DISC_splitAccount
      then Inl NotLiquiditySplit
      else case (readUInt16LE d 40, readBigUInt64LE d 42, readBigUInt64LE d 50) of
        (Inr share, Inr fed, Inr lp) \<Rightarrow>
          Inr \<lparr>ls_terms = subarray d 8 40, ls_poolShareBps = share, ls_poolFed = fed, ls_lpLocked = lp\<rparr>
      | _ \<Rightarrow> Inl BufferRange)"

definition poolFeedRoom :: "split_state \<Rightarrow> int \<Rightarrow> int" where
  "poolFeedRoom split releasedTotal =
     (let cap = releasedTotal * ls_poolShareBps split sdiv 10000 in
      if cap > ls_poolFed split then cap - ls_poolFed split else 0)"

record trade_tax_state =
  tt_reserve :: pubkey
  tt_revenue :: pubkey
  tt_treasury :: pubkey
  tt_taxBps :: int
  tt_protocolBps :: int
  tt_holderShareBps :: int
  tt_totalProtocol :: int
  tt_totalCreator :: int
  tt_totalBurned :: int

definition TRADE_TAX_SIZE :: nat where
  "TRADE_TAX_SIZE = 8 + 32 * 3 + 2 * 3 + 8 * 3 + 1"

definition decodeTradeTax :: "bytes \<Rightarrow> liq_error + trade_tax_state" where
  "decodeTradeTax d =
     (if length d < TRADE_TAX_SIZE \<or> subarray d 0 8 \<noteq> DISC_tradeTaxAccount
      then Inl NotTradeTax
      else case (readUInt16LE d 104, readUInt16LE d 106, readUInt16LE d 108,
                 readBigUInt64LE d 110, readBigUInt64LE d 118, readBigUInt64LE d 126) of
        (Inr tax, Inr pro, Inr hol, Inr tp, Inr tc, Inr tb) \<Rightarrow>
          Inr \<lparr>tt_reserve = subarray d 8 40, tt_revenue = subarray d 40 72,
               tt_treasury = subarray d 72 104, tt_taxBps = tax, tt_protocolBps = pro,
               tt_holderShareBps = hol, tt_totalProtocol = tp, tt_totalCreator = tc,
               tt_totalBurned = tb\<rparr>
      | _ \<Rightarrow> Inl BufferRange)"

definition checkPoolShare :: "int \<Rightarrow> liq_error + unit" where
  "checkPoolShare poolShareBps =
     (if poolShareBps < 1 \<or> poolShareBps > HOLDER_SHARE_MAX_BPS then Inl InvalidPoolShare else Inr ())"

section \<open>Addresses and instructions\<close>

definition findLiquidityRevenue :: "web3 \<Rightarrow> pubkey \<Rightarrow> pubkey \<Rightarrow> pubkey" where
  "findLiquidityRevenue w reserve pid = find_pda w (LiquidityRevenue reserve) pid"

definition findLiquidityTerms :: "web3 \<Rightarrow> pubkey \<Rightarrow> pubkey \<Rightarrow> pubkey" where
  "findLiquidityTerms w reserve pid = find_pda w (LiquidityTerms (findLiquidityRevenue w reserve pid)) pid"

definition findBasketFeed :: "web3 \<Rightarrow> pubkey \<Rightarrow> pubkey \<Rightarrow> pubkey" where
  "findBasketFeed w reserve pid =
     findProgramAddressSync w [findLiquidityTerms w reserve pid, TOKEN_PROGRAM_ID w, USDC_MINT w]
       (ASSOCIATED_TOKEN_PROGRAM w)"

definition findLiquiditySplit :: "web3 \<Rightarrow> pubkey \<Rightarrow> pubkey \<Rightarrow> pubkey" where
  "findLiquiditySplit w reserve pid = find_pda w (LiquiditySplit (findLiquidityTerms w reserve pid)) pid"

definition findPoolFeedTicket :: "web3 \<Rightarrow> pubkey \<Rightarrow> pubkey \<Rightarrow> pubkey" where
  "findPoolFeedTicket w reserve pid = find_pda w (PoolFeedTicket reserve) pid"

definition RAYDIUM_CPMM_PROGRAM :: "web3 \<Rightarrow> pubkey" where
  "RAYDIUM_CPMM_PROGRAM w = ofBase58 w ''CPMMoo8L3F4NbTegBCKVNunggL7H1ZpdTHKxQB5qKP1C''"

definition findPoolLpMint :: "web3 \<Rightarrow> pubkey \<Rightarrow> pubkey" where
  "findPoolLpMint w pool =
     findProgramAddressSync w [buffer_of ''pool_lp_mint'', pool] (RAYDIUM_CPMM_PROGRAM w)"

definition u64 :: "int \<Rightarrow> liq_error + bytes" where
  "u64 v = (if v < 0 \<or> v > 0xffffffffffffffff then Inl AmountOutsideU64 else Inr (le_bytes 8 v))"

definition u16 :: "int \<Rightarrow> liq_error + bytes" where
  "u16 v = (case write_le 2 v of Inl _ \<Rightarrow> Inl BufferRange | Inr b \<Rightarrow> Inr b)"

definition buildConfigureLiquidityRevenueV2 ::
  "web3 \<Rightarrow> pubkey \<Rightarrow> pubkey \<Rightarrow> pubkey \<Rightarrow> pubkey \<Rightarrow> pubkey \<Rightarrow> pubkey \<Rightarrow> pubkey \<Rightarrow> int \<Rightarrow> int \<Rightarrow> int
    \<Rightarrow> liq_error + instruction" where
  "buildConfigureLiquidityRevenueV2 w pid manager protocolConfig reserve pool ammConfig creatorFeeShare
       buyTaxBps sellTaxBps holderShareBps =
     rbind (splitProjectTax 0 buyTaxBps) (\<lambda>_. rbind (splitProjectTax 0 sellTaxBps) (\<lambda>_.
     rbind (checkHolderShare holderShareBps) (\<lambda>_.
     rbind (u16 buyTaxBps) (\<lambda>b. rbind (u16 sellTaxBps) (\<lambda>s. rbind (u16 holderShareBps) (\<lambda>h.
     Inr \<lparr>programId = pid, ix_data = [249,29,142,23,75,103,25,88] @ b @ s @ h,
          ix_keys = [meta manager True True, meta protocolConfig False False, meta reserve False False,
            meta (findLiquidityRevenue w reserve pid) True False,
            meta (findLiquidityTerms w reserve pid) True False,
            meta (findBasketFeed w reserve pid) True False, meta (USDC_MINT w) False False,
            meta pool False False, meta ammConfig False False, meta creatorFeeShare False False,
            meta (TOKEN_PROGRAM_ID w) False False, meta (ASSOCIATED_TOKEN_PROGRAM w) False False,
            meta (SYSTEM_PROGRAM_ID w) False False]\<rparr>))))))"

definition buildSwapWithProjectTaxV2 ::
  "web3 \<Rightarrow> pubkey \<Rightarrow> pubkey \<Rightarrow> pubkey \<Rightarrow> pubkey \<Rightarrow> pubkey \<Rightarrow> pubkey \<Rightarrow> pubkey \<Rightarrow> pubkey
    \<Rightarrow> account_meta list \<Rightarrow> bool \<Rightarrow> int \<Rightarrow> int \<Rightarrow> liq_error + instruction" where
  "buildSwapWithProjectTaxV2 w pid user protocolConfig reserve userUsdc protocolDestination
       creatorDestination raydiumProgram nativeSwapAccounts buy amountIn minimumNetOut =
     (if length nativeSwapAccounts \<noteq> 13 \<or> amountIn \<le> 0 \<or> minimumNetOut \<le> 0 then Inl InvalidTaxedSwap
      else rbind (u64 amountIn) (\<lambda>a. rbind (u64 minimumNetOut) (\<lambda>m.
        Inr \<lparr>programId = pid,
             ix_data = [218,221,123,238,72,114,124,210] @ [if buy then 1 else 0] @ a @ m,
             ix_keys = [meta user False True, meta protocolConfig False False,
               meta (findLiquidityRevenue w reserve pid) False False,
               meta (findLiquidityTerms w reserve pid) True False, meta userUsdc True False,
               meta protocolDestination True False, meta creatorDestination True False,
               meta (findBasketFeed w reserve pid) True False, meta raydiumProgram False False,
               meta (TOKEN_PROGRAM_ID w) False False] @ nativeSwapAccounts\<rparr>)))"

definition buildConfigureLiquiditySplit ::
  "web3 \<Rightarrow> pubkey \<Rightarrow> pubkey \<Rightarrow> pubkey \<Rightarrow> int \<Rightarrow> liq_error + instruction" where
  "buildConfigureLiquiditySplit w pid manager reserve poolShareBps =
     rbind (checkPoolShare poolShareBps) (\<lambda>_. rbind (u16 poolShareBps) (\<lambda>b.
     Inr \<lparr>programId = pid, ix_data = [24,221,195,248,236,149,110,104] @ b,
          ix_keys = [meta manager True True, meta reserve False False,
            meta (findLiquidityRevenue w reserve pid) False False,
            meta (findLiquidityTerms w reserve pid) False False,
            meta (findLiquiditySplit w reserve pid) True False,
            meta (INSTRUCTIONS_SYSVAR w) False False, meta (SYSTEM_PROGRAM_ID w) False False]\<rparr>))"

definition buildPoolFeedBegin ::
  "web3 \<Rightarrow> pubkey \<Rightarrow> pubkey \<Rightarrow> pubkey \<Rightarrow> pubkey \<Rightarrow> pubkey \<Rightarrow> pubkey \<Rightarrow> pubkey \<Rightarrow> pubkey \<Rightarrow> int \<Rightarrow> int
    \<Rightarrow> liq_error + instruction" where
  "buildPoolFeedBegin w pid reserve pool keeper settlementKeeperConfig keeperUsdc keeperReserveToken
       keeperLp amountIn minLp =
     (if amountIn \<le> 0 \<or> minLp \<le> 0 then Inl InvalidPoolFeedAmount
      else rbind (u64 amountIn) (\<lambda>a. rbind (u64 minLp) (\<lambda>m.
        Inr \<lparr>programId = pid, ix_data = [128,76,46,237,37,163,201,233] @ a @ m,
             ix_keys = [meta reserve False False, meta keeper True True,
               meta settlementKeeperConfig False False,
               meta (findLiquidityRevenue w reserve pid) False False,
               meta (findLiquidityTerms w reserve pid) True False,
               meta (findLiquiditySplit w reserve pid) True False,
               meta (findBasketFeed w reserve pid) True False, meta keeperUsdc True False,
               meta keeperReserveToken False False, meta (findPoolLpMint w pool) False False,
               meta keeperLp False False, meta (findPoolFeedTicket w reserve pid) True False,
               meta (INSTRUCTIONS_SYSVAR w) False False, meta (TOKEN_PROGRAM_ID w) False False,
               meta (SYSTEM_PROGRAM_ID w) False False]\<rparr>)))"

definition buildBasketFeedBegin ::
  "web3 \<Rightarrow> pubkey \<Rightarrow> pubkey \<Rightarrow> pubkey \<Rightarrow> pubkey \<Rightarrow> pubkey \<Rightarrow> pubkey \<Rightarrow> pubkey \<Rightarrow> pubkey \<Rightarrow> pubkey \<Rightarrow> pubkey
    \<Rightarrow> int \<Rightarrow> int \<Rightarrow> liq_error + instruction" where
  "buildBasketFeedBegin w pid reserve keeper settlementKeeperConfig keeperUsdc reserveAssetBuy vaultBuy
       mintBuy keeperBuyAccount ticket amountIn minOut =
     (if amountIn \<le> 0 \<or> minOut \<le> 0 then Inl InvalidBasketFeedAmount
      else rbind (u64 amountIn) (\<lambda>a. rbind (u64 minOut) (\<lambda>m.
        Inr \<lparr>programId = pid, ix_data = [139,58,246,245,166,201,101,189] @ a @ m,
             ix_keys = [meta reserve False False, meta keeper True True,
               meta settlementKeeperConfig False False,
               meta (findLiquidityRevenue w reserve pid) False False,
               meta (findLiquidityTerms w reserve pid) True False,
               meta (findBasketFeed w reserve pid) True False, meta keeperUsdc True False,
               meta reserveAssetBuy False False, meta vaultBuy False False, meta mintBuy False False,
               meta keeperBuyAccount False False, meta ticket True False,
               meta (INSTRUCTIONS_SYSVAR w) False False, meta (TOKEN_PROGRAM_ID w) False False,
               meta (SYSTEM_PROGRAM_ID w) False False]\<rparr>)))"

section \<open>Account layouts\<close>

text \<open>
  What the program stores, field by field in the order of its Rust structs
  (\<open>LiquidityTerms\<close>, \<open>LiquiditySplit\<close>, \<open>TradeTax\<close>), after the discriminator and before
  the bump. The decoders of the SDK have to read it back.
\<close>

definition i64_bytes :: "int \<Rightarrow> bytes" where
  "i64_bytes v = le_bytes 8 (v mod 2 ^ 64)"

definition encode_terms :: "terms_state \<Rightarrow> byte \<Rightarrow> bytes" where
  "encode_terms t bump = DISC_termsAccount @ lt_reserve t @ lt_revenue t @
     le_bytes 2 (lt_holderShareBps t) @ le_bytes 8 (lt_locked t) @ le_bytes 8 (lt_unlocked t) @
     i64_bytes (lt_streamEnd t) @ i64_bytes (lt_lastUpdate t) @ le_bytes 8 (lt_totalFed t) @ [bump]"

definition encode_split :: "split_state \<Rightarrow> byte \<Rightarrow> bytes" where
  "encode_split s bump = DISC_splitAccount @ ls_terms s @ le_bytes 2 (ls_poolShareBps s) @
     le_bytes 8 (ls_poolFed s) @ le_bytes 8 (ls_lpLocked s) @ [bump]"

definition encode_trade_tax :: "trade_tax_state \<Rightarrow> byte \<Rightarrow> bytes" where
  "encode_trade_tax t bump = DISC_tradeTaxAccount @ tt_reserve t @ tt_revenue t @ tt_treasury t @
     le_bytes 2 (tt_taxBps t) @ le_bytes 2 (tt_protocolBps t) @ le_bytes 2 (tt_holderShareBps t) @
     le_bytes 8 (tt_totalProtocol t) @ le_bytes 8 (tt_totalCreator t) @ le_bytes 8 (tt_totalBurned t) @ [bump]"

definition is_u16 :: "int \<Rightarrow> bool" where "is_u16 v \<longleftrightarrow> 0 \<le> v \<and> v < 2 ^ 16"
definition is_u64 :: "int \<Rightarrow> bool" where "is_u64 v \<longleftrightarrow> 0 \<le> v \<and> v < 2 ^ 64"
definition is_i64 :: "int \<Rightarrow> bool" where "is_i64 v \<longleftrightarrow> - (2 ^ 63) \<le> v \<and> v < 2 ^ 63"

definition terms_ok :: "terms_state \<Rightarrow> bool" where
  "terms_ok t \<longleftrightarrow> length (lt_reserve t) = 32 \<and> length (lt_revenue t) = 32 \<and> is_u16 (lt_holderShareBps t) \<and>
     is_u64 (lt_locked t) \<and> is_u64 (lt_unlocked t) \<and> is_i64 (lt_streamEnd t) \<and> is_i64 (lt_lastUpdate t) \<and>
     is_u64 (lt_totalFed t)"

definition split_ok :: "split_state \<Rightarrow> bool" where
  "split_ok s \<longleftrightarrow> length (ls_terms s) = 32 \<and> is_u16 (ls_poolShareBps s) \<and> is_u64 (ls_poolFed s) \<and>
     is_u64 (ls_lpLocked s)"

definition trade_tax_ok :: "trade_tax_state \<Rightarrow> bool" where
  "trade_tax_ok t \<longleftrightarrow> length (tt_reserve t) = 32 \<and> length (tt_revenue t) = 32 \<and> length (tt_treasury t) = 32 \<and>
     is_u16 (tt_taxBps t) \<and> is_u16 (tt_protocolBps t) \<and> is_u16 (tt_holderShareBps t) \<and>
     is_u64 (tt_totalProtocol t) \<and> is_u64 (tt_totalCreator t) \<and> is_u64 (tt_totalBurned t)"

named_theorems layout \<comment> \<open>reading back a concatenation of fixed-width fields\<close>

lemma read_le_skip [layout]:
  "length a \<le> off \<Longrightarrow> read_le n (a @ b) off = read_le n b (off - length a)"
  by (simp add: read_le_def) (auto simp: algebra_simps)

lemma read_le_here [layout]: "0 \<le> v \<Longrightarrow> v < 256 ^ n \<Longrightarrow> read_le n (le_bytes n v @ b) 0 = Inr v"
  by (simp add: read_le_def le_val_le_bytes)

lemma subarray_skip [layout]:
  "length a \<le> i \<Longrightarrow> subarray (a @ b) i j = subarray b (i - length a) (j - length a)"
  by (simp add: subarray_def)

lemma subarray_here [layout]: "length a = j \<Longrightarrow> subarray (a @ b) 0 j = a"
  by (simp add: subarray_def)

lemma length_DISC [simp]: "length DISC_termsAccount = 8" "length DISC_splitAccount = 8"
  "length DISC_tradeTaxAccount = 8"
  by (simp_all add: DISC_termsAccount_def DISC_splitAccount_def DISC_tradeTaxAccount_def)

lemma length_i64_bytes [simp]: "length (i64_bytes v) = 8"
  by (simp add: i64_bytes_def)

lemma read_i64_here [layout]:
  assumes "is_i64 v"
  shows "readBigInt64LE (i64_bytes v @ b) 0 = Inr v"
proof -
  have "read_le 8 (i64_bytes v @ b) 0 = Inr (v mod 2 ^ 64)"
    unfolding i64_bytes_def by (rule read_le_here) auto
  moreover have "v mod 2 ^ 64 = (if 0 \<le> v then v else v + 2 ^ 64)"
    using assms mod_add_self2 [of v "2 ^ 64"] by (auto simp: is_i64_def simp del: mod_add_self2)
  ultimately show ?thesis using assms by (auto simp: readBigInt64LE_def is_i64_def)
qed

lemma read_i64_skip [layout]:
  "length a \<le> off \<Longrightarrow> readBigInt64LE (a @ b) off = readBigInt64LE b (off - length a)"
  by (simp add: readBigInt64LE_def read_le_skip)

text \<open>
  An account layout: the decoder reads back every well-formed state, also from an
  account longer than the struct (an Anchor account may be padded).
\<close>

locale account_layout =
  fixes decode :: "bytes \<Rightarrow> liq_error + 'a"
    and encode :: "'a \<Rightarrow> byte \<Rightarrow> bytes"
    and ok :: "'a \<Rightarrow> bool"
  assumes decode_encode: "ok x \<Longrightarrow> decode (encode x bump @ extra) = Inr x"
begin

lemma decode_exact: "ok x \<Longrightarrow> decode (encode x bump) = Inr x"
  using decode_encode [of x bump "[]"] by simp

lemma encode_inject: "ok x \<Longrightarrow> ok y \<Longrightarrow> encode x b @ e = encode y c @ f \<Longrightarrow> x = y"
  using decode_encode by (metis sum.inject(2))

end

lemmas read_defs = readUInt16LE_def readBigUInt64LE_def

interpretation terms: account_layout decodeLiquidityTerms encode_terms terms_ok
  by unfold_locales
    (simp add: terms_ok_def is_u16_def is_u64_def decodeLiquidityTerms_def encode_terms_def
      read_defs layout)

interpretation pool_split: account_layout decodeLiquiditySplit encode_split split_ok
  by unfold_locales
    (simp add: split_ok_def is_u16_def is_u64_def decodeLiquiditySplit_def encode_split_def
      LIQUIDITY_SPLIT_SIZE_def read_defs layout)

interpretation trade_tax: account_layout decodeTradeTax encode_trade_tax trade_tax_ok
  by unfold_locales
    (simp add: trade_tax_ok_def is_u16_def is_u64_def decodeTradeTax_def encode_trade_tax_def
      TRADE_TAX_SIZE_def read_defs layout)

section \<open>Carried remainders\<close>

text \<open>
  Both creator-revenue splits keep the remainder of their division and add it to the
  next payment. \<open>carry_run\<close> is a history of payments; the locale is what such a split
  promises, and its lemma says that the Protocol never gains or loses a unit over the
  whole history.
\<close>

fun carry_run :: "(int \<Rightarrow> int \<Rightarrow> 'e + int \<times> int) \<Rightarrow> int list \<Rightarrow> int \<Rightarrow> 'e + int \<times> int" where
  "carry_run step [] carry = Inr (0, carry)"
| "carry_run step (net # nets) carry =
     rbind (step net carry) (\<lambda>(protocol, carry').
       rbind (carry_run step nets carry') (\<lambda>(rest, carry''). Inr (protocol + rest, carry'')))"

locale carry_split =
  fixes dom :: "'r \<Rightarrow> bool"
    and num den :: "'r \<Rightarrow> int"
    and step :: "'r \<Rightarrow> int \<Rightarrow> int \<Rightarrow> 'e + int \<times> int"
  assumes num_nonneg: "dom r \<Longrightarrow> 0 \<le> num r"
    and den_pos: "dom r \<Longrightarrow> 0 < den r"
    and step_eq: "dom r \<Longrightarrow> 0 \<le> net \<Longrightarrow> 0 \<le> carry \<Longrightarrow> carry < den r \<Longrightarrow>
      step r net carry = Inr ((net * num r + carry) div den r, (net * num r + carry) mod den r)"
begin

lemma carry_run_exact:
  assumes "dom r" "\<forall>n \<in> set nets. 0 \<le> n" "0 \<le> carry" "carry < den r"
  shows "carry_run (step r) nets carry =
    Inr ((sum_list nets * num r + carry) div den r, (sum_list nets * num r + carry) mod den r)"
  using assms(2-4)
proof (induction nets arbitrary: carry)
  case Nil
  then show ?case by simp
next
  case (Cons net nets)
  define c where "c = (net * num r + carry) mod den r"
  define p where "p = (net * num r + carry) div den r"
  have c: "0 \<le> c" "c < den r" using den_pos [OF assms(1)] by (simp_all add: c_def)
  have split: "net * num r + carry = p * den r + c" by (simp add: p_def c_def)
  have "(net + sum_list nets) * num r + carry = (sum_list nets * num r + c) + p * den r"
    using split by (simp add: algebra_simps)
  then have "((net + sum_list nets) * num r + carry) div den r = p + (sum_list nets * num r + c) div den r"
    and "((net + sum_list nets) * num r + carry) mod den r = (sum_list nets * num r + c) mod den r"
    using den_pos [OF assms(1)] by simp_all
  moreover have "step r net carry = Inr (p, c)"
    using step_eq [OF assms(1), of net carry] Cons.prems by (simp add: p_def c_def)
  moreover have "carry_run (step r) nets c =
      Inr ((sum_list nets * num r + c) div den r, (sum_list nets * num r + c) mod den r)"
    by (rule Cons.IH) (use Cons.prems c in auto)
  ultimately show ?case by simp
qed

end

definition native_step :: "int \<Rightarrow> int \<Rightarrow> int \<Rightarrow> liq_error + int \<times> int" where
  "native_step retainedRate net carry =
     rbind (splitNativeCreatorRevenue net retainedRate carry) (\<lambda>s. Inr (rv_protocol s, rv_remainder s))"

definition v2_step :: "int \<Rightarrow> int \<Rightarrow> int \<Rightarrow> liq_error + int \<times> int" where
  "v2_step holderShareBps net carry =
     rbind (splitCreatorRevenueV2 net holderShareBps carry) (\<lambda>s. Inr (v2_protocol s, v2_remainder s))"

lemma holderPart_eq:
  "0 \<le> h \<Longrightarrow> h \<le> 10000 \<Longrightarrow> 0 \<le> c \<Longrightarrow> holderPart c h = Inr (c * h div 10000)"
  by (simp add: holderPart_def checkHolderShare_def HOLDER_SHARE_MAX_BPS_def sdiv_nonneg_eq)

lemma holderPart_Inr_iff:
  "holderPart c h = Inr x \<longleftrightarrow> 0 \<le> h \<and> h \<le> 10000 \<and> x = c * h sdiv 10000"
  by (auto simp: holderPart_def checkHolderShare_def HOLDER_SHARE_MAX_BPS_def)

lemma part_le: "0 \<le> h \<Longrightarrow> h \<le> 10000 \<Longrightarrow> 0 \<le> c \<Longrightarrow> 0 \<le> c * h div 10000 \<and> c * h div 10000 \<le> (c::int)"
proof -
  assume "0 \<le> h" "h \<le> 10000" "0 \<le> c"
  then have "c * h \<le> c * 10000" by (intro mult_left_mono)
  then have "c * h div 10000 \<le> c" by (intro div_le_of_le_mult) (auto simp: mult.commute)
  moreover have "0 \<le> c * h" using \<open>0 \<le> h\<close> \<open>0 \<le> c\<close> by simp
  ultimately show ?thesis by (simp add: pos_imp_zdiv_nonneg_iff)
qed

lemma v2_protocol_le: "0 \<le> n \<Longrightarrow> 0 \<le> c \<Longrightarrow> c < 10000 \<Longrightarrow> (n * 2000 + c) div 10000 \<le> (n::int)"
  by (cases "n = 0") (auto intro: div_le_of_le_mult)

interpretation native: carry_split "\<lambda>r. 0 \<le> r \<and> r \<le> 50000" "\<lambda>r. 500000000"
  "\<lambda>r. 7500 * (1000000 - r)" native_step
proof
  fix r net carry :: int
  assume r: "0 \<le> r \<and> r \<le> 50000" and "0 \<le> net" "0 \<le> carry" "carry < 7500 * (1000000 - r)"
  moreover have "0 \<le> net * 500000000 + carry" using \<open>0 \<le> net\<close> \<open>0 \<le> carry\<close> by simp
  moreover have "0 < 7500 * (1000000 - r)" using r by simp
  ultimately show "native_step r net carry = Inr ((net * 500000000 + carry) div (7500 * (1000000 - r)),
      (net * 500000000 + carry) mod (7500 * (1000000 - r)))"
    by (simp add: native_step_def splitNativeCreatorRevenue_def Let_def sdiv_nonneg_eq smod_nonneg_eq
        mult.commute [of net])
qed auto

interpretation v2: carry_split "\<lambda>h. 0 \<le> h \<and> h \<le> 10000" "\<lambda>h. 2000" "\<lambda>h. 10000" v2_step
proof
  fix h net carry :: int
  assume h: "0 \<le> h \<and> h \<le> 10000" and nc: "0 \<le> net" "0 \<le> carry" "carry < 10000"
  have "0 \<le> net * 2000 + carry" using nc by simp
  moreover have "0 \<le> net - (net * 2000 + carry) div 10000" using v2_protocol_le [of net carry] nc by simp
  ultimately show "v2_step h net carry =
      Inr ((net * 2000 + carry) div 10000, (net * 2000 + carry) mod 10000)"
    using h nc by (simp add: v2_step_def splitCreatorRevenueV2_def SSR_CREATOR_SHARE_BPS_def Let_def
        sdiv_nonneg_eq smod_nonneg_eq holderPart_eq)
qed auto

section \<open>Properties\<close>



text \<open>
  A v2 distribution conserves what arrived: Protocol, creator and holders get
  amounts that are not negative and add up to the net collection, the carry stays below
  one unit, and nothing is lost between carry in and carry out.
\<close>

theorem split_creator_revenue_v2_conserves:
  assumes "splitCreatorRevenueV2 net share carry = Inr s"
  shows "v2_protocol s + v2_creator s + v2_holders s = net \<and>
    0 \<le> v2_protocol s \<and> 0 \<le> v2_creator s \<and> 0 \<le> v2_holders s \<and>
    0 \<le> v2_remainder s \<and> v2_remainder s < 10000 \<and>
    10000 * v2_protocol s + v2_remainder s = 2000 * net + carry \<and>
    v2_holders s = (net - v2_protocol s) * share div 10000"
proof -
  define p where "p = (net * 2000 + carry) div 10000"
  from assms have nc: "0 \<le> net" "0 \<le> carry" "carry < 10000"
    by (auto simp: splitCreatorRevenueV2_def split: if_splits)
  then have num: "(net * 2000 + carry) sdiv 10000 = p" "(net * 2000 + carry) smod 10000 = (net * 2000 + carry) mod 10000"
    by (simp_all add: p_def sdiv_nonneg_eq smod_nonneg_eq)
  have p: "0 \<le> p" "p \<le> net"
    using nc v2_protocol_le [of net carry] by (simp_all add: p_def pos_imp_zdiv_nonneg_iff)
  from assms nc obtain h where share: "0 \<le> share" "share \<le> 10000"
    and h: "h = (net - p) * share sdiv 10000"
    and s: "s = \<lparr>v2_protocol = p, v2_creator = net - p - h, v2_holders = h,
        v2_remainder = (net * 2000 + carry) mod 10000\<rparr>"
    by (auto simp: splitCreatorRevenueV2_def SSR_CREATOR_SHARE_BPS_def Let_def num res_iff holderPart_Inr_iff)
  have "h = (net - p) * share div 10000" unfolding h using p share by (intro sdiv_nonneg_eq) auto
  moreover have "10000 * p + (net * 2000 + carry) mod 10000 = 2000 * net + carry"
    unfolding p_def by (simp add: mult.commute)
  ultimately show ?thesis using p part_le [OF share, of "net - p"] by (auto simp: s)
qed

theorem split_creator_revenue_v2_conserves_witness:
  "(20::int) + 40 + 40 = 100"
  using split_creator_revenue_v2_conserves [of 100 5000 0
      "\<lparr>v2_protocol = 20, v2_creator = 40, v2_holders = 40, v2_remainder = 0\<rparr>"]
  by (simp add: splitCreatorRevenueV2_def SSR_CREATOR_SHARE_BPS_def holderPart_def checkHolderShare_def
      HOLDER_SHARE_MAX_BPS_def signed_divide_int_def signed_modulo_int_def)

lemma project_tax_parts:
  assumes "splitProjectTaxV2 usdc tax share = Inr s"
  shows "t2_protocol s + t2_creator s + t2_holders s = t2_total s \<and>
    t2_total s = (usdc * tax + 9999) div 10000 \<and> t2_total s \<le> usdc \<and>
    0 \<le> t2_creator s \<and> 0 \<le> t2_holders s \<and> t2_total s * 2000 \<le> t2_protocol s * 10000"
proof -
  define T where "T = (usdc * tax + 9999) div 10000"
  from assms have u: "0 \<le> usdc" "0 \<le> tax" "tax \<le> 200"
    by (auto simp: splitProjectTaxV2_def PROJECT_TAX_MAX_BPS_def split: if_splits)
  have T0: "0 \<le> T" unfolding T_def using u by (simp add: pos_imp_zdiv_nonneg_iff)
  have "usdc * tax \<le> usdc * 200" using u by (intro mult_left_mono)
  then have "usdc * tax + 9999 < 10000 * (usdc + 1)" using u by simp
  then have Tle: "T \<le> usdc" unfolding T_def
    using div_lt_of_lt_mult [of 10000 "usdc * tax + 9999" "usdc + 1"] by simp
  have eqs: "(usdc * tax + 9999) sdiv 10000 = T" "T * 8000 sdiv 10000 = T * 8000 div 10000"
    using u T0 by (simp_all add: T_def sdiv_nonneg_eq)
  define C where "C = T * 8000 div 10000"
  have C: "0 \<le> C" "C * 10000 \<le> T * 8000"
    using T0 mult_div_le_int [of 10000 "T * 8000"] by (simp_all add: C_def pos_imp_zdiv_nonneg_iff)
  from assms u have share: "0 \<le> share" "share \<le> 10000"
    and s: "s = \<lparr>t2_total = T, t2_protocol = T - C, t2_creator = C - C * share sdiv 10000,
        t2_holders = C * share sdiv 10000\<rparr>"
    by (auto simp: splitProjectTaxV2_def SSR_CREATOR_SHARE_BPS_def Let_def eqs C_def res_iff
        holderPart_Inr_iff split: if_splits)
  have hold: "C * share sdiv 10000 = C * share div 10000" using C share by (intro sdiv_nonneg_eq) auto
  show ?thesis
    using Tle T0 C part_le [OF share C(1)] by (auto simp: s T_def [symmetric] hold)
qed

lemma trade_tax_parts:
  assumes "splitTradeTax withheld fee pfee share = Inr (protocol, creator, burned)"
    and "0 \<le> withheld" "0 \<le> pfee"
  shows "protocol + creator + burned = withheld \<and> 0 \<le> creator \<and> 0 \<le> burned \<and>
    withheld * 2000 \<le> protocol * 10000 \<and> (fee \<le> pfee \<longrightarrow> protocol = withheld)"
proof (cases "fee \<le> pfee \<or> withheld = 0")
  case True
  then show ?thesis using assms(1,2) by (auto simp: splitTradeTax_def)
next
  case False
  define A where "A = (withheld - withheld * pfee sdiv fee) * 8000 sdiv 10000"
  have fee: "0 < fee" using False assms(3) by simp
  have "withheld * pfee \<le> fee * withheld"
    using False assms(2) by (subst mult.commute) (intro mult_right_mono; simp)
  then have pp: "0 \<le> withheld * pfee sdiv fee" "withheld * pfee sdiv fee \<le> withheld"
    using assms(2,3) fee by (simp_all add: sdiv_nonneg_eq pos_imp_zdiv_nonneg_iff div_le_of_le_mult)
  then have A: "A = (withheld - withheld * pfee sdiv fee) * 8000 div 10000"
    unfolding A_def by (intro sdiv_nonneg_eq) auto
  have A0: "0 \<le> A" using pp unfolding A by (simp add: pos_imp_zdiv_nonneg_iff)
  have "10000 * A \<le> (withheld - withheld * pfee sdiv fee) * 8000" unfolding A by (rule mult_div_le_int) simp
  then have A1: "10000 * A \<le> withheld * 8000" using pp by simp
  from assms(1) False fee have share: "0 \<le> share" "share \<le> 10000"
    and "protocol = withheld - A" "creator = A - A * share sdiv 10000" "burned = A * share sdiv 10000"
    by (auto simp: splitTradeTax_def SSR_CREATOR_SHARE_BPS_def Let_def A_def [symmetric] res_iff
        holderPart_Inr_iff simp del: left_diff_distrib_numeral split: if_splits)
  moreover have "A * share sdiv 10000 = A * share div 10000" using A0 share by (intro sdiv_nonneg_eq) auto
  ultimately show ?thesis using part_le [OF share A0] A1 False by auto
qed

text \<open>
  The project tax is the rate rounded up and never exceeds the trade; its three
  parts are not negative and add up to it, and the Protocol gets at least its 20%. The
  trade tax withheld by the token splits the same way.
\<close>

theorem tax_splits_conserve:
  assumes "splitProjectTaxV2 usdc tax share = Inr s"
    and "splitTradeTax withheld fee pfee share = Inr (protocol, creator, burned)"
    and "0 \<le> withheld" "0 \<le> pfee"
  shows "t2_protocol s + t2_creator s + t2_holders s = t2_total s \<and>
    t2_total s = (usdc * tax + 9999) div 10000 \<and> t2_total s \<le> usdc \<and>
    0 \<le> t2_creator s \<and> 0 \<le> t2_holders s \<and> t2_total s * 2000 \<le> t2_protocol s * 10000 \<and>
    protocol + creator + burned = withheld \<and> 0 \<le> creator \<and> 0 \<le> burned \<and>
    withheld * 2000 \<le> protocol * 10000 \<and> (fee \<le> pfee \<longrightarrow> protocol = withheld)"
  using project_tax_parts [OF assms(1)] trade_tax_parts [OF assms(2-4)] by blast

theorem tax_splits_conserve_witness:
  "\<exists>s. splitProjectTaxV2 1000000 100 5000 = Inr s \<and>
     t2_protocol s + t2_creator s + t2_holders s = t2_total s \<and> (26::int) + 37 + 37 = 100"
  using tax_splits_conserve [of 1000000 100 5000
      "\<lparr>t2_total = 10000, t2_protocol = 2000, t2_creator = 4000, t2_holders = 4000\<rparr>" 100 215 15 26 37 37]
  by (simp add: splitProjectTaxV2_def splitTradeTax_def SSR_CREATOR_SHARE_BPS_def holderPart_def
      checkHolderShare_def HOLDER_SHARE_MAX_BPS_def PROJECT_TAX_MAX_BPS_def signed_divide_int_def)

lemma feed_release_parts:
  assumes "0 \<le> lt_locked t" "0 \<le> lt_unlocked t" "feed_release t now = (l, u)"
  shows "l + u = lt_locked t + lt_unlocked t" "0 \<le> l" "lt_unlocked t \<le> u"
proof -
  have part: "0 \<le> lt_locked t * (now - lt_lastUpdate t) sdiv (lt_streamEnd t - lt_lastUpdate t) \<and>
    lt_locked t * (now - lt_lastUpdate t) sdiv (lt_streamEnd t - lt_lastUpdate t) \<le> lt_locked t"
    if "lt_lastUpdate t < now" "now < lt_streamEnd t"
  proof -
    have "lt_locked t * (now - lt_lastUpdate t) \<le> lt_locked t * (lt_streamEnd t - lt_lastUpdate t)"
      using that assms(1) by (intro mult_left_mono) auto
    moreover have "0 \<le> lt_locked t * (now - lt_lastUpdate t)" using that assms(1) by simp
    ultimately show ?thesis using that
      by (simp add: sdiv_nonneg_eq pos_imp_zdiv_nonneg_iff div_le_of_le_mult mult.commute)
  qed
  show "l + u = lt_locked t + lt_unlocked t" "0 \<le> l" "lt_unlocked t \<le> u"
    using assms part by (auto simp: feed_release_def Let_def split: if_splits)
qed


definition demo_terms :: terms_state where
  "demo_terms = \<lparr>lt_reserve = replicate 32 1, lt_revenue = replicate 32 2, lt_holderShareBps = 5000,
     lt_locked = 100, lt_unlocked = 7, lt_streamEnd = 1100, lt_lastUpdate = 1000, lt_totalFed = 900\<rparr>"


text \<open>
  C29: Reading an account returns what the program stored: for every well-formed state of
  the three accounts, with any bump byte and any padding after it, the decoder returns
  that state; and it never accepts an account whose discriminator is another's.
\<close>

theorem liquidity_accounts_roundtrip:
  assumes "terms_ok t" "split_ok s" "trade_tax_ok x"
  shows "decodeLiquidityTerms (encode_terms t bump @ extra) = Inr t \<and>
    decodeLiquiditySplit (encode_split s bump @ extra) = Inr s \<and>
    decodeTradeTax (encode_trade_tax x bump @ extra) = Inr x \<and>
    decodeLiquidityTerms (encode_trade_tax x bump @ extra) = Inl NotLiquidityTerms \<and>
    decodeTradeTax (encode_terms t bump @ extra) = Inl NotTradeTax \<and>
    decodeLiquiditySplit (encode_terms t bump @ extra) = Inl NotLiquiditySplit"
proof -
  have "subarray (encode_trade_tax x bump @ extra) 0 8 = DISC_tradeTaxAccount"
    "subarray (encode_terms t bump @ extra) 0 8 = DISC_termsAccount"
    by (simp_all add: encode_trade_tax_def encode_terms_def layout)
  then have "decodeLiquidityTerms (encode_trade_tax x bump @ extra) = Inl NotLiquidityTerms"
    "decodeTradeTax (encode_terms t bump @ extra) = Inl NotTradeTax"
    "decodeLiquiditySplit (encode_terms t bump @ extra) = Inl NotLiquiditySplit"
    by (simp_all add: decodeLiquidityTerms_def decodeTradeTax_def decodeLiquiditySplit_def
        DISC_termsAccount_def DISC_tradeTaxAccount_def DISC_splitAccount_def)
  then show ?thesis
    using terms.decode_encode [OF assms(1)] pool_split.decode_encode [OF assms(2)]
      trade_tax.decode_encode [OF assms(3)] by (intro conjI)
qed

definition demo_split :: split_state where
  "demo_split = \<lparr>ls_terms = replicate 32 3, ls_poolShareBps = 2500, ls_poolFed = 10, ls_lpLocked = 4\<rparr>"

definition demo_trade_tax :: trade_tax_state where
  "demo_trade_tax = \<lparr>tt_reserve = replicate 32 1, tt_revenue = replicate 32 2, tt_treasury = replicate 32 3,
     tt_taxBps = 200, tt_protocolBps = 15, tt_holderShareBps = 5000, tt_totalProtocol = 1,
     tt_totalCreator = 2, tt_totalBurned = 3\<rparr>"

theorem liquidity_accounts_roundtrip_witness:
  "decodeLiquidityTerms (encode_terms demo_terms 255 @ []) = Inr demo_terms"
proof -
  have "terms_ok demo_terms" "split_ok demo_split" "trade_tax_ok demo_trade_tax"
    by (simp_all add: terms_ok_def split_ok_def trade_tax_ok_def demo_terms_def demo_split_def
        demo_trade_tax_def is_u16_def is_u64_def is_i64_def)
  then show ?thesis
    using liquidity_accounts_roundtrip [of demo_terms demo_split demo_trade_tax 255 "[]"] by blast
qed

lemma buildPoolFeedBegin_shape:
  assumes "buildPoolFeedBegin w pid reserve pool keeper cfg usdc tok lp amount minimum = Inr ix"
  shows "0 < amount" "0 < minimum" "amount < 2 ^ 64" "minimum < 2 ^ 64" "programId ix = pid"
    "ix_data ix = [128,76,46,237,37,163,201,233] @ le_bytes 8 amount @ le_bytes 8 minimum"
    "map meta_key (filter isSigner (ix_keys ix)) = [keeper]"
  using assms by (auto simp: buildPoolFeedBegin_def u64_def meta_def res_iff split: if_splits)

lemma buildBasketFeedBegin_shape:
  assumes "buildBasketFeedBegin w pid reserve keeper cfg usdc ra vault mintBuy acct ticket amount minimum = Inr ix"
  shows "0 < amount" "0 < minimum" "amount < 2 ^ 64" "minimum < 2 ^ 64" "programId ix = pid"
    "ix_data ix = [139,58,246,245,166,201,101,189] @ le_bytes 8 amount @ le_bytes 8 minimum"
    "map meta_key (filter isSigner (ix_keys ix)) = [keeper]"
  using assms by (auto simp: buildBasketFeedBegin_def u64_def meta_def res_iff split: if_splits)

lemma two_u64_fields:
  assumes "length d = 8" "0 < a" "a < 2 ^ 64" "0 < b" "b < 2 ^ 64"
  shows "readBigUInt64LE (d @ le_bytes 8 a @ le_bytes 8 b) 8 = Inr a"
    "readBigUInt64LE (d @ le_bytes 8 a @ le_bytes 8 b) 16 = Inr b"
  using assms read_le_here [of b 8 "[]"] by (simp_all add: readBigUInt64LE_def layout)

text \<open>
  The keeper's begin instructions carry the amounts they were asked for and nothing
  else: both amounts are positive u64 values written after the discriminator, where the
  program reads them back, and the keeper is the only signer.
\<close>

theorem feed_begin_instructions_sound:
  assumes "buildPoolFeedBegin w pid reserve pool keeper cfg usdc tok lp amount minimum = Inr ix \<or>
      buildBasketFeedBegin w pid reserve keeper cfg usdc ra vault mintBuy acct ticket amount minimum = Inr ix"
  shows "0 < amount \<and> 0 < minimum \<and> length (ix_data ix) = 24 \<and>
    readBigUInt64LE (ix_data ix) 8 = Inr amount \<and> readBigUInt64LE (ix_data ix) 16 = Inr minimum \<and>
    map meta_key (filter isSigner (ix_keys ix)) = [keeper] \<and> programId ix = pid"
  using assms
proof (elim disjE)
  assume "buildPoolFeedBegin w pid reserve pool keeper cfg usdc tok lp amount minimum = Inr ix"
  note b = buildPoolFeedBegin_shape [OF this]
  then show ?thesis using two_u64_fields [OF _ b(1,3) b(2,4), of "[128,76,46,237,37,163,201,233]"] by simp
next
  assume "buildBasketFeedBegin w pid reserve keeper cfg usdc ra vault mintBuy acct ticket amount minimum = Inr ix"
  note b = buildBasketFeedBegin_shape [OF this]
  then show ?thesis using two_u64_fields [OF _ b(1,3) b(2,4), of "[139,58,246,245,166,201,101,189]"] by simp
qed

theorem feed_begin_instructions_sound_witness:
  "\<forall>w. \<exists>ix. buildPoolFeedBegin w [1] [2] [3] [4] [5] [6] [7] [8] 500 9 = Inr ix \<and>
     readBigUInt64LE (ix_data ix) 8 = Inr 500"
proof
  fix w :: web3
  have "\<exists>ix. buildPoolFeedBegin w [1] [2] [3] [4] [5] [6] [7] [8] 500 9 = Inr ix"
    by (simp add: buildPoolFeedBegin_def u64_def)
  then obtain ix where "buildPoolFeedBegin w [1] [2] [3] [4] [5] [6] [7] [8] 500 9 = Inr ix" ..
  then show "\<exists>ix. buildPoolFeedBegin w [1] [2] [3] [4] [5] [6] [7] [8] 500 9 = Inr ix \<and>
     readBigUInt64LE (ix_data ix) 8 = Inr 500"
    using feed_begin_instructions_sound by blast
qed

end
