(* ===== verification/Pda_Safety.thy ===== *)
theory Pda_Safety
  imports Solana
begin

text \<open>
  The seed lists of \<open>packages/sdk/src/pda.ts\<close> (and of the liquidity modules) keep the
  accounts of the protocol apart.
\<close>

fun pda_wf :: "pda \<Rightarrow> bool" where
  "pda_wf (Reserve i) \<longleftrightarrow> 0 \<le> i \<and> i < 2 ^ 64"
| "pda_wf (ReserveAsset a b) \<longleftrightarrow> length a = 32 \<and> length b = 32"
| "pda_wf (ReserveVault a b) \<longleftrightarrow> length a = 32 \<and> length b = 32"
| "pda_wf (Delegate a b) \<longleftrightarrow> length a = 32 \<and> length b = 32"
| "pda_wf (VaultAuthority a) \<longleftrightarrow> length a = 32"
| "pda_wf (ReserveTokenMint a) \<longleftrightarrow> length a = 32"
| "pda_wf (MintAuthority a) \<longleftrightarrow> length a = 32"
| "pda_wf (ManagerFeeRecipients a) \<longleftrightarrow> length a = 32"
| "pda_wf (TvlAccrual a) \<longleftrightarrow> length a = 32"
| "pda_wf (FeeSettlement a) \<longleftrightarrow> length a = 32"
| "pda_wf (FeeVaultAuthority a) \<longleftrightarrow> length a = 32"
| "pda_wf (SettlementAuthority a) \<longleftrightarrow> length a = 32"
| "pda_wf (LiquidityRevenue a) \<longleftrightarrow> length a = 32"
| "pda_wf (LiquidityTerms a) \<longleftrightarrow> length a = 32"
| "pda_wf (LiquiditySplit a) \<longleftrightarrow> length a = 32"
| "pda_wf (PoolFeedTicket a) \<longleftrightarrow> length a = 32"
| "pda_wf (TradeTax a) \<longleftrightarrow> length a = 32"
| "pda_wf (RebalanceTicket a) \<longleftrightarrow> length a = 32"
| "pda_wf _ \<longleftrightarrow> True"

text \<open>
  The Solana runtime hashes the \<^emph>\<open>concatenation\<close> of the seeds, so two seed lists with
  the same concatenation would share an address. \<open>seed_material\<close> is what is hashed.
\<close>

definition seed_material :: "pda \<Rightarrow> bytes" where
  "seed_material p = concat (pda_seeds p)"

lemma seed_material_inject:
  assumes "pda_wf p" "pda_wf q" "seed_material p = seed_material q"
  shows "p = q"
proof -
  have len: "length (seed_material p) = length (seed_material q)" using assms(3) by simp
  show ?thesis
    using assms len
    by (cases p; cases q)
      (simp_all add: seed_material_def buffer_of_def le_bytes_inject le_bytes_neq_length)
qed

text \<open>
  Documented of \<open>findProgramAddressSync\<close>: it is a collision-resistant hash of the seed
  material and the program id.
\<close>

definition collision_free :: "web3 \<Rightarrow> pubkey \<Rightarrow> bool" where
  "collision_free w pid \<longleftrightarrow>
     (\<forall>s s'. findProgramAddressSync w s pid = findProgramAddressSync w s' pid \<longrightarrow> concat s = concat s')"

lemma find_pda_inject:
  "collision_free w pid \<Longrightarrow> pda_wf p \<Longrightarrow> pda_wf q \<Longrightarrow> find_pda w p pid = find_pda w q pid \<longleftrightarrow> p = q"
  using seed_material_inject [of p q] unfolding collision_free_def find_pda_def seed_material_def by metis



end
