(* ===== verification/Js_Text.thy ===== *)
theory Js_Text
  imports Ssr_Base "HOL-Library.Char_ord" "HOL-Library.Sublist"
begin

text \<open>
  JavaScript strings as the program uses them: decimal printing of integers
  (\<open>toString\<close>, template literals), \<open>JSON.stringify\<close>, splitting and joining, with the
  unique-readability lemmas that let a printed value stand for the value. A string is a
  list of code units below 256; the program's keys, addresses and messages are ASCII.
\<close>

section \<open>Characters\<close>

definition code :: "char \<Rightarrow> nat" where
  "code c = of_char c"

lemma code_inject [simp]: "code c = code d \<longleftrightarrow> c = d"
  by (simp add: code_def)

lemma code_char_of: "n < 256 \<Longrightarrow> code (char_of n) = n"
  by (simp add: code_def)

lemma code_less: "code c < 256"
  by (simp add: code_def of_char_def)

definition is_digit :: "char \<Rightarrow> bool" where
  "is_digit c \<longleftrightarrow> 48 \<le> code c \<and> code c \<le> 57"

definition digit :: "nat \<Rightarrow> char" where
  "digit n = char_of (48 + n)"

lemma code_digit: "n < 10 \<Longrightarrow> code (digit n) = 48 + n"
  by (simp add: digit_def code_char_of)

lemma is_digit_digit [simp]: "n < 10 \<Longrightarrow> is_digit (digit n)"
  by (simp add: is_digit_def code_digit)

section \<open>Case and search\<close>

definition lower_char :: "char \<Rightarrow> char" where
  "lower_char c = (if 65 \<le> code c \<and> code c \<le> 90 then char_of (code c + 32) else c)"

definition toLowerCase :: "string \<Rightarrow> string" where
  "toLowerCase s = map lower_char s"

fun starts_with :: "string \<Rightarrow> string \<Rightarrow> bool" where
  "starts_with [] s = True"
| "starts_with (p # ps) [] = False"
| "starts_with (p # ps) (c # s) = (p = c \<and> starts_with ps s)"

fun str_includes :: "string \<Rightarrow> string \<Rightarrow> bool" where
  "str_includes s pat = (starts_with pat s \<or> (case s of [] \<Rightarrow> False | _ # s' \<Rightarrow> str_includes s' pat))"

declare str_includes.simps [simp del]

section \<open>Decimal printing\<close>

fun nat_str :: "nat \<Rightarrow> string" where
  "nat_str n = (if n < 10 then [digit n] else nat_str (n div 10) @ [digit (n mod 10)])"

declare nat_str.simps [simp del]

definition int_str :: "int \<Rightarrow> string" where
  \<comment> \<open>\<open>v.toString()\<close> of a bigint or of an integral number\<close>
  "int_str i = (if i < 0 then CHR ''-'' # nat_str (nat (- i)) else nat_str (nat i))"

definition digits_val :: "string \<Rightarrow> nat" where
  "digits_val s = foldl (\<lambda>n c. n * 10 + (code c - 48)) 0 s"

lemma digits_val_snoc [simp]: "digits_val (s @ [c]) = digits_val s * 10 + (code c - 48)"
  by (simp add: digits_val_def)

lemma digits_val_nat_str [simp]: "digits_val (nat_str n) = n"
proof (induction n rule: nat_str.induct)
  case (1 n)
  show ?case
  proof (cases "n < 10")
    case True
    then show ?thesis by (subst nat_str.simps) (simp add: digits_val_def code_digit)
  next
    case False
    then show ?thesis using 1 by (subst nat_str.simps) (simp add: code_digit)
  qed
qed

lemma nat_str_inject [simp]: "nat_str m = nat_str n \<longleftrightarrow> m = n"
  using digits_val_nat_str by metis

lemma nat_str_digits: "c \<in> set (nat_str n) \<Longrightarrow> is_digit c"
proof (induction n rule: nat_str.induct)
  case (1 n)
  then show ?case by (cases "n < 10") (simp_all add: nat_str.simps [of n], auto)
qed

lemma nat_str_nonempty [simp]: "nat_str n \<noteq> []"
  by (subst nat_str.simps) simp

lemma not_digit_minus [simp]: "\<not> is_digit (CHR ''-'')"
  by (simp add: is_digit_def code_def)

lemma minus_neq_nat_str: "CHR ''-'' # s \<noteq> nat_str n" "nat_str n \<noteq> CHR ''-'' # s"
  using nat_str_digits [of "CHR ''-''" n] by (metis list.set_intros(1) not_digit_minus)+

lemma int_str_inject [simp]: "int_str i = int_str j \<longleftrightarrow> i = j"
  by (auto simp: int_str_def minus_neq_nat_str)

text \<open>A number followed by something that is not a digit can be read back.\<close>

definition no_digit_first :: "string \<Rightarrow> bool" where
  "no_digit_first r \<longleftrightarrow> (case r of [] \<Rightarrow> True | c # _ \<Rightarrow> \<not> is_digit c)"

lemma no_digit_first_simps [simp]: "no_digit_first []" "no_digit_first (c # r) \<longleftrightarrow> \<not> is_digit c"
  by (simp_all add: no_digit_first_def)

lemma takeWhile_digits: "no_digit_first r \<Longrightarrow> takeWhile is_digit (nat_str n @ r) = nat_str n"
  by (cases r) (auto simp: takeWhile_append dest: nat_str_digits)

lemma nat_str_append_inject:
  "no_digit_first r \<Longrightarrow> no_digit_first r' \<Longrightarrow> nat_str m @ r = nat_str n @ r' \<longleftrightarrow> m = n \<and> r = r'"
  using takeWhile_digits [of r m] takeWhile_digits [of r' n] by auto

lemma nat_str_append_neq_minus: "nat_str n @ r \<noteq> CHR ''-'' # s" "CHR ''-'' # s \<noteq> nat_str n @ r"
  using nat_str_digits [of "hd (nat_str n)" n] nat_str_nonempty [of n]
  by (metis hd_append2 hd_in_set list.sel(1) not_digit_minus)+

lemma int_str_append_inject:
  "no_digit_first r \<Longrightarrow> no_digit_first r' \<Longrightarrow> int_str i @ r = int_str j @ r' \<longleftrightarrow> i = j \<and> r = r'"
  by (auto simp: int_str_def nat_str_append_inject nat_str_append_neq_minus)

section \<open>JSON\<close>

definition hex_digit :: "nat \<Rightarrow> char" where
  "hex_digit n = (if n < 10 then char_of (48 + n) else char_of (87 + n))"

lemma hex_digit_inject: "m < 16 \<Longrightarrow> n < 16 \<Longrightarrow> hex_digit m = hex_digit n \<longleftrightarrow> m = n"
proof
  assume "m < 16" "n < 16" "hex_digit m = hex_digit n"
  then have "code (hex_digit m) = code (hex_digit n)" by simp
  with \<open>m < 16\<close> \<open>n < 16\<close> show "m = n"
    by (simp add: hex_digit_def code_char_of split: if_splits)
qed simp

definition backslash :: char where "backslash = CHR 0x5C"
definition dquote :: char where "dquote = CHR 0x22"

definition short_escapes :: "(char \<times> char) list" where
  "short_escapes = [(dquote, dquote), (backslash, backslash), (CHR 0x08, CHR ''b''), (CHR 0x0C, CHR ''f''),
     (CHR 0x0A, CHR ''n''), (CHR 0x0D, CHR ''r''), (CHR 0x09, CHR ''t'')]"

definition json_escape :: "char \<Rightarrow> string" where
  "json_escape c =
     (case map_of short_escapes c of
        Some e \<Rightarrow> [backslash, e]
      | None \<Rightarrow>
          if code c < 32
          then [backslash, CHR ''u'', CHR ''0'', CHR ''0'', hex_digit (code c div 16), hex_digit (code c mod 16)]
          else [c])"

datatype json = JStr string | JNum int | JArr "json list"

fun json_string :: "json \<Rightarrow> string" and json_elements :: "json list \<Rightarrow> string"
  and json_rest :: "json list \<Rightarrow> string" where
  "json_string (JStr s) = dquote # concat (map json_escape s) @ [dquote]"
| "json_string (JNum i) = int_str i"
| "json_string (JArr vs) = CHR ''['' # json_elements vs"
| "json_elements [] = '']''"
| "json_elements (v # vs) = json_string v @ json_rest vs"
| "json_rest [] = '']''"
| "json_rest (v # vs) = CHR '','' # json_string v @ json_rest vs"

lemma quote_chars: "dquote \<noteq> backslash" "backslash \<noteq> dquote"
  "\<not> is_digit dquote" "\<not> is_digit (CHR ''['')" "\<not> is_digit (CHR '','')" "\<not> is_digit (CHR '']'')"
  "dquote \<noteq> CHR ''-''" "dquote \<noteq> CHR ''[''" "CHR ''['' \<noteq> dquote" "CHR ''-'' \<noteq> dquote"
  "CHR '']'' \<noteq> dquote" "dquote \<noteq> CHR '']''"
  by (simp_all add: dquote_def backslash_def is_digit_def code_def)

lemma short_escape_inject: "map_of short_escapes c = Some e \<Longrightarrow> map_of short_escapes d = Some e \<Longrightarrow> c = d"
proof -
  assume "map_of short_escapes c = Some e" "map_of short_escapes d = Some e"
  then have "(c, e) \<in> set short_escapes" "(d, e) \<in> set short_escapes" by (auto dest: map_of_SomeD)
  moreover have "distinct (map snd short_escapes)"
    by (simp add: short_escapes_def dquote_def backslash_def)
  ultimately have "(c, e) = (d, e)" unfolding distinct_map inj_on_def by fastforce
  then show "c = d" by simp
qed

lemma short_escape_not_u: "map_of short_escapes c \<noteq> Some (CHR ''u'')"
  by (simp add: short_escapes_def dquote_def backslash_def)

lemma short_escape_None: "map_of short_escapes c = None \<Longrightarrow> c \<noteq> backslash \<and> c \<noteq> dquote"
  by (auto simp: short_escapes_def quote_chars)

lemma json_escape_append_inject:
  assumes "json_escape c @ r = json_escape d @ r'"
  shows "c = d \<and> r = r'"
proof -
  have control: "c = d" if "code c div 16 = code d div 16" "code c mod 16 = code d mod 16"
    using that by (metis code_inject div_mult_mod_eq)
  have bounds: "code c div 16 < 16" "code d div 16 < 16" using code_less [of c] code_less [of d] by auto
  show ?thesis
  proof (cases "map_of short_escapes c")
    case None
    note c = this
    show ?thesis
    proof (cases "map_of short_escapes d")
      case None
      then show ?thesis using assms c control bounds short_escape_None [of c] short_escape_None [of d]
        by (auto simp: json_escape_def hex_digit_inject split: if_splits)
    next
      case (Some e)
      then show ?thesis using assms c short_escape_None [of c] short_escape_not_u [of d]
        by (auto simp: json_escape_def split: if_splits)
    qed
  next
    case (Some e)
    note c = this
    show ?thesis
    proof (cases "map_of short_escapes d")
      case None
      then show ?thesis using assms c short_escape_None [of d] short_escape_not_u [of c]
        by (auto simp: json_escape_def split: if_splits)
    next
      case (Some e')
      then show ?thesis using assms c short_escape_inject [of c e d] by (simp add: json_escape_def)
    qed
  qed
qed

lemma json_escape_head: "\<exists>x xs. json_escape c = x # xs \<and> x \<noteq> dquote"
  using short_escape_None [of c] by (auto simp: json_escape_def quote_chars split: option.split)

lemma escape_body_inject:
  "concat (map json_escape s) @ dquote # r = concat (map json_escape t) @ dquote # r' \<Longrightarrow> s = t \<and> r = r'"
proof (induction s arbitrary: t)
  case Nil
  then show ?case using json_escape_head by (cases t) (auto, metis append_Cons list.inject)
next
  case (Cons c s)
  show ?case
  proof (cases t)
    case Nil
    then show ?thesis using Cons.prems json_escape_head [of c] by auto
  next
    case (Cons d u)
    have "json_escape c @ (concat (map json_escape s) @ dquote # r) =
        json_escape d @ (concat (map json_escape u) @ dquote # r')"
      using Cons.prems Cons by simp
    from json_escape_append_inject [OF this] Cons.IH [of u] Cons show ?thesis by simp
  qed
qed

lemma int_str_head: "\<exists>x xs. int_str i = x # xs \<and> (is_digit x \<or> x = CHR ''-'')"
proof (cases "i < 0")
  case False
  then obtain x xs where "nat_str (nat i) = x # xs" using nat_str_nonempty by (cases "nat_str (nat i)") auto
  then show ?thesis using False nat_str_digits [of x "nat i"] by (simp add: int_str_def)
qed (simp add: int_str_def)

lemma int_str_append_neq:
  assumes "\<not> is_digit c" "c \<noteq> CHR ''-''"
  shows "int_str i @ r \<noteq> c # s" "c # s \<noteq> int_str i @ r"
proof -
  obtain x xs where "int_str i = x # xs" "is_digit x \<or> x = CHR ''-''" using int_str_head by blast
  with assms show "int_str i @ r \<noteq> c # s" "c # s \<noteq> int_str i @ r" by auto
qed

lemma json_rest_no_digit: "no_digit_first (json_rest vs)"
  by (cases vs) (simp_all add: quote_chars)

lemma json_head_not_bracket: "json_string v @ r \<noteq> CHR '']'' # r'" "CHR '']'' # r' \<noteq> json_string v @ r"
  by (cases v; simp add: quote_chars int_str_append_neq)+

text \<open>\<open>JSON.stringify\<close> is injective on these values, also in front of more text.\<close>

lemma json_string_append_inject:
  "no_digit_first r \<Longrightarrow> no_digit_first r' \<Longrightarrow> json_string v @ r = json_string w @ r' \<Longrightarrow> v = w \<and> r = r'"
  "json_elements vs @ r = json_elements ws @ r' \<Longrightarrow> vs = ws \<and> r = r'"
  "json_rest vs @ r = json_rest ws @ r' \<Longrightarrow> vs = ws \<and> r = r'"
proof (induction v and vs and vs arbitrary: w r r' and ws r r' and ws r r'
    rule: json_string_json_elements_json_rest.induct)
  case (1 s)
  show ?case
  proof (cases w)
    case (JStr t)
    then show ?thesis using 1 escape_body_inject [of s r t r'] by simp
  qed (use 1 in \<open>auto simp: quote_chars int_str_append_neq\<close>)
next
  case (2 i)
  show ?case
  proof (cases w)
    case (JNum j)
    then show ?thesis using 2 int_str_append_inject by auto
  qed (use 2 in \<open>auto simp: quote_chars int_str_append_neq\<close>)
next
  case (3 vs)
  show ?case
  proof (cases w)
    case (JNum j)
    then show ?thesis using 3 by (auto simp: quote_chars int_str_append_neq)
  next
    case (JArr ws)
    then show ?thesis using 3 by auto
  qed (use 3 in \<open>auto simp: quote_chars\<close>)
next
  case 4
  then show ?case by (cases ws) (auto simp: json_head_not_bracket)
next
  case (5 v vs)
  show ?case
  proof (cases ws)
    case Nil
    then show ?thesis using 5 json_head_not_bracket(1) [of v "json_rest vs @ r"] by auto
  next
    case (Cons w ws')
    have nd: "no_digit_first (json_rest vs @ r)" "no_digit_first (json_rest ws' @ r')"
      by (cases vs; simp add: quote_chars) (cases ws'; simp add: quote_chars)
    have "json_string v @ (json_rest vs @ r) = json_string w @ (json_rest ws' @ r')"
      using "5.prems" Cons by simp
    from "5.IH"(1) [OF nd this] have "v = w" "json_rest vs @ r = json_rest ws' @ r'" by simp_all
    with "5.IH"(2) Cons show ?thesis by auto
  qed
next
  case 6
  then show ?case by (cases ws) auto
next
  case (7 v vs)
  show ?case
  proof (cases ws)
    case Nil
    then show ?thesis using 7 by auto
  next
    case (Cons w ws')
    have nd: "no_digit_first (json_rest vs @ r)" "no_digit_first (json_rest ws' @ r')"
      by (cases vs; simp add: quote_chars) (cases ws'; simp add: quote_chars)
    have "json_string v @ (json_rest vs @ r) = json_string w @ (json_rest ws' @ r')"
      using "7.prems" Cons by simp
    from "7.IH"(1) [OF nd this] have "v = w" "json_rest vs @ r = json_rest ws' @ r'" by simp_all
    with "7.IH"(2) Cons show ?thesis by auto
  qed
qed

lemma json_string_inject [simp]: "json_string v = json_string w \<longleftrightarrow> v = w"
  using json_string_append_inject(1) [where r = "[]" and r' = "[]" and v = v and w = w] by auto

end
