(* ===== verification/Compound.thy ===== *)
theory Compound
  imports Js_Text
begin

text \<open>
  \<open>packages/sdk/src/compoundRoutes.ts\<close>: the policy around compounding a creator's
  earnings. Two providers quote the same fixed context, valid quotes are ranked, the
  creator approves one of them, and the approval binds the exact plan. Fields the source
  types as \<open>number\<close> hold integers here; the providers are functions of the context that
  may reject, and the clock is an argument.
\<close>

section \<open>Data\<close>

datatype compound_route = Mint | Pool

datatype compound_cost_kind =
    MintFee | BasketExecution | PoolTradeFee | ProjectTax | TransferFee | PriceImpact
  | NetworkFee | AccountRent

datatype cost_unit = USDC | ReserveToken | SOL

record compound_cost =
  cc_kind :: compound_cost_kind
  cc_unit :: cost_unit
  cc_amountRaw :: int

record compound_context =
  cx_creator :: string
  cx_reserve :: string
  cx_pool :: string
  cx_reserveMint :: string
  cx_lpMint :: string
  cx_budgetUsdcRaw :: int
  cx_snapshotSlot :: int
  cx_stateFingerprint :: string
  cx_slippageBps :: int
  cx_lpDestination :: string
  cx_lockPolicyId :: string

record compound_quote =
  cq_id :: string
  cq_route :: compound_route
  cq_context :: compound_context
  cq_quotedAtMs :: int
  cq_expiresAtMs :: int
  cq_planFingerprint :: string
  cq_acquisitionUsdcRaw :: int
  cq_depositUsdcRaw :: int
  cq_leftoverUsdcRaw :: int
  cq_acquiredReserveRaw :: int
  cq_depositReserveGrossRaw :: int
  cq_depositReserveNetRaw :: int
  cq_leftoverReserveRaw :: int
  cq_expectedLpRaw :: int
  cq_minimumLpRaw :: int
  cq_maximumSolCostRaw :: int
  cq_costs :: "compound_cost list"

text \<open>A provider answers with a quote, or rejects with an \<open>Error\<close> or with something else.\<close>

datatype provider_result = Fulfilled compound_quote | RejectedError string | RejectedOther

record compound_comparison =
  cmp_context :: compound_context
  cmp_quotes :: "compound_quote list"
  cmp_unavailable :: "(compound_route \<times> string) list"
  cmp_recommended :: "compound_route option"

record compound_approval =
  ap_creator :: string
  ap_route :: compound_route
  ap_quoteBinding :: string

definition MAX_QUOTE_AGE_MS :: int where "MAX_QUOTE_AGE_MS = 30000"

section \<open>Content binding\<close>

text \<open>The names of the string literal types.\<close>

fun route_name :: "compound_route \<Rightarrow> string" where
  "route_name Mint = ''mint''"
| "route_name Pool = ''pool''"

fun kind_name :: "compound_cost_kind \<Rightarrow> string" where
  "kind_name MintFee = ''mintFee''"
| "kind_name BasketExecution = ''basketExecution''"
| "kind_name PoolTradeFee = ''poolTradeFee''"
| "kind_name ProjectTax = ''projectTax''"
| "kind_name TransferFee = ''transferFee''"
| "kind_name PriceImpact = ''priceImpact''"
| "kind_name NetworkFee = ''networkFee''"
| "kind_name AccountRent = ''accountRent''"

fun unit_name :: "cost_unit \<Rightarrow> string" where
  "unit_name USDC = ''USDC''"
| "unit_name ReserveToken = ''ReserveToken''"
| "unit_name SOL = ''SOL''"

text \<open>\<open>stable\<close> replaces a bigint by its decimal string before \<open>JSON.stringify\<close>.\<close>

definition JBig :: "int \<Rightarrow> json" where "JBig i = JStr (int_str i)"

definition stable :: "json \<Rightarrow> string" where "stable v = json_string v"

definition contextKey :: "compound_context \<Rightarrow> string" where
  "contextKey c = stable (JArr [JStr (cx_creator c), JStr (cx_reserve c), JStr (cx_pool c),
     JStr (cx_reserveMint c), JStr (cx_lpMint c), JBig (cx_budgetUsdcRaw c), JNum (cx_snapshotSlot c),
     JStr (cx_stateFingerprint c), JNum (cx_slippageBps c), JStr (cx_lpDestination c),
     JStr (cx_lockPolicyId c)])"

definition cost_json :: "compound_cost \<Rightarrow> json" where
  "cost_json c = JArr [JStr (kind_name (cc_kind c)), JStr (unit_name (cc_unit c)), JBig (cc_amountRaw c)]"

definition quoteBinding :: "compound_quote \<Rightarrow> string" where
  "quoteBinding q = stable (JArr [JStr (contextKey (cq_context q)), JStr (cq_id q),
     JStr (route_name (cq_route q)), JNum (cq_quotedAtMs q), JNum (cq_expiresAtMs q),
     JStr (cq_planFingerprint q), JBig (cq_acquisitionUsdcRaw q), JBig (cq_depositUsdcRaw q),
     JBig (cq_leftoverUsdcRaw q), JBig (cq_acquiredReserveRaw q), JBig (cq_depositReserveGrossRaw q),
     JBig (cq_depositReserveNetRaw q), JBig (cq_leftoverReserveRaw q), JBig (cq_expectedLpRaw q),
     JBig (cq_minimumLpRaw q), JBig (cq_maximumSolCostRaw q), JArr (map cost_json (cq_costs q))])"

section \<open>Validation\<close>

datatype compound_error =
    DestinationsRequired | NoEarnings | InvalidSnapshot | InvalidSlippage | ContextChanged
  | MissingPlan | QuoteExpired | InvalidAmounts | BudgetNotConserved | UnbalancedLiquidity
  | TransfersUnaccounted | MinimumMissing | TooMuchSlippage | CostsIncomplete | InvalidCosts
  | SolCostExceeds | WrongRoute | OnlyCreator | RouteUnavailable | WalletChanged | PlanChanged

fun error_message :: "compound_error \<Rightarrow> string" where
  "error_message DestinationsRequired = ''Compound destinations and lock policy are required''"
| "error_message NoEarnings = ''No creator earnings available to compound''"
| "error_message InvalidSnapshot = ''Invalid pool snapshot''"
| "error_message InvalidSlippage = ''Invalid Compound slippage''"
| "error_message ContextChanged = ''Compound quote context changed''"
| "error_message MissingPlan = ''Compound quote is missing its execution plan''"
| "error_message QuoteExpired = ''Compound quote expired; refresh both routes''"
| "error_message InvalidAmounts = ''Invalid Compound quote amounts''"
| "error_message BudgetNotConserved = ''Compound quote does not conserve the earnings budget''"
| "error_message UnbalancedLiquidity = ''Compound requires balanced liquidity''"
| "error_message TransfersUnaccounted = ''Compound quote does not account for Reserve Token transfers''"
| "error_message MinimumMissing = ''Compound liquidity minimum is missing''"
| "error_message TooMuchSlippage = ''Compound minimum allows more slippage than approved''"
| "error_message CostsIncomplete = ''Compound cost breakdown is incomplete''"
| "error_message InvalidCosts = ''Invalid Compound costs''"
| "error_message SolCostExceeds = ''Compound SOL cost exceeds the approval budget''"
| "error_message WrongRoute = ''Quote provider returned the wrong route''"
| "error_message OnlyCreator = ''Only the creator can approve Compound''"
| "error_message RouteUnavailable = ''Selected Compound route is unavailable''"
| "error_message WalletChanged = ''Creator wallet changed; approve Compound again''"
| "error_message PlanChanged = ''Compound plan changed; approve the selected route again''"

definition isSafeInteger :: "int \<Rightarrow> bool" where
  "isSafeInteger n \<longleftrightarrow> \<bar>n\<bar> \<le> 2 ^ 53 - 1"

definition u64_amount :: "int \<Rightarrow> bool" where
  "u64_amount n \<longleftrightarrow> 0 \<le> n \<and> n \<le> 0xffffffffffffffff"

definition validateCompoundContext :: "compound_context \<Rightarrow> compound_error + unit" where
  "validateCompoundContext c =
     rbind (require (\<forall>s \<in> set [cx_creator c, cx_reserve c, cx_pool c, cx_reserveMint c, cx_lpMint c,
         cx_lpDestination c, cx_lockPolicyId c, cx_stateFingerprint c]. 0 < length s) DestinationsRequired) (\<lambda>_.
     rbind (require (cx_budgetUsdcRaw c > 0 \<and> cx_budgetUsdcRaw c \<le> 0xffffffffffffffff) NoEarnings) (\<lambda>_.
     rbind (require (isSafeInteger (cx_snapshotSlot c) \<and> cx_snapshotSlot c \<ge> 0) InvalidSnapshot) (\<lambda>_.
     require (cx_slippageBps c \<ge> 0 \<and> cx_slippageBps c \<le> 1000) InvalidSlippage)))"

definition quote_amounts :: "compound_quote \<Rightarrow> int list" where
  "quote_amounts q = [cq_acquisitionUsdcRaw q, cq_depositUsdcRaw q, cq_leftoverUsdcRaw q,
     cq_acquiredReserveRaw q, cq_depositReserveGrossRaw q, cq_depositReserveNetRaw q,
     cq_leftoverReserveRaw q, cq_expectedLpRaw q, cq_minimumLpRaw q, cq_maximumSolCostRaw q]"

fun required_costs :: "compound_route \<Rightarrow> compound_cost_kind list" where
  "required_costs Mint = [MintFee, BasketExecution, TransferFee, PriceImpact, NetworkFee, AccountRent]"
| "required_costs Pool = [PoolTradeFee, ProjectTax, TransferFee, PriceImpact, NetworkFee, AccountRent]"

definition sol_costs :: "compound_quote \<Rightarrow> int" where
  "sol_costs q = foldl (\<lambda>n c. n + cc_amountRaw c) 0 (filter (\<lambda>c. cc_unit c = SOL) (cq_costs q))"

definition quote_fresh :: "compound_quote \<Rightarrow> int \<Rightarrow> bool" where
  "quote_fresh q nowMs \<longleftrightarrow>
     isSafeInteger nowMs \<and> isSafeInteger (cq_quotedAtMs q) \<and> isSafeInteger (cq_expiresAtMs q) \<and>
     cq_quotedAtMs q \<le> nowMs \<and> cq_expiresAtMs q > nowMs \<and> cq_expiresAtMs q > cq_quotedAtMs q \<and>
     cq_expiresAtMs q - cq_quotedAtMs q \<le> MAX_QUOTE_AGE_MS \<and> nowMs - cq_quotedAtMs q \<le> MAX_QUOTE_AGE_MS"

definition validateCompoundQuote ::
  "compound_quote \<Rightarrow> compound_context \<Rightarrow> int \<Rightarrow> compound_error + unit" where
  "validateCompoundQuote q context nowMs =
     rbind (validateCompoundContext context) (\<lambda>_.
     rbind (require (contextKey (cq_context q) = contextKey context) ContextChanged) (\<lambda>_.
     rbind (require (0 < length (cq_id q) \<and> 0 < length (cq_planFingerprint q)) MissingPlan) (\<lambda>_.
     rbind (require (quote_fresh q nowMs) QuoteExpired) (\<lambda>_.
     rbind (require (\<forall>n \<in> set (quote_amounts q). u64_amount n) InvalidAmounts) (\<lambda>_.
     rbind (require (cq_acquisitionUsdcRaw q + cq_depositUsdcRaw q + cq_leftoverUsdcRaw q =
         cx_budgetUsdcRaw context) BudgetNotConserved) (\<lambda>_.
     rbind (require (cq_acquisitionUsdcRaw q > 0 \<and> cq_depositUsdcRaw q > 0 \<and> cq_depositReserveNetRaw q > 0)
         UnbalancedLiquidity) (\<lambda>_.
     rbind (require (cq_depositReserveGrossRaw q + cq_leftoverReserveRaw q = cq_acquiredReserveRaw q \<and>
         cq_depositReserveNetRaw q \<le> cq_depositReserveGrossRaw q) TransfersUnaccounted) (\<lambda>_.
     rbind (require (cq_minimumLpRaw q > 0 \<and> cq_expectedLpRaw q \<ge> cq_minimumLpRaw q) MinimumMissing) (\<lambda>_.
     rbind (require (cq_minimumLpRaw q \<ge>
         cq_expectedLpRaw q * (10000 - cx_slippageBps context) sdiv 10000) TooMuchSlippage) (\<lambda>_.
     rbind (require (\<forall>kind \<in> set (required_costs (cq_route q)). \<exists>c \<in> set (cq_costs q). cc_kind c = kind)
         CostsIncomplete) (\<lambda>_.
     rbind (require (\<forall>c \<in> set (cq_costs q). u64_amount (cc_amountRaw c)) InvalidCosts) (\<lambda>_.
     require (sol_costs q \<le> cq_maximumSolCostRaw q) SolCostExceeds))))))))))))"

section \<open>Comparison, approval, assertion\<close>

text \<open>One settled result: a quote to keep, or the message shown for the route.\<close>

definition settle_route ::
  "compound_context \<Rightarrow> int \<Rightarrow> compound_route \<Rightarrow> provider_result \<Rightarrow> string + compound_quote" where
  "settle_route fixed checkedAt route result =
     (case result of
        RejectedError message \<Rightarrow> Inl message
      | RejectedOther \<Rightarrow> Inl ''Quote unavailable''
      | Fulfilled q \<Rightarrow>
          (case rbind (require (cq_route q = route) WrongRoute) (\<lambda>_. validateCompoundQuote q fixed checkedAt) of
             Inl e \<Rightarrow> Inl (error_message e)
           | Inr _ \<Rightarrow> Inr (q\<lparr>cq_context := fixed\<rparr>)))"

fun settle_all :: "compound_context \<Rightarrow> int \<Rightarrow> (compound_route \<times> provider_result) list \<Rightarrow>
    compound_quote list \<times> (compound_route \<times> string) list" where
  "settle_all fixed checkedAt [] = ([], [])"
| "settle_all fixed checkedAt ((route, result) # rest) =
     (case settle_all fixed checkedAt rest of (quotes, unavailable) \<Rightarrow>
        (case settle_route fixed checkedAt route result of
           Inl message \<Rightarrow> (quotes, (route, message) # unavailable)
         | Inr q \<Rightarrow> (q # quotes, unavailable)))"

text \<open>\<open>ranked_after a b\<close>: the comparator of the sort returns 1, \<open>a\<close> comes after \<open>b\<close>.\<close>

definition ranked_after :: "compound_quote \<Rightarrow> compound_quote \<Rightarrow> bool" where
  "ranked_after a b \<longleftrightarrow>
     (if cq_minimumLpRaw a \<noteq> cq_minimumLpRaw b then cq_minimumLpRaw a < cq_minimumLpRaw b
      else if cq_expectedLpRaw a \<noteq> cq_expectedLpRaw b then cq_expectedLpRaw a < cq_expectedLpRaw b
      else cq_maximumSolCostRaw a > cq_maximumSolCostRaw b)"

definition compareCompoundRoutes ::
  "compound_context \<Rightarrow> (compound_route \<Rightarrow> compound_context \<Rightarrow> provider_result) \<Rightarrow> int \<Rightarrow>
    compound_error + compound_comparison" where
  "compareCompoundRoutes context providers now =
     rbind (validateCompoundContext context) (\<lambda>_.
       case settle_all context now (map (\<lambda>route. (route, providers route context)) [Mint, Pool]) of
         (quotes, unavailable) \<Rightarrow>
           Inr \<lparr>cmp_context = context, cmp_quotes = quotes, cmp_unavailable = unavailable,
             cmp_recommended = (case sort_by ranked_after quotes of [] \<Rightarrow> None | q # _ \<Rightarrow> Some (cq_route q))\<rparr>)"

definition approveCompoundRoute ::
  "compound_comparison \<Rightarrow> compound_route \<Rightarrow> string \<Rightarrow> int \<Rightarrow> compound_error + compound_approval" where
  "approveCompoundRoute comparison route connectedCreator nowMs =
     rbind (require (connectedCreator = cx_creator (cmp_context comparison)) OnlyCreator) (\<lambda>_.
       case find (\<lambda>q. cq_route q = route) (cmp_quotes comparison) of
         None \<Rightarrow> Inl RouteUnavailable
       | Some quote \<Rightarrow>
           rbind (validateCompoundQuote quote (cmp_context comparison) nowMs) (\<lambda>_.
             Inr \<lparr>ap_creator = connectedCreator, ap_route = route, ap_quoteBinding = quoteBinding quote\<rparr>))"

definition assertCompoundApproval ::
  "compound_quote \<Rightarrow> compound_approval \<Rightarrow> compound_context \<Rightarrow> string \<Rightarrow> int \<Rightarrow> compound_error + unit" where
  "assertCompoundApproval quote approval liveContext connectedCreator nowMs =
     rbind (validateCompoundQuote quote liveContext nowMs) (\<lambda>_.
     rbind (require (connectedCreator = cx_creator liveContext \<and> ap_creator approval = connectedCreator)
       WalletChanged) (\<lambda>_.
     require (ap_route approval = cq_route quote \<and> ap_quoteBinding approval = quoteBinding quote) PlanChanged))"

section \<open>The binding determines the plan\<close>

lemma JBig_inject [simp]: "JBig i = JBig j \<longleftrightarrow> i = j"
  by (simp add: JBig_def)

lemma stable_inject [simp]: "stable v = stable w \<longleftrightarrow> v = w"
  by (simp add: stable_def)

lemma name_inject [simp]: "route_name r = route_name r' \<longleftrightarrow> r = r'"
  "kind_name k = kind_name k' \<longleftrightarrow> k = k'" "unit_name u = unit_name u' \<longleftrightarrow> u = u'"
proof -
  show "route_name r = route_name r' \<longleftrightarrow> r = r'" by (cases r; cases r') simp_all
  show "kind_name k = kind_name k' \<longleftrightarrow> k = k'" by (cases k; cases k') simp_all
  show "unit_name u = unit_name u' \<longleftrightarrow> u = u'" by (cases u; cases u') simp_all
qed

lemma cost_json_inject [simp]: "cost_json c = cost_json d \<longleftrightarrow> c = d"
  by (auto simp: cost_json_def)

lemma map_cost_json_inject [simp]: "map cost_json cs = map cost_json ds \<longleftrightarrow> cs = ds"
  by (simp add: inj_map_eq_map inj_on_def)

lemma contextKey_inject [simp]: "contextKey c = contextKey d \<longleftrightarrow> c = d"
  by (auto simp: contextKey_def)

lemma quoteBinding_inject [simp]: "quoteBinding q = quoteBinding r \<longleftrightarrow> q = r"
  by (auto simp: quoteBinding_def)

lemma validateCompoundQuote_context: "validateCompoundQuote q context now = Inr u \<Longrightarrow> cq_context q = context"
  by (auto simp: validateCompoundQuote_def res_iff)

lemma ranked_after_comparator: "comparator ranked_after"
  unfolding comparator_def ranked_after_def by auto

section \<open>Properties\<close>

text \<open>
  C4: An approval binds exactly the plan that was displayed. If the assertion that runs
  before signing passes, the quote about to be executed is, field by field and cost by
  cost, the quote of the approved route in the comparison the creator looked at, the live
  context is that comparison's context, the same creator is connected, and the quote has
  not expired.
\<close>

theorem approval_binds_plan:
  assumes "approveCompoundRoute comparison route creator now = Inr approval"
    and "assertCompoundApproval quote approval live connected later = Inr u"
  shows "find (\<lambda>q. cq_route q = route) (cmp_quotes comparison) = Some quote \<and> cq_route quote = route \<and>
    live = cmp_context comparison \<and> cq_context quote = live \<and> connected = creator \<and>
    creator = cx_creator live \<and> later < cq_expiresAtMs quote \<and> later - cq_quotedAtMs quote \<le> 30000"
proof -
  from assms(1) obtain q where q: "find (\<lambda>q. cq_route q = route) (cmp_quotes comparison) = Some q"
    and v: "validateCompoundQuote q (cmp_context comparison) now = Inr ()"
    and a: "approval = \<lparr>ap_creator = creator, ap_route = route, ap_quoteBinding = quoteBinding q\<rparr>"
    by (auto simp: approveCompoundRoute_def res_iff split: option.splits)
  from assms(2) a have same: "quote = q" "route = cq_route quote" "connected = creator" "connected = cx_creator live"
    and live: "validateCompoundQuote quote live later = Inr ()"
    by (auto simp: assertCompoundApproval_def res_iff)
  from live have "quote_fresh quote later" by (auto simp: validateCompoundQuote_def res_iff)
  with same q validateCompoundQuote_context [OF v] validateCompoundQuote_context [OF live] show ?thesis
    by (auto simp: quote_fresh_def MAX_QUOTE_AGE_MS_def)
qed

definition demo_context :: compound_context where
  "demo_context = \<lparr>cx_creator = ''A'', cx_reserve = ''R'', cx_pool = ''P'', cx_reserveMint = ''M'',
     cx_lpMint = ''L'', cx_budgetUsdcRaw = 1000, cx_snapshotSlot = 5, cx_stateFingerprint = ''S'',
     cx_slippageBps = 100, cx_lpDestination = ''D'', cx_lockPolicyId = ''K''\<rparr>"

definition demo_quote :: "compound_route \<Rightarrow> compound_quote" where
  "demo_quote route = \<lparr>cq_id = ''q'', cq_route = route, cq_context = demo_context, cq_quotedAtMs = 1000,
     cq_expiresAtMs = 20000, cq_planFingerprint = ''f'', cq_acquisitionUsdcRaw = 480, cq_depositUsdcRaw = 500,
     cq_leftoverUsdcRaw = 20, cq_acquiredReserveRaw = 300, cq_depositReserveGrossRaw = 290,
     cq_depositReserveNetRaw = 285, cq_leftoverReserveRaw = 10, cq_expectedLpRaw = 1000,
     cq_minimumLpRaw = (if route = Mint then 990 else 995), cq_maximumSolCostRaw = 5000,
     cq_costs = map (\<lambda>k. \<lparr>cc_kind = k, cc_unit = SOL, cc_amountRaw = 100\<rparr>) (required_costs route)\<rparr>"

lemma demo_valid: "1000 \<le> now \<Longrightarrow> now < 20000 \<Longrightarrow> validateCompoundQuote (demo_quote r) demo_context now = Inr ()"
  by (cases r) (simp_all add: validateCompoundQuote_def validateCompoundContext_def quote_fresh_def
      quote_amounts_def sol_costs_def demo_quote_def demo_context_def isSafeInteger_def u64_amount_def
      MAX_QUOTE_AGE_MS_def signed_divide_int_def)

definition demo_comparison :: compound_comparison where
  "demo_comparison = \<lparr>cmp_context = demo_context, cmp_quotes = [demo_quote Mint, demo_quote Pool],
     cmp_unavailable = [], cmp_recommended = Some Pool\<rparr>"

lemma demo_fields [simp]: "cq_route (demo_quote r) = r" "cx_creator demo_context = ''A''"
  "cmp_context demo_comparison = demo_context" "cmp_quotes demo_comparison = [demo_quote Mint, demo_quote Pool]"
  by (simp_all add: demo_quote_def demo_context_def demo_comparison_def)

theorem approval_binds_plan_witness:
  "\<exists>approval. approveCompoundRoute demo_comparison Pool ''A'' 2000 = Inr approval \<and>
     assertCompoundApproval (demo_quote Pool) approval demo_context ''A'' 3000 = Inr () \<and>
     (3000::int) < cq_expiresAtMs (demo_quote Pool)"
proof -
  let ?ap = "\<lparr>ap_creator = ''A'', ap_route = Pool, ap_quoteBinding = quoteBinding (demo_quote Pool)\<rparr>"
  have "approveCompoundRoute demo_comparison Pool ''A'' 2000 = Inr ?ap"
    by (simp add: approveCompoundRoute_def demo_valid)
  moreover have "assertCompoundApproval (demo_quote Pool) ?ap demo_context ''A'' 3000 = Inr ()"
    by (simp add: assertCompoundApproval_def demo_valid)
  ultimately show ?thesis using approval_binds_plan by blast
qed

text \<open>
  A quote that passes validation spends exactly the earnings budget, deposits no more
  Reserve Tokens than it acquires, promises at least the expected liquidity less the
  approved slippage (within one unit), lists every cost its route must list, and its SOL
  costs stay within the approved maximum.
\<close>

theorem validated_quote_sound:
  assumes "validateCompoundQuote q context now = Inr u"
  shows "cq_acquisitionUsdcRaw q + cq_depositUsdcRaw q + cq_leftoverUsdcRaw q = cx_budgetUsdcRaw context \<and>
    0 < cq_depositUsdcRaw q \<and> cq_depositUsdcRaw q < cx_budgetUsdcRaw context \<and>
    cq_depositReserveNetRaw q \<le> cq_acquiredReserveRaw q \<and>
    cq_expectedLpRaw q * (10000 - cx_slippageBps context) < 10000 * (cq_minimumLpRaw q + 1) \<and>
    set (required_costs (cq_route q)) \<subseteq> cc_kind ` set (cq_costs q) \<and>
    sum_list (map cc_amountRaw (filter (\<lambda>c. cc_unit c = SOL) (cq_costs q))) \<le> cq_maximumSolCostRaw q"
proof -
  from assms have
    v: "\<forall>n \<in> set (quote_amounts q). u64_amount n" "0 < cq_acquisitionUsdcRaw q" "0 < cq_depositUsdcRaw q"
      "cq_acquisitionUsdcRaw q + cq_depositUsdcRaw q + cq_leftoverUsdcRaw q = cx_budgetUsdcRaw context"
      "cq_depositReserveGrossRaw q + cq_leftoverReserveRaw q = cq_acquiredReserveRaw q"
      "cq_depositReserveNetRaw q \<le> cq_depositReserveGrossRaw q"
      "cq_expectedLpRaw q * (10000 - cx_slippageBps context) sdiv 10000 \<le> cq_minimumLpRaw q"
      "\<forall>kind \<in> set (required_costs (cq_route q)). \<exists>c \<in> set (cq_costs q). cc_kind c = kind"
      "sol_costs q \<le> cq_maximumSolCostRaw q" "cx_slippageBps context \<le> 1000"
    by (auto simp: validateCompoundQuote_def validateCompoundContext_def res_iff)
  have left: "0 \<le> cq_leftoverUsdcRaw q" "0 \<le> cq_leftoverReserveRaw q" "0 \<le> cq_expectedLpRaw q"
    using v(1) by (simp_all add: quote_amounts_def u64_amount_def)
  have nonneg: "0 \<le> cq_expectedLpRaw q * (10000 - cx_slippageBps context)" using left v(10) by simp
  define k where "k = cq_expectedLpRaw q * (10000 - cx_slippageBps context)"
  have "k < 10000 * (k div 10000 + 1)" by (rule lt_mult_div_succ) simp
  moreover have "k div 10000 \<le> cq_minimumLpRaw q"
    using v(7) nonneg sdiv_nonneg_eq [of k 10000] unfolding k_def by simp
  then have "10000 * (k div 10000 + 1) \<le> 10000 * (cq_minimumLpRaw q + 1)" by simp
  ultimately have "cq_expectedLpRaw q * (10000 - cx_slippageBps context) < 10000 * (cq_minimumLpRaw q + 1)"
    unfolding k_def [symmetric] by (rule less_le_trans)
  moreover have "foldl (\<lambda>n c. n + cc_amountRaw c) k cs = k + sum_list (map cc_amountRaw cs)" for k and cs :: "compound_cost list"
    by (induction cs arbitrary: k) auto
  ultimately show ?thesis using v left by (auto simp: sol_costs_def)
qed

theorem validated_quote_sound_witness:
  "set (required_costs Pool) \<subseteq> cc_kind ` set (cq_costs (demo_quote Pool))"
  using validated_quote_sound [OF demo_valid [of 2000 Pool]] by simp


lemma settle_route_Inr:
  "settle_route fixed t route result = Inr q \<longleftrightarrow>
     result = Fulfilled q \<and> cq_route q = route \<and> validateCompoundQuote q fixed t = Inr ()"
proof (cases result)
  case (Fulfilled p)
  show ?thesis
  proof (cases "cq_route p = route \<and> validateCompoundQuote p fixed t = Inr ()")
    case True
    then have "p\<lparr>cq_context := fixed\<rparr> = p" using validateCompoundQuote_context [of p fixed t "()"] by auto
    then show ?thesis using True Fulfilled by (auto simp: settle_route_def)
  next
    case False
    then show ?thesis using Fulfilled
      by (cases "validateCompoundQuote p fixed t") (auto simp: settle_route_def require_def)
  qed
qed (simp_all add: settle_route_def)

lemma settle_all_sound:
  assumes "settle_all fixed t rs = (quotes, unavailable)"
  shows "set quotes = {q. \<exists>route. (route, Fulfilled q) \<in> set rs \<and> cq_route q = route \<and>
      validateCompoundQuote q fixed t = Inr ()}"
    "mset (map cq_route quotes) + mset (map fst unavailable) = mset (map fst rs)"
  using assms
proof (induction rs arbitrary: quotes unavailable)
  case (Cons r rs)
  obtain route result where r: "r = (route, result)" by fastforce
  obtain qs un where rest: "settle_all fixed t rs = (qs, un)" by fastforce
  have ok: "settle_route fixed t route result = Inr q \<longleftrightarrow>
      result = Fulfilled q \<and> cq_route q = route \<and> validateCompoundQuote q fixed t = Inr ()" for q
    by (rule settle_route_Inr)
  show "set quotes = {q. \<exists>route. (route, Fulfilled q) \<in> set (r # rs) \<and> cq_route q = route \<and>
      validateCompoundQuote q fixed t = Inr ()}"
    and "mset (map cq_route quotes) + mset (map fst unavailable) = mset (map fst (r # rs))"
    if "settle_all fixed t (r # rs) = (quotes, unavailable)" for quotes unavailable
  proof -
    show "set quotes = {q. \<exists>route. (route, Fulfilled q) \<in> set (r # rs) \<and> cq_route q = route \<and>
        validateCompoundQuote q fixed t = Inr ()}"
    proof (cases "settle_route fixed t route result")
      case (Inl m)
      then have "\<not> (result = Fulfilled q \<and> cq_route q = route \<and> validateCompoundQuote q fixed t = Inr ())" for q
        using ok [of q] by simp
      then have "set qs = {q. \<exists>route. (route, Fulfilled q) \<in> set (r # rs) \<and> cq_route q = route \<and>
          validateCompoundQuote q fixed t = Inr ()}"
        unfolding Cons.IH(1) [OF rest] r by auto
      then show ?thesis using that rest r Inl by simp
    next
      case (Inr q)
      then have "result = Fulfilled q" "cq_route q = route" "validateCompoundQuote q fixed t = Inr ()"
        using ok [of q] by simp_all
      moreover have "settle_all fixed t (r # rs) = (q # qs, un)" by (simp add: r rest Inr)
      then have "quotes = q # qs" using that by simp
      ultimately show ?thesis unfolding \<open>quotes = q # qs\<close> list.set(2) Cons.IH(1) [OF rest] r by auto
    qed
    show "mset (map cq_route quotes) + mset (map fst unavailable) = mset (map fst (r # rs))"
    proof (cases "settle_route fixed t route result")
      case (Inl m)
      have "settle_all fixed t (r # rs) = (qs, (route, m) # un)" by (simp add: r rest Inl)
      with that have "quotes = qs" "unavailable = (route, m) # un" by auto
      then show ?thesis using Cons.IH(2) [OF rest] r by simp
    next
      case (Inr q)
      then have "cq_route q = route" using ok [of q] by simp
      moreover have "settle_all fixed t (r # rs) = (q # qs, un)" by (simp add: r rest Inr)
      ultimately have "quotes = q # qs" "unavailable = un" "cq_route q = route" using that by auto
      then show ?thesis using Cons.IH(2) [OF rest] r by simp
    qed
  qed
qed simp_all

text \<open>
  The comparison reports honestly. Every route is either quoted or listed as
  unavailable and never both; every quote in it is valid for the context at the time of
  the check and is the provider's own answer; and the recommendation, given exactly when
  some route is quoted, is a quoted route that no other quote beats on guaranteed
  liquidity, nor, at equal guarantee, on expected liquidity.
\<close>

theorem comparison_sound:
  assumes "compareCompoundRoutes context providers now = Inr c"
  shows "mset (map cq_route (cmp_quotes c)) + mset (map fst (cmp_unavailable c)) = {#Mint, Pool#} \<and>
    (\<forall>q \<in> set (cmp_quotes c). providers (cq_route q) context = Fulfilled q \<and>
       validateCompoundQuote q context now = Inr ()) \<and>
    (cmp_recommended c = None \<longleftrightarrow> cmp_quotes c = []) \<and>
    (\<forall>route. cmp_recommended c = Some route \<longrightarrow>
       (\<exists>best \<in> set (cmp_quotes c). cq_route best = route \<and>
          (\<forall>q \<in> set (cmp_quotes c). cq_minimumLpRaw q < cq_minimumLpRaw best \<or>
             cq_minimumLpRaw q = cq_minimumLpRaw best \<and> cq_expectedLpRaw q \<le> cq_expectedLpRaw best)))"
proof -
  obtain quotes unavailable
    where s: "settle_all context now (map (\<lambda>route. (route, providers route context)) [Mint, Pool]) = (quotes, unavailable)"
    by fastforce
  from assms s have c: "cmp_quotes c = quotes" "cmp_unavailable c = unavailable"
    "cmp_recommended c = (case sort_by ranked_after quotes of [] \<Rightarrow> None | q # _ \<Rightarrow> Some (cq_route q))"
    by (auto simp: compareCompoundRoutes_def res_iff)
  note sound = settle_all_sound [OF s]
  have "(\<exists>best \<in> set quotes. cq_route best = route \<and> (\<forall>q \<in> set quotes. cq_minimumLpRaw q < cq_minimumLpRaw best \<or>
      cq_minimumLpRaw q = cq_minimumLpRaw best \<and> cq_expectedLpRaw q \<le> cq_expectedLpRaw best))"
    if "cmp_recommended c = Some route" for route
  proof -
    from that c(3) obtain best rest where sorted: "sort_by ranked_after quotes = best # rest" and r: "cq_route best = route"
      by (auto split: list.splits)
    have set_eq: "set quotes = set (best # rest)" using sorted set_sort_by [of ranked_after quotes] by simp
    have "sorted_wrt (\<lambda>x y. \<not> ranked_after x y) (best # rest)"
      using sorted_sort_by [OF ranked_after_comparator, of quotes] sorted by simp
    then have "\<forall>q \<in> set quotes. cq_minimumLpRaw q < cq_minimumLpRaw best \<or>
      cq_minimumLpRaw q = cq_minimumLpRaw best \<and> cq_expectedLpRaw q \<le> cq_expectedLpRaw best"
      unfolding set_eq by (auto simp: ranked_after_def split: if_splits)
    with set_eq r show ?thesis by auto
  qed
  moreover have "sort_by ranked_after quotes = [] \<longleftrightarrow> quotes = []" by (metis length_0_conv length_sort_by)
  ultimately show ?thesis using sound c by (auto split: list.splits)
qed

theorem comparison_sound_witness:
  "\<exists>c. compareCompoundRoutes demo_context (\<lambda>route _. Fulfilled (demo_quote route)) 2000 = Inr c \<and>
     mset (map cq_route (cmp_quotes c)) + mset (map fst (cmp_unavailable c)) = {#Mint, Pool#}"
proof -
  have "validateCompoundContext demo_context = Inr ()"
    by (simp add: validateCompoundContext_def demo_context_def isSafeInteger_def)
  then have "\<exists>c. compareCompoundRoutes demo_context (\<lambda>route _. Fulfilled (demo_quote route)) 2000 = Inr c"
    by (simp add: compareCompoundRoutes_def split: prod.split)
  then obtain c where "compareCompoundRoutes demo_context (\<lambda>route _. Fulfilled (demo_quote route)) 2000 = Inr c" ..
  then show ?thesis using comparison_sound by blast
qed

end
