(* ===== verification/Launchpads.thy ===== *)
theory Launchpads
  imports Solana
begin

text \<open>
  \<open>packages/sdk/src/launchpads.ts\<close>: launchpad provenance from on-chain evidence. The
  account decoders, the pure classifier with its order of precedence, and the fetching
  around it. RPC calls are parameters that may fail.
\<close>

section \<open>Programs, layouts, types\<close>

definition PUMP_PROGRAM_ID :: "web3 \<Rightarrow> pubkey" where
  "PUMP_PROGRAM_ID w = ofBase58 w ''6EF8rrecthR5Dkzon8Nwu78hRvfCKubJ14M5uBEwF6P''"
definition PUMPSWAP_PROGRAM_ID :: "web3 \<Rightarrow> pubkey" where
  "PUMPSWAP_PROGRAM_ID w = ofBase58 w ''pAMMBay6oceH9fJKBRHGP5D4bD4sWpmSwMn52FMfXEA''"
definition RAYDIUM_LAUNCHLAB_PROGRAM_ID :: "web3 \<Rightarrow> pubkey" where
  "RAYDIUM_LAUNCHLAB_PROGRAM_ID w = ofBase58 w ''LanMV9sAd7wArD4vJFi2qDdfnVhFxYSUg6eADduJ3uj''"
definition RAYDIUM_CPMM_PROGRAM_ID :: "web3 \<Rightarrow> pubkey" where
  "RAYDIUM_CPMM_PROGRAM_ID w = ofBase58 w ''CPMMoo8L3F4NbTegBCKVNunggL7H1ZpdTHKxQB5qKP1C''"
definition RAYDIUM_AMM_V4_PROGRAM_ID :: "web3 \<Rightarrow> pubkey" where
  "RAYDIUM_AMM_V4_PROGRAM_ID w = ofBase58 w ''675kPX9MHTjS2zt1qfr1NYHuzeLXfQM9H24wFSUt1Mp8''"
definition METEORA_DBC_PROGRAM_ID :: "web3 \<Rightarrow> pubkey" where
  "METEORA_DBC_PROGRAM_ID w = ofBase58 w ''dbcij3LWUppWqq96dh6gJWwBifmcGfLSB5D4DuSMaqN''"
definition METEORA_DAMM_V1_PROGRAM_ID :: "web3 \<Rightarrow> pubkey" where
  "METEORA_DAMM_V1_PROGRAM_ID w = ofBase58 w ''Eo7WjKq67rjJQSZxS6z3YkapzY3eMj6Xy8X5EQVn5UaB''"
definition METEORA_DAMM_V2_PROGRAM_ID :: "web3 \<Rightarrow> pubkey" where
  "METEORA_DAMM_V2_PROGRAM_ID w = ofBase58 w ''cpamdpZCGKUy5JxQXB4dcpGPiikHawvSWAd6mEn1sGG''"
definition LETSBONK_PLATFORM_CONFIG :: "web3 \<Rightarrow> pubkey" where
  "LETSBONK_PLATFORM_CONFIG w = ofBase58 w ''FfYek5vEz23cMkWsdJwG2oa6EphsvXSHrGpdALN4g6W1''"
definition BAGS_LAUNCH_AUTHORITY :: "web3 \<Rightarrow> pubkey" where
  "BAGS_LAUNCH_AUTHORITY w = ofBase58 w ''BAGSB9TpGrZxQbEsrEznv5jXXdwyP6AXerN8aVRiAmcv''"
definition WRAPPED_SOL_MINT :: "web3 \<Rightarrow> pubkey" where
  "WRAPPED_SOL_MINT w = ofBase58 w ''So11111111111111111111111111111111111111112''"
definition RAYDIUM_LAUNCHLAB_AUTHORITY :: "web3 \<Rightarrow> pubkey" where
  "RAYDIUM_LAUNCHLAB_AUTHORITY w =
     findProgramAddressSync w [buffer_of ''vault_auth_seed''] (RAYDIUM_LAUNCHLAB_PROGRAM_ID w)"

definition DISC_pumpBondingCurve :: bytes where "DISC_pumpBondingCurve = [23, 183, 248, 55, 96, 216, 172, 96]"
definition DISC_pumpSwapPool :: bytes where "DISC_pumpSwapPool = [241, 154, 109, 4, 17, 177, 109, 188]"
definition DISC_launchLabPoolState :: bytes where "DISC_launchLabPoolState = [247, 237, 227, 245, 215, 195, 222, 70]"
definition DISC_dbcVirtualPool :: bytes where "DISC_dbcVirtualPool = [213, 224, 5, 209, 98, 69, 119, 92]"
definition DISC_dbcDammV1MigrationMetadata :: bytes where
  "DISC_dbcDammV1MigrationMetadata = [17, 155, 141, 215, 207, 4, 133, 156]"
definition DISC_dbcDammV2Metadata :: bytes where "DISC_dbcDammV2Metadata = [104, 221, 219, 203, 10, 142, 250, 163]"

datatype launchpad_id = Pump_fun | Letsbonk_fun | Bags_fm
datatype launchpad_stage = Bonding | Graduated
datatype launchpad_venue = Pumpswap | Raydium_cpmm | Raydium_amm_v4 | Meteora_damm_v1 | Meteora_damm_v2

record launchpad_evidence =
  ev_launchAccount :: string
  ev_launchProgram :: string
  ev_platformIdentity :: "string option"
  ev_venueAccount :: "string option"
  ev_venueProgram :: "string option"

record launchpad_provenance =
  pv_launchpad :: launchpad_id
  pv_stage :: launchpad_stage
  pv_venue :: "launchpad_venue option"
  pv_evidence :: launchpad_evidence

section \<open>Address derivation\<close>

definition derivePumpBondingCurve :: "web3 \<Rightarrow> pubkey \<Rightarrow> pubkey" where
  "derivePumpBondingCurve w mint =
     findProgramAddressSync w [buffer_of ''bonding-curve'', mint] (PUMP_PROGRAM_ID w)"

definition derivePumpPoolAuthority :: "web3 \<Rightarrow> pubkey \<Rightarrow> pubkey" where
  "derivePumpPoolAuthority w mint =
     findProgramAddressSync w [buffer_of ''pool-authority'', mint] (PUMP_PROGRAM_ID w)"

definition derivePumpSwapPool :: "web3 \<Rightarrow> int \<Rightarrow> pubkey \<Rightarrow> pubkey \<Rightarrow> pubkey \<Rightarrow> buffer_error + pubkey" where
  "derivePumpSwapPool w index creator baseMint quoteMint =
     rbind (write_le 2 index) (\<lambda>idx.
       Inr (findProgramAddressSync w [buffer_of ''pool'', idx, creator, baseMint, quoteMint]
         (PUMPSWAP_PROGRAM_ID w)))"

definition derivePumpSwapCanonicalPool :: "web3 \<Rightarrow> pubkey \<Rightarrow> pubkey" where
  \<comment> \<open>index 0 always fits its two bytes\<close>
  "derivePumpSwapCanonicalPool w mint =
     (case derivePumpSwapPool w 0 (derivePumpPoolAuthority w mint) mint (WRAPPED_SOL_MINT w) of
        Inr k \<Rightarrow> k | Inl _ \<Rightarrow> [])"

definition deriveLaunchLabPool :: "web3 \<Rightarrow> pubkey \<Rightarrow> pubkey \<Rightarrow> pubkey" where
  "deriveLaunchLabPool w baseMint quoteMint =
     findProgramAddressSync w [buffer_of ''pool'', baseMint, quoteMint] (RAYDIUM_LAUNCHLAB_PROGRAM_ID w)"

text \<open>\<open>Buffer.compare(a, b) < 0\<close>.\<close>

fun bytes_less :: "bytes \<Rightarrow> bytes \<Rightarrow> bool" where
  "bytes_less [] [] = False"
| "bytes_less [] (b # bs) = True"
| "bytes_less (a # as) [] = False"
| "bytes_less (a # as) (b # bs) = (a < b \<or> a = b \<and> bytes_less as bs)"

definition deriveRaydiumCpmmPool :: "web3 \<Rightarrow> pubkey \<Rightarrow> pubkey \<Rightarrow> pubkey \<Rightarrow> pubkey" where
  "deriveRaydiumCpmmPool w ammConfig mintA mintB =
     (let (m0, m1) = (if bytes_less mintA mintB then (mintA, mintB) else (mintB, mintA))
      in findProgramAddressSync w [buffer_of ''pool'', ammConfig, m0, m1] (RAYDIUM_CPMM_PROGRAM_ID w))"

definition deriveDbcDammV1MigrationMetadata :: "web3 \<Rightarrow> pubkey \<Rightarrow> pubkey" where
  "deriveDbcDammV1MigrationMetadata w virtualPool =
     findProgramAddressSync w [buffer_of ''meteora'', virtualPool] (METEORA_DBC_PROGRAM_ID w)"

definition deriveDbcDammV2MigrationMetadata :: "web3 \<Rightarrow> pubkey \<Rightarrow> pubkey" where
  "deriveDbcDammV2MigrationMetadata w virtualPool =
     findProgramAddressSync w [buffer_of ''damm_v2'', virtualPool] (METEORA_DBC_PROGRAM_ID w)"

section \<open>Decoders\<close>

definition hasDiscriminator :: "bytes \<Rightarrow> bytes \<Rightarrow> bool" where
  "hasDiscriminator d disc \<longleftrightarrow> \<not> length d < 8 \<and> (\<forall>i \<in> set [0..<8]. d ! i = disc ! i)"

definition pk :: "bytes \<Rightarrow> nat \<Rightarrow> pubkey" where
  "pk d off = subarray d off (off + 32)"

record pump_bonding_curve =
  bc_complete :: bool
  bc_creator :: "string option"

definition decodePumpBondingCurve :: "web3 \<Rightarrow> account \<Rightarrow> pump_bonding_curve option" where
  "decodePumpBondingCurve w acc =
     (if acc_owner acc \<noteq> PUMP_PROGRAM_ID w \<or> \<not> hasDiscriminator (acc_data acc) DISC_pumpBondingCurve \<or>
         length (acc_data acc) < 49 then None
      else Some \<lparr>bc_complete = (acc_data acc ! 48 = 1),
        bc_creator = (if length (acc_data acc) \<ge> 49 + 32 then Some (toBase58 w (pk (acc_data acc) 49)) else None)\<rparr>)"

record pump_swap_pool =
  ps_index :: int
  ps_creator :: string
  ps_baseMint :: string
  ps_quoteMint :: string

definition decodePumpSwapPool :: "web3 \<Rightarrow> account \<Rightarrow> pump_swap_pool option" where
  "decodePumpSwapPool w acc =
     (if acc_owner acc \<noteq> PUMPSWAP_PROGRAM_ID w \<or> \<not> hasDiscriminator (acc_data acc) DISC_pumpSwapPool \<or>
         length (acc_data acc) < 107 then None
      else case readUInt16LE (acc_data acc) 9 of
        Inl _ \<Rightarrow> None
      | Inr index \<Rightarrow> Some \<lparr>ps_index = index, ps_creator = toBase58 w (pk (acc_data acc) 11),
          ps_baseMint = toBase58 w (pk (acc_data acc) 43), ps_quoteMint = toBase58 w (pk (acc_data acc) 75)\<rparr>)"

record launch_lab_pool_state =
  ll_status :: byte
  ll_migrateType :: byte
  ll_platformConfig :: string
  ll_baseMint :: string
  ll_quoteMint :: string
  ll_creator :: string

definition decodeLaunchLabPoolState :: "web3 \<Rightarrow> account \<Rightarrow> launch_lab_pool_state option" where
  "decodeLaunchLabPoolState w acc =
     (if acc_owner acc \<noteq> RAYDIUM_LAUNCHLAB_PROGRAM_ID w \<or>
         \<not> hasDiscriminator (acc_data acc) DISC_launchLabPoolState \<or> length (acc_data acc) < 429 then None
      else Some \<lparr>ll_status = acc_data acc ! 17, ll_migrateType = acc_data acc ! 20,
        ll_platformConfig = toBase58 w (pk (acc_data acc) 173), ll_baseMint = toBase58 w (pk (acc_data acc) 205),
        ll_quoteMint = toBase58 w (pk (acc_data acc) 237), ll_creator = toBase58 w (pk (acc_data acc) 333)\<rparr>)"

record raydium_cpmm_pool =
  rc_ammConfig :: string
  rc_poolCreator :: string
  rc_token0Mint :: string
  rc_token1Mint :: string

definition decodeRaydiumCpmmPool :: "web3 \<Rightarrow> account \<Rightarrow> raydium_cpmm_pool option" where
  "decodeRaydiumCpmmPool w acc =
     (if acc_owner acc \<noteq> RAYDIUM_CPMM_PROGRAM_ID w \<or> length (acc_data acc) < 232 then None
      else Some \<lparr>rc_ammConfig = toBase58 w (pk (acc_data acc) 8), rc_poolCreator = toBase58 w (pk (acc_data acc) 40),
        rc_token0Mint = toBase58 w (pk (acc_data acc) 168), rc_token1Mint = toBase58 w (pk (acc_data acc) 200)\<rparr>)"

record dbc_virtual_pool =
  db_config :: string
  db_creator :: string
  db_baseMint :: string
  db_poolType :: byte
  db_isMigrated :: bool
  db_migrationProgress :: byte

definition decodeDbcVirtualPool :: "web3 \<Rightarrow> account \<Rightarrow> dbc_virtual_pool option" where
  "decodeDbcVirtualPool w acc =
     (if acc_owner acc \<noteq> METEORA_DBC_PROGRAM_ID w \<or> \<not> hasDiscriminator (acc_data acc) DISC_dbcVirtualPool \<or>
         length (acc_data acc) < 424 then None
      else Some \<lparr>db_config = toBase58 w (pk (acc_data acc) 72), db_creator = toBase58 w (pk (acc_data acc) 104),
        db_baseMint = toBase58 w (pk (acc_data acc) 136), db_poolType = acc_data acc ! 304,
        db_isMigrated = (acc_data acc ! 305 = 1), db_migrationProgress = acc_data acc ! 308\<rparr>)"

section \<open>The classifier\<close>

record dbc_metadata =
  md_dammV1 :: "account option"
  md_dammV2 :: "account option"

record account_set =
  as_pumpBondingCurve :: "account option"
  as_pumpSwapCanonicalPool :: "account option"
  as_launchLabPool :: "account option"
  as_raydiumCpmmPools :: "account list"
  as_dbcVirtualPools :: "account list"
  as_dbcMigrationMetadata :: "(string \<times> dbc_metadata) list"

definition canonical_pump_pool :: "web3 \<Rightarrow> pubkey \<Rightarrow> account option \<Rightarrow> bool" where
  "canonical_pump_pool w mint poolAcc =
     (case poolAcc of
        None \<Rightarrow> False
      | Some acc \<Rightarrow>
          (case decodePumpSwapPool w acc of
             None \<Rightarrow> False
           | Some pool \<Rightarrow> acc_address acc = derivePumpSwapCanonicalPool w mint \<and> ps_index pool = 0 \<and>
               ps_creator pool = toBase58 w (derivePumpPoolAuthority w mint) \<and>
               ps_baseMint pool = toBase58 w mint))"

definition classify_pump :: "web3 \<Rightarrow> pubkey \<Rightarrow> account_set \<Rightarrow> launchpad_provenance option" where
  "classify_pump w mint accounts =
     (case as_pumpBondingCurve accounts of
        None \<Rightarrow> None
      | Some acc \<Rightarrow>
          (case decodePumpBondingCurve w acc of
             None \<Rightarrow> None
           | Some curve \<Rightarrow>
               if acc_address acc \<noteq> derivePumpBondingCurve w mint then None
               else
                 let evidence = \<lparr>ev_launchAccount = toBase58 w (acc_address acc),
                       ev_launchProgram = toBase58 w (PUMP_PROGRAM_ID w), ev_platformIdentity = None,
                       ev_venueAccount = None, ev_venueProgram = None\<rparr> in
                 if \<not> bc_complete curve then
                   Some \<lparr>pv_launchpad = Pump_fun, pv_stage = Bonding, pv_venue = None, pv_evidence = evidence\<rparr>
                 else if canonical_pump_pool w mint (as_pumpSwapCanonicalPool accounts) then
                   Some \<lparr>pv_launchpad = Pump_fun, pv_stage = Graduated, pv_venue = Some Pumpswap,
                     pv_evidence = evidence\<lparr>
                       ev_venueAccount := map_option (\<lambda>a. toBase58 w (acc_address a)) (as_pumpSwapCanonicalPool accounts),
                       ev_venueProgram := Some (toBase58 w (PUMPSWAP_PROGRAM_ID w))\<rparr>\<rparr>
                 else Some \<lparr>pv_launchpad = Pump_fun, pv_stage = Graduated, pv_venue = None,
                        pv_evidence = evidence\<rparr>))"

text \<open>The loop over CPMM pools: the first pool LaunchLab's authority created for the mint.\<close>

definition launchlab_cpmm_pool :: "web3 \<Rightarrow> pubkey \<Rightarrow> account \<Rightarrow> bool" where
  "launchlab_cpmm_pool w mint acc =
     (case decodeRaydiumCpmmPool w acc of
        None \<Rightarrow> False
      | Some p \<Rightarrow>
          rc_poolCreator p = toBase58 w (RAYDIUM_LAUNCHLAB_AUTHORITY w) \<and>
          \<not> (rc_token0Mint p \<noteq> toBase58 w mint \<and> rc_token1Mint p \<noteq> toBase58 w mint) \<and>
          acc_address acc = deriveRaydiumCpmmPool w (ofBase58 w (rc_ammConfig p))
            (ofBase58 w (rc_token0Mint p)) (ofBase58 w (rc_token1Mint p)))"

definition classify_letsbonk :: "web3 \<Rightarrow> pubkey \<Rightarrow> account_set \<Rightarrow> launchpad_provenance option" where
  "classify_letsbonk w mint accounts =
     (case as_launchLabPool accounts of
        None \<Rightarrow> None
      | Some acc \<Rightarrow>
          (case decodeLaunchLabPoolState w acc of
             None \<Rightarrow> None
           | Some state \<Rightarrow>
               if acc_address acc \<noteq> deriveLaunchLabPool w mint (ofBase58 w (ll_quoteMint state)) \<or>
                  ll_baseMint state \<noteq> toBase58 w mint \<or>
                  ll_platformConfig state \<noteq> toBase58 w (LETSBONK_PLATFORM_CONFIG w) then None
               else
                 let evidence = \<lparr>ev_launchAccount = toBase58 w (acc_address acc),
                       ev_launchProgram = toBase58 w (RAYDIUM_LAUNCHLAB_PROGRAM_ID w),
                       ev_platformIdentity = Some (toBase58 w (LETSBONK_PLATFORM_CONFIG w)),
                       ev_venueAccount = None, ev_venueProgram = None\<rparr> in
                 if ll_status state \<noteq> 2 then
                   Some \<lparr>pv_launchpad = Letsbonk_fun, pv_stage = Bonding, pv_venue = None, pv_evidence = evidence\<rparr>
                 else if ll_migrateType state = 1 then
                   (case find (launchlab_cpmm_pool w mint) (as_raydiumCpmmPools accounts) of
                      Some pool \<Rightarrow>
                        Some \<lparr>pv_launchpad = Letsbonk_fun, pv_stage = Graduated, pv_venue = Some Raydium_cpmm,
                          pv_evidence = evidence\<lparr>ev_venueAccount := Some (toBase58 w (acc_address pool)),
                            ev_venueProgram := Some (toBase58 w (RAYDIUM_CPMM_PROGRAM_ID w))\<rparr>\<rparr>
                    | None \<Rightarrow>
                        Some \<lparr>pv_launchpad = Letsbonk_fun, pv_stage = Graduated, pv_venue = None,
                          pv_evidence = evidence\<rparr>)
                 else Some \<lparr>pv_launchpad = Letsbonk_fun, pv_stage = Graduated, pv_venue = Some Raydium_amm_v4,
                        pv_evidence = evidence\<lparr>
                          ev_venueProgram := Some (toBase58 w (RAYDIUM_AMM_V4_PROGRAM_ID w))\<rparr>\<rparr>))"

definition bags_pool :: "web3 \<Rightarrow> pubkey \<Rightarrow> account \<Rightarrow> bool" where
  "bags_pool w mint acc =
     (case decodeDbcVirtualPool w acc of
        None \<Rightarrow> False
      | Some pool \<Rightarrow> db_baseMint pool = toBase58 w mint \<and> db_creator pool = toBase58 w (BAGS_LAUNCH_AUTHORITY w))"

definition is_metadata :: "web3 \<Rightarrow> bytes \<Rightarrow> pubkey \<Rightarrow> account option \<Rightarrow> bool" where
  "is_metadata w disc address mdata =
     (case mdata of None \<Rightarrow> False
      | Some v \<Rightarrow> acc_owner v = METEORA_DBC_PROGRAM_ID w \<and> hasDiscriminator (acc_data v) disc \<and>
          acc_address v = address)"

definition classify_bags :: "web3 \<Rightarrow> pubkey \<Rightarrow> account_set \<Rightarrow> launchpad_provenance option" where
  "classify_bags w mint accounts =
     (case find (bags_pool w mint) (as_dbcVirtualPools accounts) of
        None \<Rightarrow> None
      | Some acc \<Rightarrow>
          let evidence = \<lparr>ev_launchAccount = toBase58 w (acc_address acc),
                ev_launchProgram = toBase58 w (METEORA_DBC_PROGRAM_ID w),
                ev_platformIdentity = Some (toBase58 w (BAGS_LAUNCH_AUTHORITY w)),
                ev_venueAccount = None, ev_venueProgram = None\<rparr>;
              migrated = (case decodeDbcVirtualPool w acc of Some pool \<Rightarrow> db_isMigrated pool | None \<Rightarrow> False);
              mdata = dget (as_dbcMigrationMetadata accounts) (toBase58 w (acc_address acc));
              v2 = (case mdata of Some m \<Rightarrow> md_dammV2 m | None \<Rightarrow> None);
              v1 = (case mdata of Some m \<Rightarrow> md_dammV1 m | None \<Rightarrow> None) in
          if \<not> migrated then
            Some \<lparr>pv_launchpad = Bags_fm, pv_stage = Bonding, pv_venue = None, pv_evidence = evidence\<rparr>
          else if is_metadata w DISC_dbcDammV2Metadata (deriveDbcDammV2MigrationMetadata w (acc_address acc)) v2 then
            Some \<lparr>pv_launchpad = Bags_fm, pv_stage = Graduated, pv_venue = Some Meteora_damm_v2,
              pv_evidence = evidence\<lparr>ev_venueProgram := Some (toBase58 w (METEORA_DAMM_V2_PROGRAM_ID w)),
                ev_venueAccount := map_option (\<lambda>v. toBase58 w (acc_address v)) v2\<rparr>\<rparr>
          else if is_metadata w DISC_dbcDammV1MigrationMetadata (deriveDbcDammV1MigrationMetadata w (acc_address acc)) v1 then
            Some \<lparr>pv_launchpad = Bags_fm, pv_stage = Graduated, pv_venue = Some Meteora_damm_v1,
              pv_evidence = evidence\<lparr>ev_venueProgram := Some (toBase58 w (METEORA_DAMM_V1_PROGRAM_ID w)),
                ev_venueAccount := map_option (\<lambda>v. toBase58 w (acc_address v)) v1\<rparr>\<rparr>
          else Some \<lparr>pv_launchpad = Bags_fm, pv_stage = Graduated, pv_venue = None, pv_evidence = evidence\<rparr>)"

definition classifyLaunchpad :: "web3 \<Rightarrow> pubkey \<Rightarrow> account_set \<Rightarrow> launchpad_provenance option" where
  "classifyLaunchpad w mint accounts =
     (case classify_pump w mint accounts of
        Some p \<Rightarrow> Some p
      | None \<Rightarrow> (case classify_letsbonk w mint accounts of
          Some p \<Rightarrow> Some p
        | None \<Rightarrow> classify_bags w mint accounts))"

section \<open>Fetching\<close>

text \<open>
  \<open>Connection\<close>: an answer or a thrown RPC error. \<open>getProgramAccounts\<close> takes the program,
  the data slice (offset, length) and the \<open>memcmp\<close> filters (offset, base58 bytes).
\<close>

record connection =
  getMultipleAccountsInfo :: "pubkey list \<Rightarrow> string + (pubkey \<times> bytes) option list"
  getProgramAccounts :: "pubkey \<Rightarrow> nat \<times> nat \<Rightarrow> (nat \<times> string) list \<Rightarrow> string + account list"

definition toAccountLike :: "pubkey \<Rightarrow> (pubkey \<times> bytes) option \<Rightarrow> account option" where
  "toAccountLike address info =
     (case info of None \<Rightarrow> None
      | Some (owner, d) \<Rightarrow> Some \<lparr>acc_address = address, acc_owner = owner, acc_data = d\<rparr>)"

definition nth_info :: "'a option list \<Rightarrow> nat \<Rightarrow> 'a option" where
  \<comment> \<open>reading past the end of the answer gives \<open>undefined\<close>\<close>
  "nth_info xs i = (if i < length xs then xs ! i else None)"

definition empty_set :: account_set where
  "empty_set = \<lparr>as_pumpBondingCurve = None, as_pumpSwapCanonicalPool = None, as_launchLabPool = None,
     as_raydiumCpmmPools = [], as_dbcVirtualPools = [], as_dbcMigrationMetadata = []\<rparr>"

definition fetch_cpmm_pools :: "web3 \<Rightarrow> connection \<Rightarrow> pubkey \<Rightarrow> string + account list" where
  "fetch_cpmm_pools w conn mint =
     rbind (rmap (\<lambda>off. getProgramAccounts conn (RAYDIUM_CPMM_PROGRAM_ID w) (0, 232)
         [(40, toBase58 w (RAYDIUM_LAUNCHLAB_AUTHORITY w)), (off, toBase58 w mint)]) [168, 200])
       (\<lambda>rs. Inr (concat rs))"

definition is_migrated :: "web3 \<Rightarrow> account \<Rightarrow> bool" where
  "is_migrated w a = (case decodeDbcVirtualPool w a of Some p \<Rightarrow> db_isMigrated p | None \<Rightarrow> False)"

fun metadata_entries :: "web3 \<Rightarrow> account list \<Rightarrow> (pubkey \<times> bytes) option list \<Rightarrow> nat \<Rightarrow>
    (string \<times> dbc_metadata) list \<Rightarrow> (string \<times> dbc_metadata) list" where
  "metadata_entries w [] infos i acc = acc"
| "metadata_entries w (a # rest) infos i acc =
     metadata_entries w rest infos (i + 1)
       (dput (toBase58 w (acc_address a))
         \<lparr>md_dammV1 = toAccountLike (deriveDbcDammV1MigrationMetadata w (acc_address a)) (nth_info infos (i * 2)),
          md_dammV2 = toAccountLike (deriveDbcDammV2MigrationMetadata w (acc_address a)) (nth_info infos (i * 2 + 1))\<rparr> acc)"

definition detectLaunchpad :: "web3 \<Rightarrow> connection \<Rightarrow> pubkey \<Rightarrow> string + launchpad_provenance option" where
  "detectLaunchpad w conn mint =
     (let bondingCurve = derivePumpBondingCurve w mint;
          canonicalPool = derivePumpSwapCanonicalPool w mint;
          launchLabPool = deriveLaunchLabPool w mint (WRAPPED_SOL_MINT w) in
      rbind (getMultipleAccountsInfo conn [bondingCurve, canonicalPool, launchLabPool]) (\<lambda>infos.
        let s = empty_set\<lparr>as_pumpBondingCurve := toAccountLike bondingCurve (nth_info infos 0),
                  as_pumpSwapCanonicalPool := toAccountLike canonicalPool (nth_info infos 1),
                  as_launchLabPool := toAccountLike launchLabPool (nth_info infos 2)\<rparr> in
        if as_pumpBondingCurve s \<noteq> None then Inr (classifyLaunchpad w mint s)
        else case as_launchLabPool s of
          Some pool \<Rightarrow>
            (case decodeLaunchLabPoolState w pool of
               Some state \<Rightarrow>
                 if ll_status state = 2 \<and> ll_migrateType state = 1 then
                   rbind (fetch_cpmm_pools w conn mint) (\<lambda>pools.
                     Inr (classifyLaunchpad w mint (s\<lparr>as_raydiumCpmmPools := pools\<rparr>)))
                 else Inr (classifyLaunchpad w mint s)
             | None \<Rightarrow> Inr (classifyLaunchpad w mint s))
        | None \<Rightarrow>
            rbind (getProgramAccounts conn (METEORA_DBC_PROGRAM_ID w) (0, 424)
                [(104, toBase58 w (BAGS_LAUNCH_AUTHORITY w)), (136, toBase58 w mint)]) (\<lambda>pools.
              let migrated = filter (is_migrated w) pools in
              if migrated \<noteq> [] then
                rbind (getMultipleAccountsInfo conn (concat (map (\<lambda>a.
                    [deriveDbcDammV1MigrationMetadata w (acc_address a),
                     deriveDbcDammV2MigrationMetadata w (acc_address a)]) migrated))) (\<lambda>metas.
                  Inr (classifyLaunchpad w mint (s\<lparr>as_dbcVirtualPools := pools,
                    as_dbcMigrationMetadata := metadata_entries w migrated metas 0 []\<rparr>)))
              else Inr (classifyLaunchpad w mint (s\<lparr>as_dbcVirtualPools := pools\<rparr>)))))"

section \<open>Properties\<close>

lemma hasDiscriminator_iff: "length disc = 8 \<Longrightarrow> hasDiscriminator d disc \<longleftrightarrow> (\<exists>rest. d = disc @ rest)"
proof
  assume len: "length disc = 8" and h: "hasDiscriminator d disc"
  then have "8 \<le> length d" "\<And>i. i < 8 \<Longrightarrow> d ! i = disc ! i" by (auto simp: hasDiscriminator_def)
  then have "take 8 d = disc" using len by (intro nth_equalityI) auto
  then show "\<exists>rest. d = disc @ rest" by (metis append_take_drop_id)
next
  assume "length disc = 8" "\<exists>rest. d = disc @ rest"
  then show "hasDiscriminator d disc" by (auto simp: hasDiscriminator_def nth_append)
qed

text \<open>What each kind of verdict rests on.\<close>

definition pump_evidence :: "web3 \<Rightarrow> pubkey \<Rightarrow> account \<Rightarrow> bool" where
  "pump_evidence w mint acc \<longleftrightarrow> acc_owner acc = PUMP_PROGRAM_ID w \<and>
     acc_address acc = derivePumpBondingCurve w mint \<and> (\<exists>r. acc_data acc = DISC_pumpBondingCurve @ r)"

definition letsbonk_evidence :: "web3 \<Rightarrow> pubkey \<Rightarrow> account \<Rightarrow> bool" where
  "letsbonk_evidence w mint acc \<longleftrightarrow> acc_owner acc = RAYDIUM_LAUNCHLAB_PROGRAM_ID w \<and>
     (\<exists>r. acc_data acc = DISC_launchLabPoolState @ r) \<and>
     toBase58 w (pk (acc_data acc) 205) = toBase58 w mint \<and>
     toBase58 w (pk (acc_data acc) 173) = toBase58 w (LETSBONK_PLATFORM_CONFIG w) \<and>
     acc_address acc = deriveLaunchLabPool w mint (ofBase58 w (toBase58 w (pk (acc_data acc) 237)))"

definition bags_evidence :: "web3 \<Rightarrow> pubkey \<Rightarrow> account \<Rightarrow> bool" where
  "bags_evidence w mint acc \<longleftrightarrow> acc_owner acc = METEORA_DBC_PROGRAM_ID w \<and>
     (\<exists>r. acc_data acc = DISC_dbcVirtualPool @ r) \<and>
     toBase58 w (pk (acc_data acc) 136) = toBase58 w mint \<and>
     toBase58 w (pk (acc_data acc) 104) = toBase58 w (BAGS_LAUNCH_AUTHORITY w)"

lemmas disc_defs = DISC_pumpBondingCurve_def DISC_launchLabPoolState_def DISC_dbcVirtualPool_def

lemma classify_pump_sound:
  assumes "classify_pump w mint s = Some p"
  shows "\<exists>acc. as_pumpBondingCurve s = Some acc \<and> pump_evidence w mint acc \<and> pv_launchpad p = Pump_fun \<and>
    ev_launchAccount (pv_evidence p) = toBase58 w (acc_address acc) \<and>
    (pv_stage p = Graduated \<longleftrightarrow> acc_data acc ! 48 = 1) \<and> (pv_venue p \<noteq> None \<longrightarrow> pv_stage p = Graduated)"
  using assms
  by (auto simp: classify_pump_def decodePumpBondingCurve_def pump_evidence_def Let_def
      hasDiscriminator_iff disc_defs split: option.splits if_splits)

lemma classify_letsbonk_sound:
  assumes "classify_letsbonk w mint s = Some p"
  shows "\<exists>acc. as_launchLabPool s = Some acc \<and> letsbonk_evidence w mint acc \<and> pv_launchpad p = Letsbonk_fun \<and>
    ev_launchAccount (pv_evidence p) = toBase58 w (acc_address acc) \<and>
    (pv_stage p = Graduated \<longleftrightarrow> acc_data acc ! 17 = 2) \<and> (pv_venue p \<noteq> None \<longrightarrow> pv_stage p = Graduated)"
  using assms
  by (auto simp: classify_letsbonk_def decodeLaunchLabPoolState_def letsbonk_evidence_def Let_def
      hasDiscriminator_iff disc_defs split: option.splits if_splits)

lemma bags_pool_evidence: "bags_pool w mint acc \<Longrightarrow> bags_evidence w mint acc"
  by (auto simp: bags_pool_def bags_evidence_def decodeDbcVirtualPool_def hasDiscriminator_iff disc_defs
      split: option.splits if_splits)

lemma classify_bags_sound:
  assumes "classify_bags w mint s = Some p"
  shows "\<exists>acc \<in> set (as_dbcVirtualPools s). bags_evidence w mint acc \<and> pv_launchpad p = Bags_fm \<and>
    ev_launchAccount (pv_evidence p) = toBase58 w (acc_address acc) \<and>
    (pv_stage p = Graduated \<longleftrightarrow> acc_data acc ! 305 = 1) \<and> (pv_venue p \<noteq> None \<longrightarrow> pv_stage p = Graduated)"
proof -
  from assms obtain acc where f: "find (bags_pool w mint) (as_dbcVirtualPools s) = Some acc"
    by (auto simp: classify_bags_def split: option.splits)
  then have acc: "acc \<in> set (as_dbcVirtualPools s)" "bags_pool w mint acc"
    by (auto simp: find_Some_iff)
  from acc(2) have "decodeDbcVirtualPool w acc \<noteq> None" by (auto simp: bags_pool_def split: option.splits)
  then have "(case decodeDbcVirtualPool w acc of Some pool \<Rightarrow> db_isMigrated pool | None \<Rightarrow> False) =
      (acc_data acc ! 305 = 1)"
    by (auto simp: decodeDbcVirtualPool_def split: if_splits)
  then show ?thesis using assms f acc bags_pool_evidence [OF acc(2)]
    by (intro bexI [of _ acc]) (auto simp: classify_bags_def Let_def split: if_splits)
qed

text \<open>
  C17: A token is attributed to a launchpad only on evidence. Whatever accounts the
  classifier is given, a verdict rests on one of them that is owned by the launch program,
  starts with that program's discriminator, sits at the address derived for the mint
  (Pump.fun, LetsBONK.fun) or names the mint and the platform's own identity
  (LetsBONK.fun, Bags.fm); the evidence names that account, the stage is what its
  graduation byte says, and a venue is only named after graduation.
\<close>

theorem classify_rests_on_evidence:
  assumes "classifyLaunchpad w mint s = Some p"
  shows "\<exists>acc. ev_launchAccount (pv_evidence p) = toBase58 w (acc_address acc) \<and>
    (pv_venue p \<noteq> None \<longrightarrow> pv_stage p = Graduated) \<and>
    (case pv_launchpad p of
       Pump_fun \<Rightarrow> as_pumpBondingCurve s = Some acc \<and> pump_evidence w mint acc \<and>
         (pv_stage p = Graduated \<longleftrightarrow> acc_data acc ! 48 = 1)
     | Letsbonk_fun \<Rightarrow> as_launchLabPool s = Some acc \<and> letsbonk_evidence w mint acc \<and>
         (pv_stage p = Graduated \<longleftrightarrow> acc_data acc ! 17 = 2)
     | Bags_fm \<Rightarrow> acc \<in> set (as_dbcVirtualPools s) \<and> bags_evidence w mint acc \<and>
         (pv_stage p = Graduated \<longleftrightarrow> acc_data acc ! 305 = 1))"
proof -
  from assms consider "classify_pump w mint s = Some p" | "classify_letsbonk w mint s = Some p"
    | "classify_bags w mint s = Some p"
    by (auto simp: classifyLaunchpad_def split: option.splits)
  then show ?thesis
  proof cases
    case 1
    then obtain acc where "as_pumpBondingCurve s = Some acc \<and> pump_evidence w mint acc \<and> pv_launchpad p = Pump_fun \<and>
      ev_launchAccount (pv_evidence p) = toBase58 w (acc_address acc) \<and>
      (pv_stage p = Graduated \<longleftrightarrow> acc_data acc ! 48 = 1) \<and> (pv_venue p \<noteq> None \<longrightarrow> pv_stage p = Graduated)"
      using classify_pump_sound by blast
    then show ?thesis by (intro exI [of _ acc]) simp
  next
    case 2
    then obtain acc where "as_launchLabPool s = Some acc \<and> letsbonk_evidence w mint acc \<and>
      pv_launchpad p = Letsbonk_fun \<and> ev_launchAccount (pv_evidence p) = toBase58 w (acc_address acc) \<and>
      (pv_stage p = Graduated \<longleftrightarrow> acc_data acc ! 17 = 2) \<and> (pv_venue p \<noteq> None \<longrightarrow> pv_stage p = Graduated)"
      using classify_letsbonk_sound by blast
    then show ?thesis by (intro exI [of _ acc]) simp
  next
    case 3
    then obtain acc where "acc \<in> set (as_dbcVirtualPools s) \<and> bags_evidence w mint acc \<and>
      pv_launchpad p = Bags_fm \<and> ev_launchAccount (pv_evidence p) = toBase58 w (acc_address acc) \<and>
      (pv_stage p = Graduated \<longleftrightarrow> acc_data acc ! 305 = 1) \<and> (pv_venue p \<noteq> None \<longrightarrow> pv_stage p = Graduated)"
      using classify_bags_sound by blast
    then show ?thesis by (intro exI [of _ acc]) simp
  qed
qed

definition demo_web3 :: web3 where
  "demo_web3 = \<lparr>findProgramAddressSync = (\<lambda>seeds pid. take 32 (concat seeds)), toBase58 = (\<lambda>k. map (\<lambda>b. char_of (unat b)) k),
     ofBase58 = (\<lambda>s. map of_char s), associatedTokenAddress = (\<lambda>m u t. []), isOnCurve = (\<lambda>k. True)\<rparr>"

definition demo_mint :: pubkey where "demo_mint = replicate 32 9"

definition demo_curve :: account where
  "demo_curve = \<lparr>acc_address = derivePumpBondingCurve demo_web3 demo_mint,
     acc_owner = PUMP_PROGRAM_ID demo_web3, acc_data = DISC_pumpBondingCurve @ replicate 41 1\<rparr>"

lemma demo_classify:
  "classify_pump demo_web3 demo_mint (empty_set\<lparr>as_pumpBondingCurve := Some demo_curve\<rparr>) =
     Some \<lparr>pv_launchpad = Pump_fun, pv_stage = Graduated, pv_venue = None,
       pv_evidence = \<lparr>ev_launchAccount = toBase58 demo_web3 (acc_address demo_curve),
         ev_launchProgram = toBase58 demo_web3 (PUMP_PROGRAM_ID demo_web3), ev_platformIdentity = None,
         ev_venueAccount = None, ev_venueProgram = None\<rparr>\<rparr>"
proof -
  have "acc_data demo_curve ! 48 = 1" "hasDiscriminator (acc_data demo_curve) DISC_pumpBondingCurve"
    "length (acc_data demo_curve) = 49" "acc_owner demo_curve = PUMP_PROGRAM_ID demo_web3"
    "acc_address demo_curve = derivePumpBondingCurve demo_web3 demo_mint"
    by (simp_all add: demo_curve_def hasDiscriminator_iff disc_defs nth_append)
  then show ?thesis
    by (simp add: classify_pump_def decodePumpBondingCurve_def canonical_pump_pool_def empty_set_def Let_def)
qed

theorem classify_rests_on_evidence_witness:
  "\<exists>p (acc :: account). classifyLaunchpad demo_web3 demo_mint (empty_set\<lparr>as_pumpBondingCurve := Some demo_curve\<rparr>) = Some p \<and>
     ev_launchAccount (pv_evidence p) = toBase58 demo_web3 (acc_address acc)"
proof -
  obtain p where p: "classifyLaunchpad demo_web3 demo_mint (empty_set\<lparr>as_pumpBondingCurve := Some demo_curve\<rparr>) = Some p"
    by (simp add: classifyLaunchpad_def demo_classify)
  from classify_rests_on_evidence [OF p] obtain acc :: account
    where "ev_launchAccount (pv_evidence p) = toBase58 demo_web3 (acc_address acc)" by blast
  with p show ?thesis by blast
qed

text \<open>
  The original launch wins. If the account given as the bonding curve is genuine, the
  verdict is Pump.fun whatever else an adversary has created for the mint: no LaunchLab
  pool, CPMM pool, virtual pool or metadata account changes the verdict.
\<close>

theorem genuine_bonding_curve_wins:
  assumes "as_pumpBondingCurve s = Some acc" "pump_evidence w mint acc" "49 \<le> length (acc_data acc)"
  shows "\<exists>p. classifyLaunchpad w mint s = Some p \<and> pv_launchpad p = Pump_fun \<and>
    (\<forall>ll pools dbc md. classifyLaunchpad w mint (s\<lparr>as_launchLabPool := ll, as_raydiumCpmmPools := pools,
       as_dbcVirtualPools := dbc, as_dbcMigrationMetadata := md\<rparr>) = Some p)"
proof -
  have "decodePumpBondingCurve w acc \<noteq> None"
    using assms by (auto simp: decodePumpBondingCurve_def pump_evidence_def hasDiscriminator_iff disc_defs)
  then have "\<exists>p. classify_pump w mint s = Some p"
    using assms by (auto simp: classify_pump_def pump_evidence_def Let_def)
  then obtain p where p: "classify_pump w mint s = Some p" ..
  have "classify_pump w mint (s\<lparr>as_launchLabPool := ll, as_raydiumCpmmPools := pools,
      as_dbcVirtualPools := dbc, as_dbcMigrationMetadata := md\<rparr>) = classify_pump w mint s" for ll pools dbc md
    by (simp add: classify_pump_def Let_def split: option.split)
  with p classify_pump_sound [OF p] show ?thesis by (auto simp: classifyLaunchpad_def)
qed

theorem genuine_bonding_curve_wins_witness:
  "\<exists>p. classifyLaunchpad demo_web3 demo_mint (empty_set\<lparr>as_pumpBondingCurve := Some demo_curve\<rparr>) = Some p \<and>
     pv_launchpad p = Pump_fun"
proof -
  have "pump_evidence demo_web3 demo_mint demo_curve" "49 \<le> length (acc_data demo_curve)"
    by (simp_all add: pump_evidence_def demo_curve_def disc_defs)
  then have "\<exists>p. classifyLaunchpad demo_web3 demo_mint (empty_set\<lparr>as_pumpBondingCurve := Some demo_curve\<rparr>) = Some p \<and>
     pv_launchpad p = Pump_fun \<and>
    (\<forall>ll pools dbc md. classifyLaunchpad demo_web3 demo_mint (empty_set\<lparr>as_pumpBondingCurve := Some demo_curve,
       as_launchLabPool := ll, as_raydiumCpmmPools := pools,
       as_dbcVirtualPools := dbc, as_dbcMigrationMetadata := md\<rparr>) = Some p)"
    by (intro genuine_bonding_curve_wins [where acc = demo_curve]) simp_all
  then show ?thesis by (elim exE conjE) (intro exI conjI, assumption+)
qed

text \<open>
  C36: The fetcher stops as soon as \<^emph>\<open>any\<close> account exists at the bonding-curve address. If
  that account is not the launch program's (lamports sent to the address make such an
  account, owned by the system program) and no LaunchLab pool exists, the answer is that
  the token has no launchpad, and the Bags.fm pools are never looked up, whatever they are.
\<close>

theorem occupied_pump_address_hides_bags:
  assumes "getMultipleAccountsInfo conn [derivePumpBondingCurve w mint, derivePumpSwapCanonicalPool w mint,
      deriveLaunchLabPool w mint (WRAPPED_SOL_MINT w)] = Inr [Some (owner, d), pool, None]"
    and "owner \<noteq> PUMP_PROGRAM_ID w"
  shows "detectLaunchpad w conn mint = Inr None \<and>
    (\<forall>pools. detectLaunchpad w (conn\<lparr>getProgramAccounts := pools\<rparr>) mint = Inr None)"
  using assms
  by (simp add: detectLaunchpad_def Let_def nth_info_def toAccountLike_def classifyLaunchpad_def
      classify_pump_def decodePumpBondingCurve_def classify_letsbonk_def classify_bags_def empty_set_def)

theorem occupied_pump_address_hides_bags_witness:
  "detectLaunchpad demo_web3 \<lparr>getMultipleAccountsInfo = (\<lambda>ks. Inr [Some ([], []), None, None]),
     getProgramAccounts = (\<lambda>p sl f. Inr [])\<rparr> demo_mint = Inr None"
proof -
  have "[] \<noteq> PUMP_PROGRAM_ID demo_web3" by (simp add: PUMP_PROGRAM_ID_def demo_web3_def)
  then show ?thesis
    using occupied_pump_address_hides_bags [of "\<lparr>getMultipleAccountsInfo = (\<lambda>ks. Inr [Some ([], []), None, None]),
      getProgramAccounts = (\<lambda>p sl f. Inr [])\<rparr>" demo_web3 demo_mint "[]" "[]" None] by simp
qed

end
