(* ===== verification/Deployment.thy ===== *)
theory Deployment
  imports Js_Text
begin

text \<open>
  Launching a Reserve: the per-asset funding state machine of
  \<open>src/merge/lib/launchFunding.ts\<close>, and the decisions of
  \<open>src/merge/lib/createReserveResume.ts\<close> about what a resumed deployment may do. The
  dollar estimates of \<open>assessLaunchFeasibility\<close> and the other functions on fractional
  numbers are not modelled.
\<close>

section \<open>Funding one asset\<close>

datatype funding_status = Not_started | Quoted | Awaiting_signature | Submitted | Confirmed
  | Balance_verified | Ready_to_seed

fun FUNDING_STATUS_ORDER :: "funding_status \<Rightarrow> nat" where
  "FUNDING_STATUS_ORDER Not_started = 0"
| "FUNDING_STATUS_ORDER Quoted = 1"
| "FUNDING_STATUS_ORDER Awaiting_signature = 2"
| "FUNDING_STATUS_ORDER Submitted = 3"
| "FUNDING_STATUS_ORDER Confirmed = 4"
| "FUNDING_STATUS_ORDER Balance_verified = 5"
| "FUNDING_STATUS_ORDER Ready_to_seed = 6"

instantiation funding_status :: linorder
begin

definition less_eq_funding_status :: "funding_status \<Rightarrow> funding_status \<Rightarrow> bool" where
  "less_eq_funding_status a b \<longleftrightarrow> FUNDING_STATUS_ORDER a \<le> FUNDING_STATUS_ORDER b"

definition less_funding_status :: "funding_status \<Rightarrow> funding_status \<Rightarrow> bool" where
  "less_funding_status a b \<longleftrightarrow> FUNDING_STATUS_ORDER a < FUNDING_STATUS_ORDER b"

instance
proof
  fix a b c :: funding_status
  show "a < b \<longleftrightarrow> a \<le> b \<and> \<not> b \<le> a"
    by (auto simp: less_eq_funding_status_def less_funding_status_def)
  show "a \<le> a" by (simp add: less_eq_funding_status_def)
  show "a \<le> b \<Longrightarrow> b \<le> c \<Longrightarrow> a \<le> c" by (simp add: less_eq_funding_status_def)
  show "a \<le> b \<Longrightarrow> b \<le> a \<Longrightarrow> a = b"
    by (cases a; cases b) (simp_all add: less_eq_funding_status_def)
  show "a \<le> b \<or> b \<le> a" by (auto simp: less_eq_funding_status_def)
qed

end

record asset_funding =
  af_mint :: string
  af_status :: funding_status
  af_lastSignature :: "string option"
  af_lastValidBlockHeight :: "nat option"
  af_verifiedBalanceRaw :: "string option"
  af_targetRaw :: "string option"
  af_acquiredRaw :: "string option"
  af_budgetUsdcRaw :: "string option"

text \<open>The fields an update may merge in; \<open>None\<close> is a field that is not given.\<close>

record funding_extra =
  ex_lastSignature :: "string option"
  ex_verifiedBalanceRaw :: "string option"
  ex_targetRaw :: "string option"
  ex_acquiredRaw :: "string option"
  ex_budgetUsdcRaw :: "string option"

type_synonym funding = "(string \<times> asset_funding) list"

definition isLegalFundingTransition :: "funding_status \<Rightarrow> funding_status \<Rightarrow> bool" where
  "isLegalFundingTransition f t =
     (if t = Not_started then True else FUNDING_STATUS_ORDER t > FUNDING_STATUS_ORDER f)"

definition override :: "'a option \<Rightarrow> 'a option \<Rightarrow> 'a option" where
  "override old new = (case new of None \<Rightarrow> old | Some _ \<Rightarrow> new)"

definition fresh_funding :: "string \<Rightarrow> asset_funding" where
  "fresh_funding mint = \<lparr>af_mint = mint, af_status = Not_started, af_lastSignature = None,
     af_lastValidBlockHeight = None, af_verifiedBalanceRaw = None, af_targetRaw = None,
     af_acquiredRaw = None, af_budgetUsdcRaw = None\<rparr>"

definition advanceAssetFunding :: "funding \<Rightarrow> string \<Rightarrow> funding_status \<Rightarrow> funding_extra \<Rightarrow> funding" where
  "advanceAssetFunding fs mint t extra =
     (let current = (case dget fs mint of Some f \<Rightarrow> f | None \<Rightarrow> fresh_funding mint) in
      if af_status current \<noteq> t \<and> \<not> isLegalFundingTransition (af_status current) t then fs
      else
        let next = \<lparr>af_mint = mint, af_status = t,
              af_lastSignature = (if t = Not_started then None
                else override (af_lastSignature current) (ex_lastSignature extra)),
              af_lastValidBlockHeight = af_lastValidBlockHeight current,
              af_verifiedBalanceRaw = override (af_verifiedBalanceRaw current) (ex_verifiedBalanceRaw extra),
              af_targetRaw = override (af_targetRaw current) (ex_targetRaw extra),
              af_acquiredRaw = override (af_acquiredRaw current) (ex_acquiredRaw extra),
              af_budgetUsdcRaw = override (af_budgetUsdcRaw current) (ex_budgetUsdcRaw extra)\<rparr>
        in dput mint next fs)"

definition canEnterSeeding :: "asset_funding list \<Rightarrow> bool" where
  "canEnterSeeding states \<longleftrightarrow> length states > 0 \<and> (\<forall>s \<in> set states. af_status s = Ready_to_seed)"

definition countReadyToSeed :: "asset_funding list \<Rightarrow> nat" where
  "countReadyToSeed states = length (filter (\<lambda>s. af_status s = Ready_to_seed) states)"

fun find_index :: "('a \<Rightarrow> bool) \<Rightarrow> 'a list \<Rightarrow> int \<Rightarrow> int" where
  "find_index P [] i = -1"
| "find_index P (x # xs) i = (if P x then i else find_index P xs (i + 1))"

definition firstUnresolvedIndex :: "asset_funding list \<Rightarrow> int" where
  "firstUnresolvedIndex states = find_index (\<lambda>s. af_status s \<noteq> Ready_to_seed) states 0"

definition shortMintLabel :: "string \<Rightarrow> string" where
  "shortMintLabel mint =
     (if length mint > 14 then take 6 mint @ ''...'' @ drop (length mint - 6) mint else mint)"

section \<open>Resuming a deployment\<close>

datatype reserve_status = Created | AssetsInitializing | Active | Paused | WindDown | Closed

datatype resume_point =
    Start_fresh
  | Resume_from_funding
  | Already_complete
  | Resume_from_registration nat nat
  | Asset_count_mismatch nat nat

definition determineDeploymentResumePoint ::
  "bool \<Rightarrow> reserve_status option \<Rightarrow> nat \<Rightarrow> nat \<Rightarrow> resume_point" where
  "determineDeploymentResumePoint reserveExists status onChain expected =
     (if \<not> reserveExists then Start_fresh
      else if onChain > expected then Asset_count_mismatch onChain expected
      else if onChain < expected then
        (if status = Some Created \<or> status = Some AssetsInitializing
         then Resume_from_registration onChain expected
         else Asset_count_mismatch onChain expected)
      else if status = Some AssetsInitializing then Resume_from_funding
      else Already_complete)"

definition computeFundingShortfall :: "int \<Rightarrow> int \<Rightarrow> int" where
  "computeFundingShortfall requiredRaw currentBalanceRaw =
     (if requiredRaw > currentBalanceRaw then requiredRaw - currentBalanceRaw else 0)"

definition isDustDeficit :: "int \<Rightarrow> int \<Rightarrow> int \<Rightarrow> bool" where
  "isDustDeficit existingRaw scaledDeficitUsdcRaw dustFloorUsdcRaw \<longleftrightarrow>
     existingRaw > 0 \<and> scaledDeficitUsdcRaw < dustFloorUsdcRaw"

definition scaleUsdcBudgetForDeficit :: "int \<Rightarrow> int \<Rightarrow> int \<Rightarrow> int" where
  "scaleUsdcBudgetForDeficit usdcBudgetRaw deficitRaw targetRaw =
     (if targetRaw \<le> 0 \<or> deficitRaw \<le> 0 then 0
      else if deficitRaw \<ge> targetRaw then usdcBudgetRaw
      else let scaled = (usdcBudgetRaw * deficitRaw) sdiv targetRaw
           in if scaled > 0 then scaled else 1)"

definition PENDING_DEPLOY_STALE_MS :: int where "PENDING_DEPLOY_STALE_MS = 10 * 60 * 1000"

definition isPendingDeployStale :: "int \<Rightarrow> int \<Rightarrow> bool" where
  "isPendingDeployStale startedAt now \<longleftrightarrow> now - startedAt > PENDING_DEPLOY_STALE_MS"

text \<open>A thrown value: an \<open>Error\<close> with its name and message, or anything else, printed.\<close>

datatype thrown = JsError string string | Other string

definition isWalletRejectionError :: "thrown \<Rightarrow> bool" where
  "isWalletRejectionError e =
     (let name = (case e of JsError n _ \<Rightarrow> n | Other _ \<Rightarrow> '''') in
      if name = ''WalletSignTransactionError'' \<or> name = ''WalletSignMessageError'' then True
      else
        let msg = toLowerCase (case e of JsError _ m \<Rightarrow> m | Other s \<Rightarrow> s) in
        str_includes msg ''user rejected'' \<or> str_includes msg ''rejected the request'' \<or>
        str_includes msg ''user declined'' \<or> str_includes msg ''transaction cancelled'' \<or>
        str_includes msg ''approval denied'')"

section \<open>Properties\<close>

definition status_of :: "funding \<Rightarrow> string \<Rightarrow> funding_status" where
  "status_of fs mint = (case dget fs mint of Some f \<Rightarrow> af_status f | None \<Rightarrow> Not_started)"

text \<open>The events an asynchronous flow may deliver, in any order and any number of times.\<close>

datatype funding_event = Advance string funding_status funding_extra

fun apply_event :: "funding \<Rightarrow> funding_event \<Rightarrow> funding" where
  "apply_event fs (Advance mint t extra) = advanceAssetFunding fs mint t extra"

fun resets :: "string \<Rightarrow> funding_event \<Rightarrow> bool" where
  "resets mint (Advance m t extra) \<longleftrightarrow> m = mint \<and> t = Not_started"

lemma override_simps [simp]: "override old None = old" "override old (Some x) = Some x"
  by (simp_all add: override_def)

lemma order_inject [simp]: "FUNDING_STATUS_ORDER a = FUNDING_STATUS_ORDER b \<longleftrightarrow> a = b"
  by (cases a; cases b) simp_all

lemma order_pos [simp]: "0 < FUNDING_STATUS_ORDER t \<longleftrightarrow> t \<noteq> Not_started"
  by (cases t) simp_all

lemma status_advance_same:
  "status_of (advanceAssetFunding fs mint t extra) mint =
     (if t = Not_started \<or> status_of fs mint \<le> t then t else status_of fs mint)"
  by (auto simp: status_of_def advanceAssetFunding_def Let_def od.get_put fresh_funding_def
      isLegalFundingTransition_def less_eq_funding_status_def dest: le_antisym split: option.splits)

lemma dget_advance_other:
  "m \<noteq> mint \<Longrightarrow> dget (advanceAssetFunding fs mint t extra) m = dget fs m"
  by (simp add: advanceAssetFunding_def Let_def od.get_put split: option.split)

lemma status_advance_other:
  "m \<noteq> mint \<Longrightarrow> status_of (advanceAssetFunding fs mint t extra) m = status_of fs m"
  by (simp add: status_of_def dget_advance_other)

lemma status_apply_event:
  assumes "\<not> resets mint e"
  shows "status_of fs mint \<le> status_of (apply_event fs e) mint"
proof (cases e)
  case (Advance m t extra)
  with assms show ?thesis
    by (cases "m = mint") (auto simp: status_advance_same status_advance_other)
qed

text \<open>
  C18: Late and repeated events cannot undo progress. Over any sequence of events, in any
  order, an asset's status never goes backwards unless one of them resets that asset; the
  events of the other assets leave its whole record alone; so an asset that is ready to
  seed stays ready.
\<close>

theorem funding_never_demoted:
  assumes "\<forall>e \<in> set events. \<not> resets mint e"
  shows "status_of fs mint \<le> status_of (foldl apply_event fs events) mint \<and>
    (status_of fs mint = Ready_to_seed \<longrightarrow> status_of (foldl apply_event fs events) mint = Ready_to_seed) \<and>
    (\<forall>other t extra. other \<noteq> mint \<longrightarrow> dget (advanceAssetFunding fs other t extra) mint = dget fs mint)"
proof -
  have up: "status_of fs mint \<le> status_of (foldl apply_event fs events) mint"
    using assms
  proof (induction events arbitrary: fs)
    case (Cons e events)
    then have "status_of fs mint \<le> status_of (apply_event fs e) mint"
      "status_of (apply_event fs e) mint \<le> status_of (foldl apply_event (apply_event fs e) events) mint"
      by (auto intro: status_apply_event)
    then show ?case by simp
  qed simp
  have "s \<le> Ready_to_seed" for s by (cases s) (simp_all add: less_eq_funding_status_def)
  with up show ?thesis by (auto simp: dget_advance_other intro: antisym)
qed

definition no_extra :: funding_extra where
  "no_extra = \<lparr>ex_lastSignature = None, ex_verifiedBalanceRaw = None, ex_targetRaw = None,
     ex_acquiredRaw = None, ex_budgetUsdcRaw = None\<rparr>"

theorem funding_never_demoted_witness:
  "status_of (foldl apply_event [] [Advance ''M'' Submitted no_extra, Advance ''M'' Quoted no_extra]) ''M'' = Submitted \<and>
   Not_started \<le> Submitted"
proof -
  have run: "status_of (foldl apply_event [] [Advance ''M'' Submitted no_extra, Advance ''M'' Quoted no_extra]) ''M'' = Submitted"
    by (simp add: status_advance_same) (simp add: status_of_def less_eq_funding_status_def)
  have "status_of [] ''M'' \<le> status_of (foldl apply_event [] [Advance ''M'' Submitted no_extra, Advance ''M'' Quoted no_extra]) ''M''"
    using funding_never_demoted [of "[Advance ''M'' Submitted no_extra, Advance ''M'' Quoted no_extra]" "''M''" "[]"] by simp
  then show ?thesis using run by (simp add: status_of_def)
qed


lemma find_index_spec:
  "(find_index P xs i = -1 \<longleftrightarrow> (\<forall>x \<in> set xs. \<not> P x)) \<and>
   ((\<exists>x \<in> set xs. P x) \<longrightarrow> i \<le> find_index P xs i \<and> nat (find_index P xs i - i) < length xs \<and>
      P (xs ! nat (find_index P xs i - i)) \<and> (\<forall>j < nat (find_index P xs i - i). \<not> P (xs ! j)))"
  if "0 \<le> i"
  using that
proof (induction xs arbitrary: i)
  case (Cons x xs)
  show ?case
  proof (cases "P x")
    case True
    then show ?thesis using Cons.prems by simp
  next
    case False
    let ?k = "find_index P xs (i + 1)"
    have ih: "(?k = -1 \<longleftrightarrow> (\<forall>x \<in> set xs. \<not> P x)) \<and>
      ((\<exists>x \<in> set xs. P x) \<longrightarrow> i + 1 \<le> ?k \<and> nat (?k - (i + 1)) < length xs \<and>
      P (xs ! nat (?k - (i + 1))) \<and> (\<forall>j < nat (?k - (i + 1)). \<not> P (xs ! j)))"
      using Cons.IH [of "i + 1"] Cons.prems by simp
    have "i \<le> ?k \<and> nat (?k - i) < length (x # xs) \<and> P ((x # xs) ! nat (?k - i)) \<and>
        (\<forall>j < nat (?k - i). \<not> P ((x # xs) ! j))" if "\<exists>y \<in> set xs. P y"
    proof -
      from ih that have k: "i + 1 \<le> ?k" "nat (?k - (i + 1)) < length xs" "P (xs ! nat (?k - (i + 1)))"
        "\<forall>j < nat (?k - (i + 1)). \<not> P (xs ! j)" by simp_all
      from k(1) have "nat (?k - i) = Suc (nat (?k - (i + 1)))" by simp
      then show ?thesis using k False by (auto simp: nth_Cons split: nat.split)
    qed
    with ih False show ?thesis by simp
  qed
qed simp

text \<open>
  The seeding gate is exact. Seeding is allowed for a list of assets exactly when there
  is at least one, every one of them is counted as ready, and the resume index finds none
  that is not; and the index, when there is one, is the first asset that is not ready.
\<close>

theorem seeding_gate_exact:
  "(canEnterSeeding states \<longleftrightarrow> states \<noteq> [] \<and> countReadyToSeed states = length states) \<and>
   (canEnterSeeding states \<longleftrightarrow> states \<noteq> [] \<and> firstUnresolvedIndex states = -1) \<and>
   (firstUnresolvedIndex states \<noteq> -1 \<longrightarrow>
      nat (firstUnresolvedIndex states) < length states \<and>
      af_status (states ! nat (firstUnresolvedIndex states)) \<noteq> Ready_to_seed \<and>
      (\<forall>j < nat (firstUnresolvedIndex states). af_status (states ! j) = Ready_to_seed))"
proof -
  note ix = find_index_spec [OF order_refl, of "\<lambda>s. af_status s \<noteq> Ready_to_seed" states]
  have "countReadyToSeed states = length states \<longleftrightarrow> (\<forall>s \<in> set states. af_status s = Ready_to_seed)"
  proof
    assume len: "countReadyToSeed states = length states"
    show "\<forall>s \<in> set states. af_status s = Ready_to_seed"
    proof (rule ccontr)
      assume "\<not> (\<forall>s \<in> set states. af_status s = Ready_to_seed)"
      then obtain s where "s \<in> set states" "af_status s \<noteq> Ready_to_seed" by blast
      then have "countReadyToSeed states < length states"
        unfolding countReadyToSeed_def by (rule length_filter_less)
      with len show False by simp
    qed
  qed (simp add: countReadyToSeed_def)
  moreover have none: "firstUnresolvedIndex states = -1 \<longleftrightarrow> (\<forall>s \<in> set states. af_status s = Ready_to_seed)"
    using ix [THEN conjunct1] unfolding firstUnresolvedIndex_def by simp
  moreover have "nat (firstUnresolvedIndex states) < length states \<and>
      af_status (states ! nat (firstUnresolvedIndex states)) \<noteq> Ready_to_seed \<and>
      (\<forall>j < nat (firstUnresolvedIndex states). af_status (states ! j) = Ready_to_seed)"
    if "firstUnresolvedIndex states \<noteq> -1"
  proof -
    have "\<exists>s \<in> set states. af_status s \<noteq> Ready_to_seed" using that none by blast
    from mp [OF ix [THEN conjunct2] this] show ?thesis unfolding firstUnresolvedIndex_def by simp
  qed
  ultimately show ?thesis unfolding canEnterSeeding_def length_greater_0_conv by blast
qed

theorem seeding_gate_exact_witness:
  "firstUnresolvedIndex [fresh_funding ''M''] = 0 \<and> nat 0 < length [fresh_funding ''M'']"
proof -
  have "firstUnresolvedIndex [fresh_funding ''M''] = 0"
    by (simp add: firstUnresolvedIndex_def fresh_funding_def)
  with seeding_gate_exact [of "[fresh_funding ''M'']"] show ?thesis by simp
qed

text \<open>
  A resume is decided by the chain. Nothing is submitted for a Reserve that is past
  initialisation; registration continues only for one still in it, with exactly the missing
  assets; funding starts only when all expected assets are registered; any other disagreement
  on the number of assets is refused; and a top-up never spends more than the budget, nor
  more than the missing share of it rounded down (but at least one unit).
\<close>

theorem resume_decision_sound:
  assumes "p = determineDeploymentResumePoint exists status onChain expected"
    and "0 < budget" "0 \<le> held"
    and "usdc = scaleUsdcBudgetForDeficit budget (computeFundingShortfall target held) target"
  shows "(p = Start_fresh \<longleftrightarrow> \<not> exists) \<and>
    (p = Resume_from_funding \<longleftrightarrow> exists \<and> onChain = expected \<and> status = Some AssetsInitializing) \<and>
    (\<forall>n m. p = Resume_from_registration n m \<longrightarrow>
       n = onChain \<and> m = expected \<and> n < m \<and> status \<in> {Some Created, Some AssetsInitializing}) \<and>
    (status \<in> {Some Active, Some Paused, Some WindDown, Some Closed} \<and> exists \<longrightarrow>
       p = Already_complete \<or> p = Asset_count_mismatch onChain expected) \<and>
    0 \<le> usdc \<and> usdc \<le> budget \<and> (usdc = 0 \<longleftrightarrow> target \<le> held \<or> target \<le> 0) \<and>
    (1 < usdc \<longrightarrow> usdc * target \<le> budget * (target - held))"
proof -
  have point: "(p = Start_fresh \<longleftrightarrow> \<not> exists) \<and>
    (p = Resume_from_funding \<longleftrightarrow> exists \<and> onChain = expected \<and> status = Some AssetsInitializing) \<and>
    (\<forall>n m. p = Resume_from_registration n m \<longrightarrow>
       n = onChain \<and> m = expected \<and> n < m \<and> status \<in> {Some Created, Some AssetsInitializing}) \<and>
    (status \<in> {Some Active, Some Paused, Some WindDown, Some Closed} \<and> exists \<longrightarrow>
       p = Already_complete \<or> p = Asset_count_mismatch onChain expected)"
    unfolding assms(1) determineDeploymentResumePoint_def by auto
  have "0 \<le> usdc \<and> usdc \<le> budget \<and> (usdc = 0 \<longleftrightarrow> target \<le> held \<or> target \<le> 0) \<and>
    (1 < usdc \<longrightarrow> usdc * target \<le> budget * (target - held))"
  proof (cases "target \<le> held \<or> target \<le> 0 \<or> held = 0")
    case True
    then show ?thesis using assms(2-4)
      by (auto simp: scaleUsdcBudgetForDeficit_def computeFundingShortfall_def)
  next
    case False
    then have t: "0 < held" "held < target" using assms(3) by auto
    define q where "q = (budget * (target - held)) div target"
    have num: "0 \<le> budget * (target - held)" using assms(2) t by simp
    have "budget * (target - held) \<le> budget * target" using assms(2) t by (intro mult_left_mono) auto
    then have q: "q \<le> budget" "target * q \<le> budget * (target - held)" "0 \<le> q"
      using t num mult_div_le_int [of target "budget * (target - held)"]
      by (simp_all add: q_def div_le_of_le_mult mult.commute pos_imp_zdiv_nonneg_iff)
    have "usdc = (if q > 0 then q else 1)"
      using assms(4) t num by (simp add: scaleUsdcBudgetForDeficit_def computeFundingShortfall_def q_def sdiv_nonneg_eq)
    then show ?thesis using q t assms(2) by (auto simp: mult.commute)
  qed
  with point show ?thesis by blast
qed

theorem resume_decision_sound_witness:
  "scaleUsdcBudgetForDeficit 2000000 (computeFundingShortfall 900 600) 900 = 666666 \<and> (666666::int) \<le> 2000000"
proof -
  have run: "scaleUsdcBudgetForDeficit 2000000 (computeFundingShortfall 900 600) 900 = 666666"
    by (simp add: scaleUsdcBudgetForDeficit_def computeFundingShortfall_def signed_divide_int_def)
  have "(666666::int) \<le> 2000000"
    using resume_decision_sound [OF refl, of 2000000 600 666666 900] run by simp
  with run show ?thesis by simp
qed

end
