(* ===== verification/Js_Number.thy ===== *)
theory Js_Number
  imports Complex_Main Js_Text
begin

text \<open>
  JavaScript's \<open>number\<close>: IEEE 754 binary64 with round-to-nearest-even, on exact
  rationals so that it computes. The two zeros are one value: the code modelled here never
  divides by a zero whose sign matters, nor prints one.
\<close>

datatype number = Fin rat | Infty | NegInfty | NaN

fun bit_length :: "nat \<Rightarrow> nat" where
  "bit_length n = (if n = 0 then 0 else 1 + bit_length (n div 2))"

declare bit_length.simps [simp del]

definition pow2 :: "int \<Rightarrow> rat" where
  "pow2 e = (if 0 \<le> e then 2 ^ nat e else 1 / 2 ^ nat (- e))"

text \<open>The exponent of the unit in the last place of a positive number.\<close>

definition ulp_exponent :: "rat \<Rightarrow> int" where
  "ulp_exponent x =
     (case quotient_of x of (n, d) \<Rightarrow>
        let l = int (bit_length (nat n)) - int (bit_length (nat d));
            top = (if x < pow2 l then l - 1 else l)
        in max (-1074) (top - 52))"

definition round_half_even :: "rat \<Rightarrow> int" where
  "round_half_even x =
     (let n = \<lfloor>x\<rfloor>; r = x - of_int n in
      if r < 1 / 2 then n else if r > 1 / 2 then n + 1 else if even n then n else n + 1)"

definition round_pos :: "rat \<Rightarrow> rat" where
  "round_pos x = (let e = ulp_exponent x in of_int (round_half_even (x / pow2 e)) * pow2 e)"

definition round64 :: "rat \<Rightarrow> number" where
  "round64 x =
     (if x = 0 then Fin 0
      else let y = round_pos \<bar>x\<bar> in
        if y \<ge> 2 ^ 1024 then (if x > 0 then Infty else NegInfty)
        else Fin (if x > 0 then y else - y))"

definition num_of_int :: "int \<Rightarrow> number" where
  \<comment> \<open>\<open>Number(b)\<close> of a bigint\<close>
  "num_of_int i = round64 (of_int i)"

fun num_neg :: "number \<Rightarrow> number" where
  "num_neg (Fin a) = Fin (- a)"
| "num_neg Infty = NegInfty"
| "num_neg NegInfty = Infty"
| "num_neg NaN = NaN"

fun num_add :: "number \<Rightarrow> number \<Rightarrow> number" where
  "num_add (Fin a) (Fin b) = round64 (a + b)"
| "num_add NaN y = NaN"
| "num_add x NaN = NaN"
| "num_add Infty NegInfty = NaN"
| "num_add NegInfty Infty = NaN"
| "num_add Infty y = Infty"
| "num_add NegInfty y = NegInfty"
| "num_add (Fin a) y = y"

definition num_sub :: "number \<Rightarrow> number \<Rightarrow> number" where
  "num_sub x y = num_add x (num_neg y)"

definition signed_inf :: "bool \<Rightarrow> number" where
  "signed_inf positive = (if positive then Infty else NegInfty)"

fun num_sgn :: "number \<Rightarrow> int" where
  "num_sgn (Fin a) = (if a > 0 then 1 else if a < 0 then -1 else 0)"
| "num_sgn Infty = 1"
| "num_sgn NegInfty = -1"
| "num_sgn NaN = 0"

fun num_mul :: "number \<Rightarrow> number \<Rightarrow> number" where
  "num_mul (Fin a) (Fin b) = round64 (a * b)"
| "num_mul NaN y = NaN"
| "num_mul x NaN = NaN"
| "num_mul x y = (if num_sgn x * num_sgn y = 0 then NaN else signed_inf (num_sgn x * num_sgn y > 0))"

fun num_div :: "number \<Rightarrow> number \<Rightarrow> number" where
  "num_div (Fin a) (Fin b) =
     (if b = 0 then (if a = 0 then NaN else signed_inf (a > 0)) else round64 (a / b))"
| "num_div NaN y = NaN"
| "num_div x NaN = NaN"
| "num_div (Fin a) y = Fin 0"
| "num_div x (Fin b) = signed_inf (num_sgn x * (if b \<ge> 0 then 1 else -1) > 0)"
| "num_div x y = NaN"

fun num_less :: "number \<Rightarrow> number \<Rightarrow> bool" where
  "num_less (Fin a) (Fin b) = (a < b)"
| "num_less NaN y = False"
| "num_less x NaN = False"
| "num_less x Infty = (x \<noteq> Infty)"
| "num_less NegInfty y = (y \<noteq> NegInfty)"
| "num_less x y = False"

definition num_eq :: "number \<Rightarrow> number \<Rightarrow> bool" where
  "num_eq x y \<longleftrightarrow> x \<noteq> NaN \<and> x = y"

definition num_le :: "number \<Rightarrow> number \<Rightarrow> bool" where
  "num_le x y \<longleftrightarrow> num_less x y \<or> num_eq x y"

definition isFinite :: "number \<Rightarrow> bool" where
  "isFinite x \<longleftrightarrow> (case x of Fin _ \<Rightarrow> True | _ \<Rightarrow> False)"

definition num_max :: "number \<Rightarrow> number \<Rightarrow> number" where
  "num_max x y = (if x = NaN \<or> y = NaN then NaN else if num_less x y then y else x)"

definition num_min :: "number \<Rightarrow> number \<Rightarrow> number" where
  "num_min x y = (if x = NaN \<or> y = NaN then NaN else if num_less y x then y else x)"

fun num_ceil :: "number \<Rightarrow> number" where
  "num_ceil (Fin a) = Fin (of_int \<lceil>a\<rceil>)"
| "num_ceil x = x"

fun num_floor :: "number \<Rightarrow> number" where
  "num_floor (Fin a) = Fin (of_int \<lfloor>a\<rfloor>)"
| "num_floor x = x"

fun num_round :: "number \<Rightarrow> number" where
  \<comment> \<open>\<open>Math.round\<close>: halves go up\<close>
  "num_round (Fin a) = Fin (of_int \<lfloor>a + 1 / 2\<rfloor>)"
| "num_round x = x"

fun to_bigint :: "number \<Rightarrow> int option" where
  \<comment> \<open>\<open>BigInt(x)\<close>: \<open>None\<close> is the RangeError for a fraction or a non-finite number\<close>
  "to_bigint (Fin a) = (if of_int \<lfloor>a\<rfloor> = a then Some \<lfloor>a\<rfloor> else None)"
| "to_bigint x = None"

definition pow10 :: "nat \<Rightarrow> number" where
  "pow10 n = round64 (10 ^ n)"

text \<open>\<open>x.toFixed(f)\<close> of a number below 10^21: the nearest decimal, halves up.\<close>

definition pad_left :: "nat \<Rightarrow> string \<Rightarrow> string" where
  "pad_left n s = replicate (n - length s) (CHR ''0'') @ s"

definition fixed_digits :: "rat \<Rightarrow> nat \<Rightarrow> string" where
  "fixed_digits a f =
     (let n = nat \<lfloor>a * 10 ^ f + 1 / 2\<rfloor> in
      if f = 0 then nat_str n
      else nat_str (n div 10 ^ f) @ ''.'' @ pad_left f (nat_str (n mod 10 ^ f)))"

fun toFixed :: "number \<Rightarrow> nat \<Rightarrow> string" where
  "toFixed (Fin a) f = (if a < 0 then CHR ''-'' # fixed_digits (- a) f else fixed_digits a f)"
| "toFixed Infty f = ''Infinity''"
| "toFixed NegInfty f = ''-Infinity''"
| "toFixed NaN f = ''NaN''"

section \<open>Facts\<close>

lemma pow2_pos [simp]: "0 < pow2 e"
  by (simp add: pow2_def)

lemma pow2_nonneg [simp]: "0 \<le> pow2 e"
  by (rule less_imp_le) simp

lemma round_half_even_nonneg: "0 \<le> x \<Longrightarrow> 0 \<le> round_half_even x"
  by (auto simp: round_half_even_def Let_def)

lemma round_half_even_of_int [simp]: "round_half_even (of_int n) = n"
  by (simp add: round_half_even_def)

lemma round_half_even_near: "\<bar>x - of_int (round_half_even x)\<bar> \<le> 1 / 2"
proof -
  have "0 \<le> x - of_int \<lfloor>x\<rfloor>" "x - of_int \<lfloor>x\<rfloor> < 1" by linarith+
  then show ?thesis by (auto simp: round_half_even_def Let_def)
qed

lemma round_half_even_mono: "x \<le> y \<Longrightarrow> round_half_even x \<le> round_half_even y"
proof -
  assume le: "x \<le> y"
  show ?thesis
  proof (cases "\<lfloor>x\<rfloor> = \<lfloor>y\<rfloor>")
    case True
    then show ?thesis using le by (auto simp: round_half_even_def Let_def)
  next
    case False
    then have "\<lfloor>x\<rfloor> + 1 \<le> \<lfloor>y\<rfloor>" using floor_mono [OF le] by linarith
    moreover have "round_half_even x \<le> \<lfloor>x\<rfloor> + 1" "\<lfloor>y\<rfloor> \<le> round_half_even y"
      by (auto simp: round_half_even_def Let_def)
    ultimately show ?thesis by linarith
  qed
qed

lemma round_pos_nonneg: "0 \<le> x \<Longrightarrow> 0 \<le> round_pos x"
proof -
  assume "0 \<le> x"
  then have "0 \<le> round_half_even (x / pow2 (ulp_exponent x))"
    by (intro round_half_even_nonneg divide_nonneg_pos) simp_all
  moreover have "0 \<le> pow2 (ulp_exponent x)" using pow2_pos [of "ulp_exponent x"] by (rule less_imp_le)
  ultimately show ?thesis by (simp add: round_pos_def Let_def)
qed

lemma round64_0 [simp]: "round64 0 = Fin 0"
  by (simp add: round64_def)

text \<open>Integers below 2^53 are exact.\<close>

lemma bit_length_le: "n < 2 ^ k \<Longrightarrow> bit_length n \<le> k"
proof (induction k arbitrary: n)
  case (Suc k)
  then have "bit_length (n div 2) \<le> k" by simp
  then show ?case by (subst bit_length.simps) simp
qed (simp add: bit_length.simps)

lemma round_pos_int:
  assumes "0 < n" "n < 2 ^ 53"
  shows "round_pos (of_int n) = of_int n"
proof -
  define e where "e = ulp_exponent (of_int n)"
  have "nat n < 2 ^ 53" using assms by (simp add: nat_less_iff)
  then have "bit_length (nat n) \<le> 53" by (rule bit_length_le)
  moreover have "bit_length (nat 1) = 1" by (simp add: bit_length.simps)
  ultimately have "e \<le> 0" unfolding e_def ulp_exponent_def by (simp add: quotient_of_int Let_def)
  then have p: "pow2 e = 1 / 2 ^ nat (- e)" by (auto simp: pow2_def)
  then have "of_int n / pow2 e = (of_int (n * 2 ^ nat (- e)) :: rat)" by simp
  then have "round_half_even (of_int n / pow2 e) = n * 2 ^ nat (- e)" by (simp only: round_half_even_of_int)
  then show ?thesis by (simp add: round_pos_def e_def [symmetric] p)
qed

lemma round64_int:
  assumes "\<bar>n\<bar> < 2 ^ 53"
  shows "round64 (of_int n) = Fin (of_int n)"
proof (cases "n = 0")
  case False
  have "(of_int \<bar>n\<bar> :: rat) < of_int (2 ^ 53)" using assms by (simp only: of_int_less_iff)
  also have "\<dots> \<le> 2 ^ 1024" by simp
  finally have "(of_int \<bar>n\<bar> :: rat) < 2 ^ 1024" .
  then show ?thesis
    using False assms round_pos_int [of "\<bar>n\<bar>"] by (simp add: round64_def Let_def abs_if split: if_splits)
qed simp

lemma round64_numeral: "(numeral k :: int) < 2 ^ 53 \<Longrightarrow> round64 (numeral k) = Fin (numeral k)"
  using round64_int [of "numeral k"] by simp

lemma round64_neg_numeral: "(numeral k :: int) < 2 ^ 53 \<Longrightarrow> round64 (- numeral k) = Fin (- numeral k)"
  using round64_int [of "- numeral k"] by simp

lemma round64_one: "round64 1 = Fin 1"
  using round64_int [of 1] by simp

text \<open>
  Rounding to a given neighbour: \<open>m * 2^e\<close> with the exponent of the argument and \<open>m\<close> less
  than half a unit away. It evaluates a rounding without computing logarithms.
\<close>

lemma pow2_powi: "pow2 e = 2 powi e"
  by (cases "0 \<le> e") (simp_all add: pow2_def power_int_def power_one_over inverse_eq_divide)

lemma pow2_less_iff: "pow2 e < pow2 f \<longleftrightarrow> e < f"
proof
  show "e < f \<Longrightarrow> pow2 e < pow2 f" unfolding pow2_powi by (rule power_int_strict_increasing) simp_all
  assume *: "pow2 e < pow2 f"
  show "e < f"
  proof (rule ccontr)
    assume "\<not> e < f"
    then have "pow2 f \<le> pow2 e" unfolding pow2_powi by (intro power_int_increasing) simp_all
    with * show False by simp
  qed
qed

lemma pow2_le_iff: "pow2 e \<le> pow2 f \<longleftrightarrow> e \<le> f"
  using pow2_less_iff [of f e] by linarith

lemma bit_length_bounds: "0 < n \<Longrightarrow> 0 < bit_length n \<and> 2 ^ (bit_length n - 1) \<le> n \<and> n < 2 ^ bit_length n"
proof (induction n rule: bit_length.induct)
  case (1 n)
  show ?case
  proof (cases "n = 1")
    case False
    with 1 have ih: "0 < bit_length (n div 2)" "2 ^ (bit_length (n div 2) - 1) \<le> n div 2" "n div 2 < 2 ^ bit_length (n div 2)" by auto
    have len: "bit_length n = Suc (bit_length (n div 2))" using 1(2) by (subst bit_length.simps) simp
    have "(2::nat) * 2 ^ (bit_length (n div 2) - 1) = 2 ^ bit_length (n div 2)"
      using ih(1) by (cases "bit_length (n div 2)") auto
    moreover have "2 * (n div 2) \<le> n" "n < 2 * (n div 2) + 2" by linarith+
    ultimately show ?thesis unfolding len using ih(2,3) by simp linarith
  qed (simp add: bit_length.simps)
qed

lemma ulp_binade:
  assumes "0 < x"
  obtains t where "pow2 t \<le> x" "x < pow2 (t + 1)" "ulp_exponent x = max (-1074) (t - 52)"
proof -
  obtain n d where q: "quotient_of x = (n, d)" by (cases "quotient_of x")
  then have d: "0 < d" and x: "x = of_int n / of_int d" by (auto simp: quotient_of_denom_pos quotient_of_div)
  have n: "0 < n" using assms d x by (simp add: zero_less_divide_iff)
  define a b where "a = bit_length (nat n)" and "b = bit_length (nat d)"
  define l where "l = int a - int b"
  have "0 < a" "2 ^ (a - 1) \<le> nat n" "nat n < 2 ^ a" "0 < b" "2 ^ (b - 1) \<le> nat d" "nat d < 2 ^ b"
    using bit_length_bounds [of "nat n"] bit_length_bounds [of "nat d"] n d by (auto simp: a_def b_def)
  then have ab: "0 < a" "2 ^ (a - 1) \<le> n" "n < 2 ^ a" "0 < b" "2 ^ (b - 1) \<le> d" "d < 2 ^ b"
    by (simp_all add: nat_less_iff le_nat_iff)
  have r: "(2::rat) ^ (a - 1) \<le> of_int n" "of_int n < (2::rat) ^ a" "(2::rat) ^ (b - 1) \<le> of_int d" "of_int d < (2::rat) ^ b"
    using ab by (metis of_int_le_iff of_int_less_iff of_int_numeral of_int_power)+
  have hi: "pow2 (l + 1) = 2 ^ a / 2 ^ (b - 1)" and lo: "pow2 (l - 1) = 2 ^ (a - 1) / 2 ^ b"
    using ab(1,4) by (simp_all add: pow2_powi l_def power_int_diff power_int_add of_nat_diff flip: power_int_of_nat)
  have "x < pow2 (l + 1)" unfolding x hi using r n d by (intro frac_less) auto
  moreover have "pow2 (l - 1) < x" unfolding x lo using r n d by (intro frac_less2) auto
  moreover have "ulp_exponent x = max (-1074) ((if x < pow2 l then l - 1 else l) - 52)"
    by (simp add: ulp_exponent_def q Let_def l_def a_def b_def)
  ultimately show thesis using that [of "if x < pow2 l then l - 1 else l"] by (auto split: if_splits)
qed

lemma ulp_exponentI:
  assumes "pow2 t \<le> x" "x < pow2 (t + 1)"
  shows "ulp_exponent x = max (-1074) (t - 52)"
proof -
  have "0 < x" using assms(1) pow2_pos [of t] by linarith
  then obtain s where s: "pow2 s \<le> x" "x < pow2 (s + 1)" "ulp_exponent x = max (-1074) (s - 52)" by (rule ulp_binade)
  then have "s = t"
    using assms pow2_less_iff [of s "t + 1"] pow2_less_iff [of t "s + 1"] by linarith
  then show ?thesis using s by simp
qed

text \<open>Half a unit in the last place bounds the error of a rounding.\<close>

lemma round64_near:
  assumes "0 \<le> x" "x < pow2 k" "-1021 \<le> k" "k \<le> 1022"
  obtains y where "round64 x = Fin y" "\<bar>y - x\<bar> \<le> pow2 (k - 54)" "0 \<le> y"
proof (cases "x = 0")
  case True
  have "0 \<le> pow2 (k - 54)" using pow2_pos [of "k - 54"] by (rule less_imp_le)
  then show ?thesis using that [of 0] True by simp
next
  case False
  then have x: "0 < x" using assms(1) by simp
  obtain t where t: "pow2 t \<le> x" "x < pow2 (t + 1)" "ulp_exponent x = max (-1074) (t - 52)" using x by (rule ulp_binade)
  define e where "e = ulp_exponent x"
  define y where "y = round_pos x"
  have "t < k" using t(1) assms(2) pow2_less_iff [of t k] by linarith
  then have e: "e \<le> k - 53" using t(3) assms(3) by (simp add: e_def)
  have y: "y = of_int (round_half_even (x / pow2 e)) * pow2 e" by (simp add: y_def round_pos_def Let_def e_def)
  have "\<bar>y - x\<bar> = \<bar>x / pow2 e - of_int (round_half_even (x / pow2 e))\<bar> * pow2 e"
  proof -
    have "pow2 e \<noteq> 0" by (rule less_imp_neq [OF pow2_pos, symmetric])
    then have "y - x = - ((x / pow2 e - of_int (round_half_even (x / pow2 e))) * pow2 e)" by (simp add: y field_simps)
    then have "\<bar>y - x\<bar> = \<bar>(x / pow2 e - of_int (round_half_even (x / pow2 e))) * pow2 e\<bar>" by (simp only: abs_minus_cancel)
    then show ?thesis using pow2_pos [of e] by (simp add: abs_mult)
  qed
  also have "\<dots> \<le> 1 / 2 * pow2 e" using round_half_even_near pow2_pos [of e] by (intro mult_right_mono) simp_all
  also have "\<dots> = pow2 (e - 1)" by (simp add: pow2_powi power_int_diff)
  also have "\<dots> \<le> pow2 (k - 54)" using e unfolding pow2_le_iff by simp
  finally have near: "\<bar>y - x\<bar> \<le> pow2 (k - 54)" .
  have "y \<le> x + pow2 (k - 54)" using near by linarith
  also have "\<dots> \<le> pow2 k + pow2 k" using assms(2) pow2_less_iff [of "k - 54" k] by linarith
  also have "\<dots> = pow2 (k + 1)" by (simp add: pow2_powi power_int_add)
  also have "\<dots> \<le> pow2 1023" using assms(4) unfolding pow2_le_iff by simp
  also have "\<dots> < pow2 1024" unfolding pow2_less_iff by simp
  finally have "y < 2 ^ 1024" by (simp add: pow2_def)
  then have "round64 x = Fin y" using x by (simp add: round64_def Let_def y_def)
  then show ?thesis using that near round_pos_nonneg [OF assms(1)] by (simp add: y_def)
qed

lemma round64_eqI:
  assumes "pow2 (e + 52) \<le> x" "x < pow2 (e + 53)" "-1074 \<le> e" "\<bar>x / pow2 e - of_int m\<bar> < 1 / 2" "y = of_int m * pow2 e" "y < 2 ^ 1024"
  shows "round64 x = Fin y"
proof -
  have "0 < x" using assms(1) pow2_pos [of "e + 52"] by linarith
  have "ulp_exponent x = e" using ulp_exponentI [of "e + 52" x] assms(1-3) by (simp add: add.assoc)
  moreover have "round_half_even (x / pow2 e) = m"
  proof -
    define z where "z = x / pow2 e"
    have "\<lfloor>z\<rfloor> = (if z < of_int m then m - 1 else m)"
      using assms(4) unfolding z_def [symmetric] by (auto simp: floor_eq_iff)
    then show ?thesis using assms(4) unfolding z_def [symmetric] round_half_even_def Let_def by (auto split: if_splits)
  qed
  ultimately have "round_pos x = y" using assms(5) by (simp add: round_pos_def Let_def)
  with \<open>0 < x\<close> assms(6) show ?thesis by (simp add: round64_def Let_def)
qed

text \<open>No operation on amounts that are not negative goes below zero.\<close>

definition num_nonneg :: "number \<Rightarrow> bool" where
  "num_nonneg x \<longleftrightarrow> (case x of Fin a \<Rightarrow> 0 \<le> a | Infty \<Rightarrow> True | _ \<Rightarrow> False)"

lemma num_nonneg_simps [simp]: "num_nonneg (Fin a) \<longleftrightarrow> 0 \<le> a" "num_nonneg Infty" "\<not> num_nonneg NegInfty"
  "\<not> num_nonneg NaN"
  by (simp_all add: num_nonneg_def)

lemma round64_nonneg: "0 \<le> x \<Longrightarrow> num_nonneg (round64 x)"
  using round_pos_nonneg [of x] by (auto simp: round64_def Let_def)

lemma num_of_int_nonneg: "0 \<le> i \<Longrightarrow> num_nonneg (num_of_int i)"
  by (simp add: num_of_int_def round64_nonneg)

lemma num_add_nonneg: "num_nonneg x \<Longrightarrow> num_nonneg y \<Longrightarrow> num_nonneg (num_add x y)"
  by (cases x; cases y) (auto intro: round64_nonneg)

lemma num_mul_fin_nonneg: "num_nonneg x \<Longrightarrow> num_nonneg y \<Longrightarrow> num_mul x y = NaN \<or> num_nonneg (num_mul x y)"
  by (cases x; cases y) (auto simp: signed_inf_def intro: round64_nonneg split: if_splits)

lemma to_bigint_ceil_nonneg: "num_nonneg x \<Longrightarrow> to_bigint (num_ceil x) = Some b \<Longrightarrow> 0 \<le> b"
  by (cases x) (auto split: if_splits)

lemma toFixed_eighth: "toFixed (Fin (1 / 8)) 2 = ''0.13''"
  by code_simp

end
