(* ===== verification/Buy_Plan.thy ===== *)
theory Buy_Plan
  imports Js_Number
begin

text \<open>
  \<open>src/merge/lib/multiAssetBuyPlan.ts\<close>: what a purchase of Reserve Tokens has to fund,
  whether the wallet can pay for it, and when the final mint may be submitted. The swap
  budgets are sized in binary64 arithmetic, everything else in bigints.
\<close>

section \<open>Planning\<close>

definition WSOL :: string where "WSOL = ''So11111111111111111111111111111111111111112''"
definition MAINNET_USDC_MINT :: string where
  "MAINNET_USDC_MINT = ''EPjFWdd5AufqSSqeM2qN1xzybapC8G4wEGGkZwyTDt1v''"

record buy_leg =
  bl_mint :: string
  bl_decimals :: nat
  bl_requiredRaw :: int
  bl_walletHeldRaw :: int
  bl_purchaseAcquiredRaw :: int
  bl_priceUsd :: "number option"

definition countableAcquiredRaw :: "int \<Rightarrow> int \<Rightarrow> int" where
  "countableAcquiredRaw walletHeldRaw purchaseAcquiredRaw =
     (if purchaseAcquiredRaw < walletHeldRaw then purchaseAcquiredRaw else walletHeldRaw)"

datatype buy_action =
    Jupiter_swap string (deficitRaw: int) (usdcBudgetRaw: int) bool
  | Wrap_recovered_sol string (lamports: int)
  | Already_funded string int int

record buy_plan =
  bp_actions :: "buy_action list"
  bp_totalSwapUsdcRaw :: int
  bp_usdcLegRequiredRaw :: int
  bp_totalWrapLamports :: int

datatype buy_error = NoPrice string | BudgetNotAnInteger

definition BUY_SWAP_BUFFER_FRACTION :: number where
  "BUY_SWAP_BUFFER_FRACTION = round64 (2 / 100)"

text \<open>\<open>BigInt(Math.ceil(deficitUsd * (1 + BUY_SWAP_BUFFER_FRACTION) * 1_000_000))\<close>.\<close>

definition swap_budget :: "int \<Rightarrow> nat \<Rightarrow> number \<Rightarrow> int option" where
  "swap_budget deficit decimals priceUsd =
     (let deficitUsd = num_mul (num_div (num_of_int deficit) (pow10 decimals)) priceUsd in
      to_bigint (num_ceil (num_mul (num_mul deficitUsd (num_add (Fin 1) BUY_SWAP_BUFFER_FRACTION)) (Fin 1000000))))"

definition usable_price :: "number option \<Rightarrow> bool" where
  "usable_price p = (case p of None \<Rightarrow> False | Some x \<Rightarrow> isFinite x \<and> \<not> num_le x (Fin 0))"

text \<open>
  One round of the loop: the actions of the leg, its swap budget, the USDC it deposits and
  the lamports it wraps again.
\<close>

definition leg_countable :: "buy_leg \<Rightarrow> int" where
  "leg_countable leg = countableAcquiredRaw (bl_walletHeldRaw leg) (bl_purchaseAcquiredRaw leg)"

definition leg_deficit :: "buy_leg \<Rightarrow> int" where
  "leg_deficit leg = (if bl_requiredRaw leg > leg_countable leg then bl_requiredRaw leg - leg_countable leg else 0)"

definition leg_wrap :: "buy_leg \<Rightarrow> int" where
  "leg_wrap leg =
     (if bl_mint leg = WSOL \<and> bl_purchaseAcquiredRaw leg > bl_walletHeldRaw leg then
        let recoverable = bl_purchaseAcquiredRaw leg - bl_walletHeldRaw leg
        in (if recoverable < leg_deficit leg then recoverable else leg_deficit leg)
      else 0)"

definition wrap_actions :: "buy_leg \<Rightarrow> buy_action list" where
  "wrap_actions leg = (if leg_wrap leg > 0 then [Wrap_recovered_sol (bl_mint leg) (leg_wrap leg)] else [])"

definition plan_leg :: "buy_leg \<Rightarrow> buy_error + buy_plan" where
  "plan_leg leg =
     (if bl_mint leg = MAINNET_USDC_MINT then
        Inr \<lparr>bp_actions = [Already_funded (bl_mint leg) (bl_walletHeldRaw leg) (bl_requiredRaw leg)],
          bp_totalSwapUsdcRaw = 0, bp_usdcLegRequiredRaw = bl_requiredRaw leg, bp_totalWrapLamports = 0\<rparr>
      else if leg_deficit leg = 0 then
        Inr \<lparr>bp_actions = [Already_funded (bl_mint leg) (leg_countable leg) (bl_requiredRaw leg)],
          bp_totalSwapUsdcRaw = 0, bp_usdcLegRequiredRaw = 0, bp_totalWrapLamports = 0\<rparr>
      else if leg_deficit leg - leg_wrap leg = 0 then
        Inr \<lparr>bp_actions = wrap_actions leg, bp_totalSwapUsdcRaw = 0, bp_usdcLegRequiredRaw = 0,
          bp_totalWrapLamports = leg_wrap leg\<rparr>
      else if \<not> usable_price (bl_priceUsd leg) then Inl (NoPrice (bl_mint leg))
      else case swap_budget (leg_deficit leg - leg_wrap leg) (bl_decimals leg) (the (bl_priceUsd leg)) of
          None \<Rightarrow> Inl BudgetNotAnInteger
        | Some b \<Rightarrow>
            Inr \<lparr>bp_actions = wrap_actions leg @
                [Jupiter_swap (bl_mint leg) (leg_deficit leg - leg_wrap leg) b (bl_mint leg = WSOL)],
              bp_totalSwapUsdcRaw = b, bp_usdcLegRequiredRaw = 0, bp_totalWrapLamports = leg_wrap leg\<rparr>)"

definition no_plan :: buy_plan where
  "no_plan = \<lparr>bp_actions = [], bp_totalSwapUsdcRaw = 0, bp_usdcLegRequiredRaw = 0, bp_totalWrapLamports = 0\<rparr>"

definition add_plan :: "buy_plan \<Rightarrow> buy_plan \<Rightarrow> buy_plan" where
  "add_plan p q = \<lparr>bp_actions = bp_actions p @ bp_actions q,
     bp_totalSwapUsdcRaw = bp_totalSwapUsdcRaw p + bp_totalSwapUsdcRaw q,
     bp_usdcLegRequiredRaw = bp_usdcLegRequiredRaw p + bp_usdcLegRequiredRaw q,
     bp_totalWrapLamports = bp_totalWrapLamports p + bp_totalWrapLamports q\<rparr>"

fun plan_loop :: "buy_plan \<Rightarrow> buy_leg list \<Rightarrow> buy_error + buy_plan" where
  "plan_loop acc [] = Inr acc"
| "plan_loop acc (leg # legs) = rbind (plan_leg leg) (\<lambda>p. plan_loop (add_plan acc p) legs)"

definition planBuyFunding :: "buy_leg list \<Rightarrow> buy_error + buy_plan" where
  "planBuyFunding legs = plan_loop no_plan legs"

section \<open>Reconciliation and feasibility\<close>

record token_balance =
  tb_owner :: "string option"
  tb_mint :: string
  tb_amount :: int \<comment> \<open>\<open>BigInt(e.uiTokenAmount.amount)\<close>\<close>

definition sum_owned :: "token_balance list \<Rightarrow> string \<Rightarrow> string \<Rightarrow> int" where
  "sum_owned entries owner mint =
     foldl (\<lambda>acc e. acc + tb_amount e) 0 (filter (\<lambda>e. tb_owner e = Some owner \<and> tb_mint e = mint) entries)"

definition computeOwnerTokenDeltaRaw ::
  "token_balance list \<Rightarrow> token_balance list \<Rightarrow> string \<Rightarrow> string \<Rightarrow> int" where
  "computeOwnerTokenDeltaRaw pre post owner mint = sum_owned post owner mint - sum_owned pre owner mint"

record buy_feasibility =
  bf_feasible :: bool
  bf_requiredUsdcRaw :: int
  bf_missingUsdcRaw :: int
  bf_missingSolLamports :: int
  bf_reasons :: "string list"

definition DEFAULT_BUY_FEE_LAMPORTS :: int where "DEFAULT_BUY_FEE_LAMPORTS = 8000000"

definition ui_fixed :: "int \<Rightarrow> nat \<Rightarrow> nat \<Rightarrow> string" where
  \<comment> \<open>\<open>(Number(raw) / 10^d).toFixed(f)\<close>\<close>
  "ui_fixed raw d f = toFixed (num_div (num_of_int raw) (pow10 d)) f"

definition assessBuyFeasibility :: "buy_plan \<Rightarrow> int \<Rightarrow> int \<Rightarrow> int option \<Rightarrow> int option \<Rightarrow> buy_feasibility" where
  "assessBuyFeasibility plan walletUsdcRaw walletSolLamports estimatedFeeLamports usdcMintFeeRaw =
     (let fee = (case estimatedFeeLamports of Some f \<Rightarrow> f | None \<Rightarrow> DEFAULT_BUY_FEE_LAMPORTS) +
                bp_totalWrapLamports plan;
          requiredUsdc = bp_totalSwapUsdcRaw plan + bp_usdcLegRequiredRaw plan +
                (case usdcMintFeeRaw of Some f \<Rightarrow> f | None \<Rightarrow> 0);
          missingUsdc = (if requiredUsdc > walletUsdcRaw then requiredUsdc - walletUsdcRaw else 0);
          missingSol = (if fee > walletSolLamports then fee - walletSolLamports else 0);
          usdcReason = (if missingUsdc > 0 then
              [''this wallet holds '' @ ui_fixed walletUsdcRaw 6 2 @ '' USDC but this mint needs ~'' @
               ui_fixed requiredUsdc 6 2 @ '' USDC -- '' @ ui_fixed missingUsdc 6 2 @ '' USDC short''] else []);
          solReason = (if missingSol > 0 then
              [''this wallet holds '' @ ui_fixed walletSolLamports 9 4 @ '' SOL but needs ~'' @
               ui_fixed fee 9 4 @ '' SOL for network fees and account rent''] else [])
      in \<lparr>bf_feasible = (length (usdcReason @ solReason) = 0), bf_requiredUsdcRaw = requiredUsdc,
          bf_missingUsdcRaw = missingUsdc, bf_missingSolLamports = missingSol,
          bf_reasons = usdcReason @ solReason\<rparr>)"

definition shouldSubmitMint :: "int \<Rightarrow> int \<Rightarrow> int \<Rightarrow> bool" where
  "shouldSubmitMint preMintBalanceRaw currentBalanceRaw expectedNetRaw =
     (if expectedNetRaw \<le> 0 then False
      else let grown = currentBalanceRaw - preMintBalanceRaw;
               threshold = expectedNetRaw - expectedNetRaw sdiv 100
           in grown < threshold)"

section \<open>The state report\<close>

record buy_leg_line =
  ln_mint :: string
  ln_requiredRaw :: string
  ln_purchaseAcquiredRaw :: string
  ln_walletHeldRaw :: string
  ln_fundedEnough :: bool

record report_leg =
  rl_mint :: string
  rl_symbol :: string
  rl_requiredRaw :: int
  rl_walletHeldRaw :: int
  rl_purchaseAcquiredRaw :: int

record buy_report =
  br_legs :: "buy_leg_line list"
  br_reserveTokenMinted :: bool
  br_buyerBalanceRaw :: string
  br_failedStage :: string
  br_retrySummary :: string

definition funded_enough :: "report_leg \<Rightarrow> bool" where
  "funded_enough l \<longleftrightarrow> countableAcquiredRaw (rl_walletHeldRaw l) (rl_purchaseAcquiredRaw l) \<ge> rl_requiredRaw l"

definition wrap_recoverable :: "report_leg \<Rightarrow> bool" where
  "wrap_recoverable l \<longleftrightarrow> rl_mint l = WSOL \<and> rl_purchaseAcquiredRaw l > rl_walletHeldRaw l"

fun join :: "string \<Rightarrow> string list \<Rightarrow> string" where
  "join sep [] = []"
| "join sep [s] = s"
| "join sep (s # t # ss) = s @ sep @ join sep (t # ss)"

definition MSG_minted :: string where
  "MSG_minted = ''Your Reserve Tokens were already minted -- retrying will not mint again.''"
definition MSG_all_acquired :: string where
  "MSG_all_acquired = ''This mint already acquired every Reserve asset it needs -- retrying only re-submits the final mint, swapping nothing again.''"
definition MSG_rewrap :: string where
  "MSG_rewrap = ''Retrying will re-wrap the SOL this mint already swapped from your USDC (it was auto-unwrapped to regular SOL outside this mint's control) -- no extra USDC is spent for it.''"
definition MSG_rest :: string where
  "MSG_rest = ''Whatever this mint already acquired is counted first and never swapped for again, and other assets already in your wallet are never used in place of your USDC.''"

definition buildBuyStateReport ::
  "report_leg list \<Rightarrow> int \<Rightarrow> int \<Rightarrow> int \<Rightarrow> string \<Rightarrow> buy_report" where
  "buildBuyStateReport legs preMintRtRaw currentRtRaw expectedNetRaw failedStage =
     (let minted = \<not> shouldSubmitMint preMintRtRaw currentRtRaw expectedNetRaw;
          unfunded = filter (\<lambda>l. \<not> funded_enough l) legs;
          wraps = filter wrap_recoverable unfunded;
          needsUsdc = filter (\<lambda>l. \<not> wrap_recoverable l) unfunded
      in \<lparr>br_legs = map (\<lambda>l. \<lparr>ln_mint = rl_mint l, ln_requiredRaw = int_str (rl_requiredRaw l),
            ln_purchaseAcquiredRaw = int_str (rl_purchaseAcquiredRaw l),
            ln_walletHeldRaw = int_str (rl_walletHeldRaw l), ln_fundedEnough = funded_enough l\<rparr>) legs,
          br_reserveTokenMinted = minted, br_buyerBalanceRaw = int_str currentRtRaw,
          br_failedStage = failedStage,
          br_retrySummary =
            (if minted then MSG_minted
             else if length unfunded = 0 then MSG_all_acquired
             else join '' '' (filter (\<lambda>s. s \<noteq> [])
               [if length wraps > 0 then MSG_rewrap else [],
                if length needsUsdc > 0 then
                  ''Retrying will swap USDC for only the genuine remaining shortfall of: '' @
                  join '', '' (map rl_symbol needsUsdc) @ ''.'' else [],
                MSG_rest]))\<rparr>)"

section \<open>Properties\<close>

fun swap_deficit :: "buy_action \<Rightarrow> int" where
  "swap_deficit (Jupiter_swap m d b r) = d"
| "swap_deficit _ = 0"

fun wrapped :: "buy_action \<Rightarrow> int" where
  "wrapped (Wrap_recovered_sol m l) = l"
| "wrapped _ = 0"

fun budget :: "buy_action \<Rightarrow> int" where
  "budget (Jupiter_swap m d b r) = b"
| "budget _ = 0"

lemma usable_price_positive: "usable_price p \<Longrightarrow> \<exists>a. p = Some (Fin a) \<and> 0 < a"
  by (cases p rule: option.exhaust; cases "the p")
    (auto simp: usable_price_def isFinite_def num_le_def num_eq_def)

lemma swap_budget_nonneg:
  assumes "0 \<le> d" "usable_price p" "swap_budget d decs (the p) = Some b"
  shows "0 \<le> b"
proof -
  from usable_price_positive [OF assms(2)] obtain a where p: "p = Some (Fin a)" "0 < a" by blast
  have scale: "num_nonneg (num_add (Fin 1) BUY_SWAP_BUFFER_FRACTION)"
    by (rule num_add_nonneg) (simp_all add: BUY_SWAP_BUFFER_FRACTION_def round64_nonneg)
  have "num_nonneg (pow10 decs)" by (simp add: pow10_def round64_nonneg)
  then have q: "num_div (num_of_int d) (pow10 decs) = NaN \<or> num_nonneg (num_div (num_of_int d) (pow10 decs))"
    using num_of_int_nonneg [OF assms(1)]
    by (cases "num_of_int d"; cases "pow10 decs") (auto simp: signed_inf_def intro: round64_nonneg)
  have nan: "num_mul NaN y = NaN" for y by simp
  have step: "x = NaN \<or> num_nonneg x \<Longrightarrow> num_nonneg y \<Longrightarrow> num_mul x y = NaN \<or> num_nonneg (num_mul x y)" for x y
    using num_mul_fin_nonneg by auto
  let ?r = "num_mul (num_mul (num_mul (num_div (num_of_int d) (pow10 decs)) (Fin a))
      (num_add (Fin 1) BUY_SWAP_BUFFER_FRACTION)) (Fin 1000000)"
  have "?r = NaN \<or> num_nonneg ?r"
    using p(2) by (intro step q scale) simp_all
  moreover have "to_bigint (num_ceil ?r) = Some b" using assms(3) p by (simp add: swap_budget_def Let_def)
  ultimately show ?thesis using to_bigint_ceil_nonneg by auto
qed

text \<open>What one leg's part of the plan does.\<close>

definition leg_funded :: "buy_leg \<Rightarrow> buy_plan \<Rightarrow> bool" where
  "leg_funded leg p \<longleftrightarrow>
     bp_totalSwapUsdcRaw p = sum_list (map budget (bp_actions p)) \<and>
     bp_totalWrapLamports p = sum_list (map wrapped (bp_actions p)) \<and>
     0 \<le> bp_totalSwapUsdcRaw p \<and> 0 \<le> bp_totalWrapLamports p \<and>
     (if bl_mint leg = MAINNET_USDC_MINT
      then bp_usdcLegRequiredRaw p = bl_requiredRaw leg \<and> bp_totalSwapUsdcRaw p = 0 \<and> bp_totalWrapLamports p = 0
      else
        bp_usdcLegRequiredRaw p = 0 \<and>
        max (bl_requiredRaw leg) (leg_countable leg) =
          leg_countable leg + sum_list (map wrapped (bp_actions p)) + sum_list (map swap_deficit (bp_actions p)) \<and>
        (bp_totalWrapLamports p \<noteq> 0 \<longrightarrow> bl_mint leg = WSOL \<and>
           bp_totalWrapLamports p \<le> bl_purchaseAcquiredRaw leg - bl_walletHeldRaw leg))"

lemma leg_wrap_bounds:
  "0 \<le> leg_wrap leg" "leg_wrap leg \<le> leg_deficit leg" "0 \<le> leg_deficit leg"
  "leg_wrap leg \<noteq> 0 \<Longrightarrow> bl_mint leg = WSOL \<and> leg_wrap leg \<le> bl_purchaseAcquiredRaw leg - bl_walletHeldRaw leg"
  by (auto simp: leg_wrap_def leg_deficit_def Let_def split: if_splits)

lemma deficit_max: "max (bl_requiredRaw leg) (leg_countable leg) = leg_countable leg + leg_deficit leg"
  by (auto simp: leg_deficit_def)

lemma wrap_actions_sums [simp]: "sum_list (map wrapped (wrap_actions leg)) = leg_wrap leg"
  "sum_list (map budget (wrap_actions leg)) = 0" "sum_list (map swap_deficit (wrap_actions leg)) = 0"
  using leg_wrap_bounds(1) [of leg] by (auto simp: wrap_actions_def)

lemma plan_leg_funded:
  assumes "plan_leg leg = Inr p"
  shows "leg_funded leg p"
proof (cases "bl_mint leg = MAINNET_USDC_MINT \<or> leg_deficit leg = 0 \<or> leg_deficit leg - leg_wrap leg = 0")
  case True
  then show ?thesis using assms leg_wrap_bounds [of leg]
    by (auto simp: plan_leg_def leg_funded_def deficit_max split: if_splits)
next
  case False
  then obtain b where price: "usable_price (bl_priceUsd leg)"
    and b: "swap_budget (leg_deficit leg - leg_wrap leg) (bl_decimals leg) (the (bl_priceUsd leg)) = Some b"
    and p: "p = \<lparr>bp_actions = wrap_actions leg @
        [Jupiter_swap (bl_mint leg) (leg_deficit leg - leg_wrap leg) b (bl_mint leg = WSOL)],
      bp_totalSwapUsdcRaw = b, bp_usdcLegRequiredRaw = 0, bp_totalWrapLamports = leg_wrap leg\<rparr>"
    using assms by (auto simp: plan_leg_def split: if_splits option.splits)
  have "0 \<le> b" by (rule swap_budget_nonneg [OF _ price b]) (use leg_wrap_bounds [of leg] in simp)
  then show ?thesis using False leg_wrap_bounds [of leg] by (simp add: p leg_funded_def deficit_max)
qed

lemma plan_loop_split:
  "plan_loop acc legs = Inr plan \<Longrightarrow> \<exists>parts. list_all2 leg_funded legs parts \<and> plan = foldl add_plan acc parts"
proof (induction legs arbitrary: acc)
  case (Cons leg legs)
  then obtain p where p: "plan_leg leg = Inr p" and rest: "plan_loop (add_plan acc p) legs = Inr plan"
    by (auto simp: res_iff)
  from Cons.IH [OF rest] obtain parts where "list_all2 leg_funded legs parts" "plan = foldl add_plan (add_plan acc p) parts"
    by blast
  then show ?case using plan_leg_funded [OF p] by (intro exI [of _ "p # parts"]) simp
qed simp


definition demo_legs :: "buy_leg list" where
  "demo_legs = [\<lparr>bl_mint = MAINNET_USDC_MINT, bl_decimals = 6, bl_requiredRaw = 5, bl_walletHeldRaw = 9,
       bl_purchaseAcquiredRaw = 0, bl_priceUsd = None\<rparr>,
     \<lparr>bl_mint = WSOL, bl_decimals = 9, bl_requiredRaw = 100, bl_walletHeldRaw = 40,
       bl_purchaseAcquiredRaw = 120, bl_priceUsd = None\<rparr>]"


text \<open>
  The double-mint guard. Once the buyer's balance has grown by the expected net output,
  or by up to 1% less, the mint is not submitted again, whatever the client believes; and
  while it has grown by less than 99% of it, the mint is submitted.
\<close>

theorem no_double_mint:
  assumes "0 < expected"
  shows "(pre + expected \<le> current \<longrightarrow> \<not> shouldSubmitMint pre current expected) \<and>
    (100 * (current - pre) \<ge> 99 * expected + 99 \<longrightarrow> \<not> shouldSubmitMint pre current expected) \<and>
    (100 * (current - pre) < 99 * expected \<longrightarrow> shouldSubmitMint pre current expected)"
proof -
  have q: "expected sdiv 100 = expected div 100" using assms by (simp add: sdiv_nonneg_eq)
  have "100 * (expected div 100) \<le> expected" "expected < 100 * (expected div 100) + 100"
    using pos_mod_bound [of 100 expected] pos_mod_sign [of 100 expected] mult_div_mod_eq [of 100 expected] by linarith+
  with assms q show ?thesis by (auto simp: shouldSubmitMint_def)
qed

theorem no_double_mint_witness: "\<not> shouldSubmitMint 7 1007 1000 \<and> shouldSubmitMint 7 7 1000"
  using no_double_mint [of 1000 7 1007] no_double_mint [of 1000 7 7] by simp

text \<open>
  The feasibility gate is exact: it lets a purchase through precisely when the wallet
  holds all the USDC the plan, the USDC leg and the fee will take and the SOL for fees and
  re-wrapping; the missing amounts are what would have to be added; and the report after a
  failure says \<open>already minted\<close> exactly when the guard refuses another mint.
\<close>

theorem feasibility_exact:
  assumes "f = assessBuyFeasibility plan usdc sol fee mintFee"
  shows "(bf_feasible f \<longleftrightarrow> bf_requiredUsdcRaw f \<le> usdc \<and>
      (case fee of Some x \<Rightarrow> x | None \<Rightarrow> 8000000) + bp_totalWrapLamports plan \<le> sol) \<and>
    bf_requiredUsdcRaw f = bp_totalSwapUsdcRaw plan + bp_usdcLegRequiredRaw plan +
      (case mintFee of Some x \<Rightarrow> x | None \<Rightarrow> 0) \<and>
    bf_missingUsdcRaw f = max 0 (bf_requiredUsdcRaw f - usdc) \<and>
    bf_feasible (assessBuyFeasibility plan (usdc + bf_missingUsdcRaw f) (sol + bf_missingSolLamports f) fee mintFee) \<and>
    (br_retrySummary (buildBuyStateReport legs pre current net stage) = MSG_minted \<longleftrightarrow>
       \<not> shouldSubmitMint pre current net)"
proof -
  have "join '' '' (filter (\<lambda>s. s \<noteq> []) [x, y, MSG_rest]) \<noteq> MSG_minted"
    if "x = [] \<or> x = MSG_rewrap" "y = [] \<or> (\<exists>t. y = ''Retrying will swap USDC for only the genuine remaining shortfall of: '' @ t)" for x y
    using that by (auto simp: MSG_rewrap_def MSG_rest_def MSG_minted_def)
  moreover have "MSG_all_acquired \<noteq> MSG_minted" by (simp add: MSG_all_acquired_def MSG_minted_def)
  ultimately have "br_retrySummary (buildBuyStateReport legs pre current net stage) = MSG_minted \<longleftrightarrow>
      \<not> shouldSubmitMint pre current net"
    unfolding buildBuyStateReport_def Let_def buy_report.select_convs by (auto split: if_splits)
  then show ?thesis unfolding assms
    by (auto simp: assessBuyFeasibility_def Let_def DEFAULT_BUY_FEE_LAMPORTS_def split: option.splits)
qed

theorem feasibility_exact_witness:
  "bf_feasible (assessBuyFeasibility no_plan 0 8000000 None None)"
  using feasibility_exact [OF refl, of no_plan 0 8000000 None None]
  by (simp add: assessBuyFeasibility_def no_plan_def DEFAULT_BUY_FEE_LAMPORTS_def)

end
