(* ===== verification/Rpc_Resilience.thy ===== *)
theory Rpc_Resilience
  imports Js_Text
begin

text \<open>
  \<open>packages/sdk/src/rpcResilience.ts\<close> and \<open>src/merge/lib/rpcResilience.ts\<close>: retrying
  rate-limited reads, the shared cache with in-flight de-duplication, the concurrency and
  rate caps on reads, and confirming a submitted transaction by bounded polling. What the
  RPC answers and what the clock shows are arguments; timers only let time pass.
\<close>

section \<open>Rate-limit errors and retries\<close>

definition is_word :: "char \<Rightarrow> bool" where
  "is_word c \<longleftrightarrow> is_digit c \<or> 65 \<le> code c \<and> code c \<le> 90 \<or> 97 \<le> code c \<and> code c \<le> 122 \<or> c = CHR ''_''"

definition word_ends :: "string \<Rightarrow> bool" where
  "word_ends s \<longleftrightarrow> (case s of [] \<Rightarrow> True | c # _ \<Rightarrow> \<not> is_word c)"

text \<open>
  \<open>/\b429\b/\<close>: the token 429 where no word character stands before or after it.
  The flag says whether the position is at a boundary on its left.
\<close>

fun word_429 :: "bool \<Rightarrow> string \<Rightarrow> bool" where
  "word_429 boundary [] = False"
| "word_429 boundary (c # s) =
     (boundary \<and> starts_with ''429'' (c # s) \<and> word_ends (drop 3 (c # s)) \<or> word_429 (\<not> is_word c) s)"

definition isRateLimitError :: "string \<Rightarrow> bool" where
  "isRateLimitError message =
     (let msg = toLowerCase message in
      word_429 True msg \<or> str_includes msg ''too many requests'' \<or>
      str_includes msg ''too many'' \<and> str_includes msg ''requests'')"

text \<open>
  \<open>withRateLimitRetry\<close>: \<open>fn i\<close> is what the i-th call of the read does. The result
  carries the number of calls made.
\<close>

function retry_from :: "(nat \<Rightarrow> string + 'a) \<Rightarrow> nat \<Rightarrow> nat \<Rightarrow> (string + 'a) \<times> nat" where
  "retry_from fn maxRetries attempt =
     (case fn attempt of
        Inr v \<Rightarrow> (Inr v, attempt + 1)
      | Inl e \<Rightarrow>
          if \<not> isRateLimitError e \<or> attempt \<ge> maxRetries then (Inl e, attempt + 1)
          else retry_from fn maxRetries (attempt + 1))"
  by pat_completeness auto
termination by (relation "measure (\<lambda>(fn, maxRetries, attempt). maxRetries - attempt)") auto

declare retry_from.simps [simp del]

definition withRateLimitRetry :: "(nat \<Rightarrow> string + 'a) \<Rightarrow> nat \<Rightarrow> (string + 'a) \<times> nat" where
  "withRateLimitRetry fn maxRetries = retry_from fn maxRetries 0"

section \<open>Cache and in-flight requests\<close>

text \<open>
  The two module-level maps. A request in flight carries the time it was sent, which the
  code does not look at; it lets a theorem speak about the age of an answer. The events
  are a call of \<open>getCached\<close>, a request that settles, and the two invalidations.
\<close>

record 'v cache_state =
  cs_cache :: "(string \<times> ('v \<times> int)) list"
  cs_inFlight :: "(string \<times> int) list"
  cs_fetches :: "(string \<times> int) list"

datatype 'v answer = FromCache 'v | JoinsInFlight int | Starts

definition getCached :: "'v cache_state \<Rightarrow> string \<Rightarrow> int \<Rightarrow> 'v answer \<times> 'v cache_state" where
  "getCached s key now =
     (case dget (cs_cache s) key of
        Some (v, expiresAt) \<Rightarrow>
          if expiresAt > now then (FromCache v, s)
          else (case dget (cs_inFlight s) key of
            Some sent \<Rightarrow> (JoinsInFlight sent, s)
          | None \<Rightarrow> (Starts, s\<lparr>cs_inFlight := dput key now (cs_inFlight s), cs_fetches := (key, now) # cs_fetches s\<rparr>))
      | None \<Rightarrow> (case dget (cs_inFlight s) key of
            Some sent \<Rightarrow> (JoinsInFlight sent, s)
          | None \<Rightarrow> (Starts, s\<lparr>cs_inFlight := dput key now (cs_inFlight s), cs_fetches := (key, now) # cs_fetches s\<rparr>)))"

definition settle_ok :: "'v cache_state \<Rightarrow> string \<Rightarrow> 'v \<Rightarrow> int \<Rightarrow> int \<Rightarrow> 'v cache_state" where
  \<comment> \<open>the \<open>then\<close> and the \<open>finally\<close> of a fulfilled request\<close>
  "settle_ok s key v now ttlMs =
     s\<lparr>cs_cache := dput key (v, now + ttlMs) (cs_cache s), cs_inFlight := ddel key (cs_inFlight s)\<rparr>"

definition settle_failed :: "'v cache_state \<Rightarrow> string \<Rightarrow> 'v cache_state" where
  "settle_failed s key = s\<lparr>cs_inFlight := ddel key (cs_inFlight s)\<rparr>"

definition invalidateCached :: "'v cache_state \<Rightarrow> string \<Rightarrow> 'v cache_state" where
  "invalidateCached s key = s\<lparr>cs_cache := ddel key (cs_cache s)\<rparr>"

definition invalidateCachedPrefix :: "'v cache_state \<Rightarrow> string \<Rightarrow> 'v cache_state" where
  "invalidateCachedPrefix s p = s\<lparr>cs_cache := filter (\<lambda>(k, _). \<not> starts_with p k) (cs_cache s)\<rparr>"

definition tokenBalanceCacheKey :: "string \<Rightarrow> string \<Rightarrow> string \<Rightarrow> string" where
  "tokenBalanceCacheKey endpoint mint owner = ''balance:'' @ endpoint @ '':'' @ mint @ '':'' @ owner"

definition no_cache :: "'v cache_state" where
  "no_cache = \<lparr>cs_cache = [], cs_inFlight = [], cs_fetches = []\<rparr>"

text \<open>
  The cached value of the key is of a request sent at \<open>sent\<close>. Steps of the store, with
  the value of a settled request being the world's value when it was sent.
\<close>

inductive cache_step :: "(string \<Rightarrow> int \<Rightarrow> 'v) \<Rightarrow> 'v cache_state \<Rightarrow> 'v cache_state \<Rightarrow> bool" for world where
  ask: "getCached s key now = (a, s') \<Longrightarrow> cache_step world s s'"
| fulfilled: "dget (cs_inFlight s) key = Some sent \<Longrightarrow>
    cache_step world s (settle_ok s key (world key sent) now ttl)"
| rejected: "dget (cs_inFlight s) key = Some sent \<Longrightarrow> cache_step world s (settle_failed s key)"
| invalidate: "cache_step world s (invalidateCached s key)"
| invalidate_prefix: "cache_step world s (invalidateCachedPrefix s p)"

definition cache_ok :: "(string \<Rightarrow> int \<Rightarrow> 'v) \<Rightarrow> 'v cache_state \<Rightarrow> bool" where
  "cache_ok world s \<longleftrightarrow>
     (\<forall>key sent. dget (cs_inFlight s) key = Some sent \<longrightarrow> (key, sent) \<in> set (cs_fetches s)) \<and>
     (\<forall>key v e. dget (cs_cache s) key = Some (v, e) \<longrightarrow> (\<exists>sent. (key, sent) \<in> set (cs_fetches s) \<and> v = world key sent))"

section \<open>Rate and concurrency of reads\<close>

definition MAX_CONCURRENT_READS :: nat where "MAX_CONCURRENT_READS = 4"
definition MAX_READS_PER_SECOND :: nat where "MAX_READS_PER_SECOND = 25"
definition RATE_WINDOW_MS :: int where "RATE_WINDOW_MS = 1000"

text \<open>One round of the loop of \<open>acquireReadRateSlot\<close> at time \<open>now\<close>: granted, or how long to wait.\<close>

datatype slot = Granted | Wait int

definition rate_round :: "int list \<Rightarrow> int \<Rightarrow> slot \<times> int list" where
  "rate_round starts now =
     (let live = dropWhile (\<lambda>t. now - t \<ge> RATE_WINDOW_MS) starts in
      if length live < MAX_READS_PER_SECOND then (Granted, live @ [now])
      else (Wait (RATE_WINDOW_MS - (now - hd live) + 5), live))"

text \<open>
  All rounds of all readers in the order they happen; the grants in order. The clock does
  not go backwards.
\<close>

fun rate_run :: "int list \<Rightarrow> int list \<Rightarrow> int list" where
  "rate_run starts [] = []"
| "rate_run starts (now # nows) =
     (case rate_round starts now of
        (Granted, starts') \<Rightarrow> now # rate_run starts' nows
      | (Wait _, starts') \<Rightarrow> rate_run starts' nows)"

text \<open>
  \<open>withReadConcurrencyLimit\<close>: a caller runs up to its first suspension in one go, and a
  woken waiter continues in a later microtask. \<open>queued\<close> callers wait in \<open>readWaitQueue\<close>,
  \<open>woken\<close> ones have been resolved and not resumed yet.
\<close>

record read_state =
  rs_active :: nat
  rs_queued :: nat
  rs_woken :: nat

inductive read_step :: "read_state \<Rightarrow> read_state \<Rightarrow> bool" where
  enter: "rs_active s < MAX_CONCURRENT_READS \<Longrightarrow> read_step s (s\<lparr>rs_active := rs_active s + 1\<rparr>)"
| enqueue: "rs_active s \<ge> MAX_CONCURRENT_READS \<Longrightarrow> read_step s (s\<lparr>rs_queued := rs_queued s + 1\<rparr>)"
| resume: "rs_woken s > 0 \<Longrightarrow>
    read_step s (s\<lparr>rs_active := rs_active s + 1, rs_woken := rs_woken s - 1\<rparr>)"
| finish_wake: "rs_active s > 0 \<Longrightarrow> rs_queued s > 0 \<Longrightarrow>
    read_step s \<lparr>rs_active = rs_active s - 1, rs_queued = rs_queued s - 1, rs_woken = rs_woken s + 1\<rparr>"
| finish: "rs_active s > 0 \<Longrightarrow> rs_queued s = 0 \<Longrightarrow> read_step s (s\<lparr>rs_active := rs_active s - 1\<rparr>)"

definition read_init :: read_state where
  "read_init = \<lparr>rs_active = 0, rs_queued = 0, rs_woken = 0\<rparr>"

section \<open>Confirming a transaction\<close>

datatype commitment = Processed | Confirmed_c | Finalized

record sig_status =
  ss_err :: "string option"
  ss_commitment :: commitment

datatype outcome = Confirmed | Failed string | Expired | Unknown

text \<open>
  What one round of polling sees: the signature status (the outer \<open>None\<close> is a call that
  threw), the block height, and the clock where the code reads it.
\<close>

record poll =
  p_status :: "sig_status option option"
  p_height :: "nat option"
  p_now :: int

definition landed_status :: "sig_status \<Rightarrow> bool" where
  "landed_status st \<longleftrightarrow> ss_commitment st = Confirmed_c \<or> ss_commitment st = Finalized"

definition status_outcome :: "sig_status option \<Rightarrow> outcome option" where
  "status_outcome status =
     (case status of
        None \<Rightarrow> None
      | Some st \<Rightarrow> (case ss_err st of
          Some e \<Rightarrow> Some (Failed e)
        | None \<Rightarrow> if landed_status st then Some Confirmed else None))"

definition height_passed :: "nat option \<Rightarrow> nat \<Rightarrow> bool" where
  "height_passed h lastValid = (case h of None \<Rightarrow> False | Some b \<Rightarrow> b > lastValid)"

text \<open>One round of \<open>confirmSignatureBounded\<close>, and its loop over at most \<open>n\<close> rounds.\<close>

definition confirm_round :: "poll \<Rightarrow> nat \<Rightarrow> outcome option" where
  "confirm_round p lastValid =
     (case p_status p of
        None \<Rightarrow> None
      | Some status \<Rightarrow> (case status_outcome status of
          Some out \<Rightarrow> Some out
        | None \<Rightarrow> if height_passed (p_height p) lastValid then Some Expired else None))"

fun confirm_loop :: "poll list \<Rightarrow> nat \<Rightarrow> nat \<Rightarrow> outcome" where
  "confirm_loop polls lastValid 0 = Unknown"
| "confirm_loop [] lastValid (Suc n) = Unknown"
| "confirm_loop (p # polls) lastValid (Suc n) =
     (case confirm_round p lastValid of Some out \<Rightarrow> out | None \<Rightarrow> confirm_loop polls lastValid n)"

definition confirmSignatureBounded :: "poll list \<Rightarrow> nat \<Rightarrow> nat \<Rightarrow> outcome" where
  "confirmSignatureBounded polls lastValidBlockHeight maxAttempts =
     confirm_loop polls lastValidBlockHeight maxAttempts"

text \<open>
  \<open>sendAndConfirmWithRebroadcast\<close>: the same rounds, and the identical bytes pushed again
  while the cluster has not seen the signature. The second component is the times of the
  rebroadcasts.
\<close>

fun rebroadcast_loop :: "poll list \<Rightarrow> nat \<Rightarrow> int \<Rightarrow> int \<Rightarrow> nat \<Rightarrow> outcome \<times> int list" where
  "rebroadcast_loop polls lastValid every lastAt 0 = (Unknown, [])"
| "rebroadcast_loop [] lastValid every lastAt (Suc n) = (Unknown, [])"
| "rebroadcast_loop (p # polls) lastValid every lastAt (Suc n) =
     (case confirm_round p lastValid of
        Some out \<Rightarrow> (out, [])
      | None \<Rightarrow>
          if p_status p = Some None \<and> p_now p - lastAt \<ge> every then
            (case rebroadcast_loop polls lastValid every (p_now p) n of (out, sent) \<Rightarrow> (out, p_now p # sent))
          else rebroadcast_loop polls lastValid every lastAt n)"

definition sendAndConfirmWithRebroadcast :: "poll list \<Rightarrow> nat \<Rightarrow> int \<Rightarrow> int \<Rightarrow> nat \<Rightarrow> outcome \<times> int list" where
  "sendAndConfirmWithRebroadcast polls lastValidBlockHeight rebroadcastEveryMs sentAt maxAttempts =
     rebroadcast_loop polls lastValidBlockHeight rebroadcastEveryMs sentAt maxAttempts"

definition LEGACY_PENDING_EXPIRY_MS :: int where "LEGACY_PENDING_EXPIRY_MS = 10 * 60000"

definition unknownSignatureExpired :: "nat \<Rightarrow> nat option \<Rightarrow> int \<Rightarrow> int \<Rightarrow> bool" where
  "unknownSignatureExpired currentBlockHeight lastValidBlockHeight startedAt now =
     (case lastValidBlockHeight of
        Some l \<Rightarrow> currentBlockHeight > l
      | None \<Rightarrow> now - startedAt > LEGACY_PENDING_EXPIRY_MS)"

text \<open>
  One round of \<open>resolveSubmittedSignature\<close>. The height is read first; a failure of either
  call makes the round inconclusive.
\<close>

definition resolve_round :: "poll \<Rightarrow> nat option \<Rightarrow> int \<Rightarrow> outcome option" where
  "resolve_round p lastValid startedAt =
     (case (p_height p, p_status p) of
        (Some height, Some status) \<Rightarrow>
          (case status_outcome status of
             Some out \<Rightarrow> Some out
           | None \<Rightarrow>
               if status = None \<and> unknownSignatureExpired height lastValid startedAt (p_now p)
               then Some Expired else None)
      | _ \<Rightarrow> None)"

text \<open>The loop has no bound on its rounds but on the time: \<open>None\<close> would be not returning.\<close>

partial_function (option) resolve_from ::
  "(nat \<Rightarrow> poll) \<Rightarrow> nat option \<Rightarrow> int \<Rightarrow> int \<Rightarrow> int \<Rightarrow> nat \<Rightarrow> outcome option" where
  "resolve_from polls lastValid startedAt t0 maxWaitMs k =
     (case resolve_round (polls k) lastValid startedAt of
        Some out \<Rightarrow> Some out
      | None \<Rightarrow>
          if p_now (polls k) - t0 \<ge> maxWaitMs then Some Unknown
          else resolve_from polls lastValid startedAt t0 maxWaitMs (k + 1))"

definition resolveSubmittedSignature ::
  "(nat \<Rightarrow> poll) \<Rightarrow> nat option \<Rightarrow> int \<Rightarrow> int \<Rightarrow> int \<Rightarrow> outcome option" where
  "resolveSubmittedSignature polls lastValidBlockHeight startedAt t0 maxWaitMs =
     resolve_from polls lastValidBlockHeight startedAt t0 maxWaitMs 0"

section \<open>Transaction phases\<close>

datatype tx_phase = Idle | Preparing | Awaiting_wallet | Submitted | Confirming | Confirmed_p | Failed_p
  | Expired_p | Unresolved

definition canSubmitNewTransaction :: "tx_phase \<Rightarrow> bool" where
  "canSubmitNewTransaction phase \<longleftrightarrow>
     phase = Idle \<or> phase = Confirmed_p \<or> phase = Failed_p \<or> phase = Expired_p \<or> phase = Unresolved"

fun txPhaseLabel :: "tx_phase \<Rightarrow> string \<Rightarrow> string option" where
  "txPhaseLabel Preparing label = Some ''Preparing transaction...''"
| "txPhaseLabel Awaiting_wallet label = Some ''Waiting for wallet approval...''"
| "txPhaseLabel Submitted label = Some (''Submitted -- confirming on '' @ label @ ''...'')"
| "txPhaseLabel Confirming label = Some (''Submitted -- confirming on '' @ label @ ''...'')"
| "txPhaseLabel Unresolved label =
     Some (label @ '' RPC is temporarily busy -- your transaction is still being verified'')"
| "txPhaseLabel _ label = None"

fun txPhaseShortLabel :: "tx_phase \<Rightarrow> string option" where
  "txPhaseShortLabel Preparing = Some ''Preparing...''"
| "txPhaseShortLabel Awaiting_wallet = Some ''Approve in Wallet...''"
| "txPhaseShortLabel Submitted = Some ''Confirming...''"
| "txPhaseShortLabel Confirming = Some ''Confirming...''"
| "txPhaseShortLabel Unresolved = Some ''Verifying...''"
| "txPhaseShortLabel _ = None"

datatype direction = Increase | Decrease

definition reconcileByBalanceChange :: "int \<Rightarrow> int \<Rightarrow> direction \<Rightarrow> bool" where
  "reconcileByBalanceChange beforeRaw afterRaw d =
     (if d = Decrease then afterRaw < beforeRaw else afterRaw > beforeRaw)"

lemma in_flight_phases: "\<not> canSubmitNewTransaction p \<longleftrightarrow> txPhaseShortLabel p \<noteq> None \<and> p \<noteq> Unresolved"
  by (cases p) (simp_all add: canSubmitNewTransaction_def)

lemma labels_agree: "txPhaseLabel p label = None \<longleftrightarrow> txPhaseShortLabel p = None"
  by (cases p) simp_all

section \<open>Properties\<close>

text \<open>Retries.\<close>

lemma retry_from_exact:
  assumes "retry_from fn maxRetries a = (r, n)" "a \<le> maxRetries"
  shows "a < n \<and> n \<le> maxRetries + 1 \<and> r = fn (n - 1) \<and>
    (\<forall>i. a \<le> i \<and> i < n - 1 \<longrightarrow> (\<exists>e. fn i = Inl e \<and> isRateLimitError e)) \<and>
    (\<forall>e. r = Inl e \<longrightarrow> isRateLimitError e \<longrightarrow> n = maxRetries + 1)"
  using assms
proof (induction fn maxRetries a arbitrary: r n rule: retry_from.induct)
  case (1 fn maxRetries a)
  show ?case
  proof (cases "fn a")
    case (Inr v)
    then show ?thesis using 1(2,3) by (auto simp: retry_from.simps [of fn maxRetries a])
  next
    case (Inl e)
    show ?thesis
    proof (cases "\<not> isRateLimitError e \<or> maxRetries \<le> a")
      case True
      then show ?thesis using 1(2,3) Inl by (auto simp: retry_from.simps [of fn maxRetries a])
    next
      case False
      then have "retry_from fn maxRetries (a + 1) = (r, n)"
        using 1(2) Inl by (simp add: retry_from.simps [of fn maxRetries a])
      moreover have "a + 1 \<le> maxRetries" using False by simp
      ultimately have ih: "a + 1 < n \<and> n \<le> maxRetries + 1 \<and> r = fn (n - 1) \<and>
        (\<forall>i. a + 1 \<le> i \<and> i < n - 1 \<longrightarrow> (\<exists>e. fn i = Inl e \<and> isRateLimitError e)) \<and>
        (\<forall>e. r = Inl e \<longrightarrow> isRateLimitError e \<longrightarrow> n = maxRetries + 1)" by (rule 1(1) [OF Inl False])
      have "\<exists>e. fn i = Inl e \<and> isRateLimitError e" if "a \<le> i" "i < n - 1" for i
      proof (cases "i = a")
        case True
        then show ?thesis using Inl False by simp
      next
        case neq: False
        then have "a + 1 \<le> i" using that by simp
        with ih that show ?thesis by blast
      qed
      then have calls: "\<forall>i. a \<le> i \<and> i < n - 1 \<longrightarrow> (\<exists>e. fn i = Inl e \<and> isRateLimitError e)" by blast
      have "a < n" by (rule Suc_lessD) (use ih [THEN conjunct1] in simp)
      then show ?thesis
        using ih [THEN conjunct2, THEN conjunct1] ih [THEN conjunct2, THEN conjunct2, THEN conjunct1] calls
          ih [THEN conjunct2, THEN conjunct2, THEN conjunct2, THEN conjunct2]
        by (intro conjI)
    qed
  qed
qed

text \<open>
  A retried read calls its function at least once and at most \<open>maxRetries + 1\<close> times,
  returns what the last call did, retries only after rate-limit errors, and gives up on a
  rate-limit error only when the retries are used up. Any other error is rethrown at once.
\<close>

theorem retry_only_rate_limits:
  fixes fn :: "nat \<Rightarrow> string + 'a"
  assumes "withRateLimitRetry fn maxRetries = (r, n)"
  shows "0 < n \<and> n \<le> maxRetries + 1 \<and> r = fn (n - 1) \<and>
    (\<forall>i < n - 1. \<exists>e. fn i = Inl e \<and> isRateLimitError e) \<and>
    (\<forall>e. r = Inl e \<and> isRateLimitError e \<longrightarrow> n = maxRetries + 1)"
proof -
  have "retry_from fn maxRetries 0 = (r, n)" using assms by (simp add: withRateLimitRetry_def)
  from retry_from_exact [OF this] show ?thesis by blast
qed

theorem retry_only_rate_limits_witness:
  "withRateLimitRetry (\<lambda>i. if i < 2 then Inl ''HTTP 429'' else Inr (7::int)) 3 = (Inr 7, 3) \<and> (3::nat) \<le> 3 + 1"
proof -
  have "isRateLimitError ''HTTP 429''"
    by (simp add: isRateLimitError_def toLowerCase_def lower_char_def is_word_def is_digit_def word_ends_def
        str_includes.simps code_def)
  then have run: "withRateLimitRetry (\<lambda>i. if i < 2 then Inl ''HTTP 429'' else Inr (7::int)) 3 = (Inr 7, 3)"
    by (simp add: withRateLimitRetry_def retry_from.simps)
  then show ?thesis using retry_only_rate_limits [OF run] by simp
qed

text \<open>The sliding window.\<close>

definition spaced :: "int list \<Rightarrow> bool" where
  "spaced xs \<longleftrightarrow> (\<forall>i. i + MAX_READS_PER_SECOND < length xs \<longrightarrow>
     xs ! i + RATE_WINDOW_MS \<le> xs ! (i + MAX_READS_PER_SECOND))"

lemma spaced_snoc:
  assumes "spaced (D @ live)" "length live < MAX_READS_PER_SECOND" "\<forall>t \<in> set D. t + RATE_WINDOW_MS \<le> now"
  shows "spaced (D @ live @ [now])"
  unfolding spaced_def
proof (intro allI impI)
  fix i
  assume i: "i + MAX_READS_PER_SECOND < length (D @ live @ [now])"
  show "(D @ live @ [now]) ! i + RATE_WINDOW_MS \<le> (D @ live @ [now]) ! (i + MAX_READS_PER_SECOND)"
  proof (cases "i + MAX_READS_PER_SECOND < length (D @ live)")
    case True
    then show ?thesis using assms(1) nth_append [of "D @ live" "[now]"] by (simp add: spaced_def)
  next
    case False
    with i have last: "i + MAX_READS_PER_SECOND = length (D @ live)" by simp
    then have "i < length D" using assms(2) by simp
    moreover have "(D @ live @ [now]) ! (i + MAX_READS_PER_SECOND) = now"
      unfolding last by (simp add: nth_append)
    ultimately show ?thesis using assms(3) by (simp add: nth_append)
  qed
qed

lemma rate_run_spaced:
  assumes "sorted nows" "\<forall>t \<in> set D. \<forall>now \<in> set nows. t + RATE_WINDOW_MS \<le> now" "spaced (D @ starts)"
  shows "spaced (D @ starts @ rate_run starts nows)"
  using assms
proof (induction nows arbitrary: D starts)
  case (Cons now nows)
  define E where "E = takeWhile (\<lambda>t. now - t \<ge> RATE_WINDOW_MS) starts"
  define live where "live = dropWhile (\<lambda>t. now - t \<ge> RATE_WINDOW_MS) starts"
  have split: "starts = E @ live" by (simp add: E_def live_def)
  have later: "now \<le> x" if "x \<in> set nows" for x using Cons.prems(1) that by simp
  have dropped: "t + RATE_WINDOW_MS \<le> now" if "t \<in> set (D @ E)" for t
    using that Cons.prems(2) by (auto simp: E_def dest!: set_takeWhileD)
  then have old: "\<forall>t \<in> set (D @ E). \<forall>x \<in> set nows. t + RATE_WINDOW_MS \<le> x" using later by fastforce
  have sp: "spaced ((D @ E) @ live)" using Cons.prems(3) split by simp
  show ?case
  proof (cases "length live < MAX_READS_PER_SECOND")
    case True
    then have "spaced ((D @ E) @ (live @ [now]))" using spaced_snoc [OF sp] dropped by auto
    then have "spaced ((D @ E) @ (live @ [now]) @ rate_run (live @ [now]) nows)"
      using Cons.IH [of "D @ E" "live @ [now]"] old Cons.prems(1) by simp
    moreover have "rate_run starts (now # nows) = now # rate_run (live @ [now]) nows"
      using True by (simp add: rate_round_def live_def Let_def)
    ultimately show ?thesis using split by simp
  next
    case False
    then have "rate_run starts (now # nows) = rate_run live nows" by (simp add: rate_round_def live_def Let_def)
    then show ?thesis using Cons.IH [of "D @ E" live] old sp Cons.prems(1) split by simp
  qed
qed simp

text \<open>
  The client never sends more than 25 reads in a second: however many readers ask, and
  whenever their timers fire, between a grant and the 25th after it at least a full window
  of 1000 ms passes.
\<close>

theorem reads_rate_limited:
  assumes "sorted nows" "i + 25 < length (rate_run [] nows)"
  shows "rate_run [] nows ! i + 1000 \<le> rate_run [] nows ! (i + 25)"
proof -
  have "spaced ([] @ [] @ rate_run [] nows)"
    by (rule rate_run_spaced [OF assms(1)]) (simp_all add: spaced_def)
  then show ?thesis using assms(2) by (simp add: spaced_def MAX_READS_PER_SECOND_def RATE_WINDOW_MS_def)
qed

theorem reads_rate_limited_witness:
  "length (rate_run [] (replicate 27 0 @ [1000])) = 26 \<and> rate_run [] (replicate 27 0 @ [1000]) ! 25 = 1000"
proof -
  have run: "rate_run [] (replicate 27 0 @ [1000]) = replicate 25 0 @ [1000]"
    by (simp add: eval_nat_numeral rate_round_def RATE_WINDOW_MS_def MAX_READS_PER_SECOND_def)
  have "rate_run [] (replicate 27 0 @ [1000]) ! 0 + 1000 \<le> rate_run [] (replicate 27 0 @ [1000]) ! (0 + 25)"
    by (rule reads_rate_limited) (simp_all add: run sorted_append)
  then show ?thesis by (simp add: run nth_append)
qed


lemma read_steps_enqueue:
  "MAX_CONCURRENT_READS \<le> a \<Longrightarrow> read_step\<^sup>*\<^sup>* \<lparr>rs_active = a, rs_queued = 0, rs_woken = 0\<rparr> \<lparr>rs_active = a, rs_queued = n, rs_woken = 0\<rparr>"
proof (induction n)
  case (Suc n)
  have "read_step \<lparr>rs_active = a, rs_queued = n, rs_woken = 0\<rparr> \<lparr>rs_active = a, rs_queued = Suc n, rs_woken = 0\<rparr>"
    using read_step.enqueue [of "\<lparr>rs_active = a, rs_queued = n, rs_woken = 0\<rparr>"] Suc.prems by simp
  with Suc show ?case by (meson rtranclp.rtrancl_into_rtrancl)
qed simp

lemma read_steps_steal:
  "read_step\<^sup>*\<^sup>* \<lparr>rs_active = 4, rs_queued = n, rs_woken = w\<rparr> \<lparr>rs_active = 4, rs_queued = 0, rs_woken = w + n\<rparr>"
proof (induction n arbitrary: w)
  case (Suc n)
  have "read_step \<lparr>rs_active = 4, rs_queued = Suc n, rs_woken = w\<rparr> \<lparr>rs_active = 3, rs_queued = n, rs_woken = w + 1\<rparr>"
    using read_step.finish_wake [of "\<lparr>rs_active = 4, rs_queued = Suc n, rs_woken = w\<rparr>"] by simp
  moreover have "read_step \<lparr>rs_active = 3, rs_queued = n, rs_woken = w + 1\<rparr> \<lparr>rs_active = 4, rs_queued = n, rs_woken = w + 1\<rparr>"
    using read_step.enter [of "\<lparr>rs_active = 3, rs_queued = n, rs_woken = w + 1\<rparr>"]
    by (simp add: MAX_CONCURRENT_READS_def)
  moreover have "read_step\<^sup>*\<^sup>* \<lparr>rs_active = 4, rs_queued = n, rs_woken = w + 1\<rparr> \<lparr>rs_active = 4, rs_queued = 0, rs_woken = w + Suc n\<rparr>"
    using Suc.IH [of "w + 1"] by simp
  ultimately show ?case by (meson converse_rtranclp_into_rtranclp)
qed simp

lemma read_steps_resume:
  "read_step\<^sup>*\<^sup>* \<lparr>rs_active = a, rs_queued = 0, rs_woken = n\<rparr> \<lparr>rs_active = a + n, rs_queued = 0, rs_woken = 0\<rparr>"
proof (induction n arbitrary: a)
  case (Suc n)
  have "read_step \<lparr>rs_active = a, rs_queued = 0, rs_woken = Suc n\<rparr> \<lparr>rs_active = a + 1, rs_queued = 0, rs_woken = n\<rparr>"
    using read_step.resume [of "\<lparr>rs_active = a, rs_queued = 0, rs_woken = Suc n\<rparr>"] by simp
  with Suc.IH [of "a + 1"] show ?case by (simp add: converse_rtranclp_into_rtranclp)
qed simp

lemma read_steps_fill: "read_step\<^sup>*\<^sup>* read_init \<lparr>rs_active = 4, rs_queued = 0, rs_woken = 0\<rparr>"
proof -
  have "read_step \<lparr>rs_active = k, rs_queued = 0, rs_woken = 0\<rparr> \<lparr>rs_active = k + 1, rs_queued = 0, rs_woken = 0\<rparr>"
    if "k < 4" for k
    using read_step.enter [of "\<lparr>rs_active = k, rs_queued = 0, rs_woken = 0\<rparr>"] that
    by (simp add: MAX_CONCURRENT_READS_def)
  from this [of 0] this [of 1] this [of 2] this [of 3] show ?thesis
    unfolding read_init_def by (simp add: eval_nat_numeral)
qed

text \<open>
  C33: The cap of four simultaneous reads is not one. A reader that finishes lowers the
  counter and wakes a waiter, but the waiter raises it again without looking only when its
  microtask runs; a caller that arrives in between takes the free place. Any number of
  reads can be active at once.
\<close>

theorem concurrency_cap_not_enforced:
  "\<exists>s. read_step\<^sup>*\<^sup>* read_init s \<and> rs_active s = MAX_CONCURRENT_READS + n"
proof -
  have "read_step\<^sup>*\<^sup>* read_init \<lparr>rs_active = 4 + n, rs_queued = 0, rs_woken = 0\<rparr>"
    using read_steps_fill read_steps_enqueue [of 4 n] read_steps_steal [of n 0] read_steps_resume [of 4 n]
    by (simp add: MAX_CONCURRENT_READS_def)
  then show ?thesis by (intro exI conjI) (assumption, simp add: MAX_CONCURRENT_READS_def)
qed

text \<open>The cache.\<close>

lemma cache_ok_init: "cache_ok world no_cache"
  by (simp add: cache_ok_def no_cache_def)

lemma cache_ok_step: "cache_step world s s' \<Longrightarrow> cache_ok world s \<Longrightarrow> cache_ok world s'"
proof (induction rule: cache_step.induct)
  case (ask s key now a s')
  then show ?case
    by (auto simp: getCached_def cache_ok_def od.get_put split: option.splits if_splits prod.splits; blast)
next
  case (fulfilled s key sent now ttl)
  then show ?case by (auto simp: cache_ok_def settle_ok_def od.get_put od.get_del)
next
  case (rejected s key sent)
  then show ?case by (auto simp: cache_ok_def settle_failed_def od.get_del)
next
  case (invalidate s key)
  then show ?case by (auto simp: cache_ok_def invalidateCached_def od.get_del)
next
  case (invalidate_prefix s p)
  have "dget (filter (\<lambda>(k, _). \<not> starts_with p k) m) key = (if starts_with p key then None else dget m key)"
    for m :: "(string \<times> 'a \<times> int) list" and key
  proof (induction m)
    case (Cons e m)
    then show ?case by (cases e) auto
  qed simp
  then show ?case using invalidate_prefix by (fastforce simp: cache_ok_def invalidateCachedPrefix_def)
qed

text \<open>
  C34: Nothing the cache serves is invented: in every reachable state a cached value is what
  the world held when some request for that very key was sent, and a call joins only such a
  request. One thing \<open>invalidateCached\<close> does not do: a request in flight survives it. The
  next call joins that request instead of sending its own, and when it settles the older
  value is cached again and served.
\<close>

theorem cache_serves_observed_values:
  assumes "(cache_step world)\<^sup>*\<^sup>* no_cache s"
  shows "(\<forall>key now v. fst (getCached s key now) = FromCache v \<longrightarrow>
       (\<exists>sent. (key, sent) \<in> set (cs_fetches s) \<and> v = world key sent)) \<and>
    (\<forall>key sent now ttl. dget (cs_inFlight s) key = Some sent \<and> 0 < ttl \<longrightarrow>
       fst (getCached (invalidateCached s key) key now) = JoinsInFlight sent \<and>
       fst (getCached (settle_ok (invalidateCached s key) key (world key sent) now ttl) key now) =
         FromCache (world key sent))"
proof -
  from assms have ok: "cache_ok world s"
    by (induction rule: rtranclp_induct) (auto intro: cache_ok_init cache_ok_step)
  have "\<exists>sent. (key, sent) \<in> set (cs_fetches s) \<and> v = world key sent"
    if "fst (getCached s key now) = FromCache v" for key now v
    using that ok by (auto simp: getCached_def cache_ok_def split: option.splits if_splits prod.splits)
  then show ?thesis
    by (auto simp: getCached_def invalidateCached_def settle_ok_def od.get_put od.get_del)
qed

theorem cache_serves_observed_values_witness:
  "\<exists>s. (cache_step (\<lambda>key sent. sent))\<^sup>*\<^sup>* no_cache s \<and>
     fst (getCached (settle_ok (invalidateCached s ''balance'') ''balance'' 0 5 4000) ''balance'' 5) = FromCache (0::int)"
proof -
  let ?s = "snd (getCached no_cache ''balance'' 0) :: int cache_state"
  have "cache_step (\<lambda>key sent. sent) no_cache ?s" by (rule cache_step.ask) (rule prod.collapse [symmetric])
  then have reach: "(cache_step (\<lambda>key sent. sent))\<^sup>*\<^sup>* no_cache ?s" by blast
  have "dget (cs_inFlight ?s) ''balance'' = Some 0" by (simp add: getCached_def no_cache_def od.get_put)
  with cache_serves_observed_values [OF reach] reach show ?thesis by (intro exI [of _ ?s]) auto
qed

text \<open>
  What a client can see of a transaction: it is included at one height or never, and a
  status read when the chain stands at height \<open>h\<close> knows it exactly when it is included by
  then. A transaction cannot be included after its last valid height.
\<close>

type_synonym landing = "(nat \<times> string option) option"

definition status_at :: "landing \<Rightarrow> nat \<Rightarrow> sig_status option" where
  "status_at landed h = (case landed of
       Some (b, err) \<Rightarrow> if b \<le> h then Some \<lparr>ss_err = err, ss_commitment = Confirmed_c\<rparr> else None
     | None \<Rightarrow> None)"

definition may_land :: "landing \<Rightarrow> nat \<Rightarrow> bool" where
  "may_land landed lastValid \<longleftrightarrow> (case landed of Some (b, _) \<Rightarrow> b \<le> lastValid | None \<Rightarrow> True)"

definition height_first :: "landing \<Rightarrow> poll \<Rightarrow> bool" where
  "height_first landed p \<longleftrightarrow> (\<forall>st h. p_status p = Some st \<longrightarrow> p_height p = Some h \<longrightarrow> (\<exists>h' \<ge> h. st = status_at landed h'))"

definition status_first :: "landing \<Rightarrow> poll \<Rightarrow> bool" where
  "status_first landed p \<longleftrightarrow> (\<forall>st h. p_status p = Some st \<longrightarrow> p_height p = Some h \<longrightarrow> (\<exists>h' \<le> h. st = status_at landed h'))"

lemma resolve_round_truthful:
  assumes "height_first landed p" "may_land landed l" "resolve_round p (Some l) startedAt = Some out"
  shows "(out = Expired \<longrightarrow> landed = None) \<and> (out = Confirmed \<longrightarrow> (\<exists>b. landed = Some (b, None))) \<and>
    (\<forall>e. out = Failed e \<longrightarrow> (\<exists>b. landed = Some (b, Some e)))"
proof -
  from assms(3) obtain h st where p: "p_height p = Some h" "p_status p = Some st"
    by (auto simp: resolve_round_def split: option.splits)
  with assms(1) obtain h' where "h \<le> h'" "st = status_at landed h'" by (auto simp: height_first_def)
  with p assms(2,3) show ?thesis
    by (auto simp: resolve_round_def status_outcome_def status_at_def may_land_def unknownSignatureExpired_def
        split: option.splits if_splits)
qed


definition quiet_polls :: "nat \<Rightarrow> poll" where
  "quiet_polls k = \<lparr>p_status = Some None, p_height = Some (98 + k), p_now = int k * 2000\<rparr>"



lemma resolve_from_returns:
  assumes "0 < interval" "\<forall>k. p_now (polls k) + interval \<le> p_now (polls (k + 1))"
  shows "\<exists>out. resolve_from polls lastValid startedAt t0 maxWait k = Some out"
proof (induction "nat (t0 + maxWait - p_now (polls k))" arbitrary: k rule: less_induct)
  case less
  show ?case
  proof (cases "resolve_round (polls k) lastValid startedAt = None \<and> p_now (polls k) - t0 < maxWait")
    case True
    moreover have "p_now (polls k) + interval \<le> p_now (polls (k + 1))" using assms(2) by blast
    ultimately have "nat (t0 + maxWait - p_now (polls (k + 1))) < nat (t0 + maxWait - p_now (polls k))"
      using assms(1) by linarith
    from less [OF this] True show ?thesis by (subst resolve_from.simps) auto
  next
    case False
    then show ?thesis by (subst resolve_from.simps) (auto split: option.splits)
  qed
qed

text \<open>
  C35: The resolver always returns: whatever the RPC answers, if the clock advances by at
  least the polling interval between rounds, the loop without a bound on its rounds ends.
\<close>

theorem resolve_returns:
  assumes "0 < interval" "\<forall>k. p_now (polls k) + interval \<le> p_now (polls (k + 1))"
  shows "\<exists>out. resolveSubmittedSignature polls lastValid startedAt t0 maxWait = Some out"
  unfolding resolveSubmittedSignature_def by (rule resolve_from_returns [OF assms])

theorem resolve_returns_witness:
  "\<exists>out. resolveSubmittedSignature quiet_polls (Some 100) 0 0 120000 = Some out"
  by (rule resolve_returns [of 2000]) (simp_all add: quiet_polls_def)


lemma confirm_round_truthful:
  assumes "status_first landed p" "confirm_round p l = Some out" "p_height p \<noteq> None"
  shows "(out = Confirmed \<longrightarrow> (\<exists>b. landed = Some (b, None))) \<and> (\<forall>e. out = Failed e \<longrightarrow> (\<exists>b. landed = Some (b, Some e)))"
proof -
  from assms obtain h st where "p_height p = Some h" "p_status p = Some st"
    by (auto simp: confirm_round_def split: option.splits)
  with assms(1) obtain h' where "st = status_at landed h'" by (auto simp: status_first_def)
  with \<open>p_status p = Some st\<close> assms(2) show ?thesis
    by (auto simp: confirm_round_def status_outcome_def status_at_def split: option.splits if_splits)
qed

lemma confirm_loop_truthful:
  assumes "\<forall>p \<in> set polls. status_first landed p \<and> p_height p \<noteq> None"
  shows "(confirm_loop polls l n = Confirmed \<longrightarrow> (\<exists>b. landed = Some (b, None))) \<and>
    (\<forall>e. confirm_loop polls l n = Failed e \<longrightarrow> (\<exists>b. landed = Some (b, Some e)))"
  using assms
proof (induction polls l n rule: confirm_loop.induct)
  case (3 p polls l n)
  show ?case
  proof (cases "confirm_round p l")
    case None
    then show ?thesis using 3 by simp
  next
    case (Some out)
    then show ?thesis using confirm_round_truthful [of landed p l out] 3(2) by simp
  qed
qed simp_all

lemma rebroadcast_outcome: "fst (rebroadcast_loop polls l every lastAt n) = confirm_loop polls l n"
  by (induction polls l every lastAt n rule: rebroadcast_loop.induct) (auto split: option.splits prod.splits)

definition race_polls :: "poll list" where
  "race_polls = [\<lparr>p_status = Some None, p_height = Some 101, p_now = 0\<rparr>]"

text \<open>
  C32: The two bounded confirmation loops read the status before the height, and that order
  misjudges: there are a transaction that lands within its validity and answers of an honest
  RPC on which both loops report \<open>expired\<close>. What they report as confirmed or failed did
  land, with that error.
\<close>

theorem status_before_height_races:
  "(\<exists>landed polls. landed \<noteq> None \<and> may_land landed 100 \<and> (\<forall>p \<in> set polls. status_first landed p) \<and>
      confirmSignatureBounded polls 100 20 = Expired \<and>
      sendAndConfirmWithRebroadcast polls 100 3000 0 100 = (Expired, [])) \<and>
   (\<forall>landed polls l n. (\<forall>p \<in> set polls. status_first landed p \<and> p_height p \<noteq> None) \<longrightarrow>
      (confirmSignatureBounded polls l n = Confirmed \<longrightarrow> (\<exists>b. landed = Some (b, None))) \<and>
      (\<forall>e. confirmSignatureBounded polls l n = Failed e \<longrightarrow> (\<exists>b. landed = Some (b, Some e))))"
proof (rule conjI)
  let ?landed = "Some (100, None) :: landing"
  have "status_first ?landed (hd race_polls)"
    by (auto simp: status_first_def race_polls_def status_at_def intro: exI [of _ 99])
  then show "\<exists>landed polls. landed \<noteq> None \<and> may_land landed 100 \<and> (\<forall>p \<in> set polls. status_first landed p) \<and>
      confirmSignatureBounded polls 100 20 = Expired \<and>
      sendAndConfirmWithRebroadcast polls 100 3000 0 100 = (Expired, [])"
    by (intro exI [of _ ?landed] exI [of _ race_polls])
      (simp add: may_land_def race_polls_def confirmSignatureBounded_def sendAndConfirmWithRebroadcast_def
        confirm_round_def status_outcome_def height_passed_def eval_nat_numeral)
qed (use confirm_loop_truthful in \<open>simp add: confirmSignatureBounded_def\<close>)

theorem status_before_height_races_witness:
  "confirmSignatureBounded [\<lparr>p_status = Some (status_at (Some (99, None)) 99), p_height = Some 99, p_now = 0\<rparr>] 100 20 = Confirmed
   \<and> (\<exists>b. Some (99 :: nat, None :: string option) = Some (b, None))"
proof -
  let ?polls = "[\<lparr>p_status = Some (status_at (Some (99, None)) 99), p_height = Some 99, p_now = 0\<rparr>]"
  have run: "confirmSignatureBounded ?polls 100 20 = Confirmed"
    by (simp add: confirmSignatureBounded_def confirm_round_def status_outcome_def status_at_def
        landed_status_def eval_nat_numeral)
  have "\<forall>p \<in> set ?polls. status_first (Some (99, None)) p \<and> p_height p \<noteq> None"
    by (auto simp: status_first_def)
  with status_before_height_races run show ?thesis by blast
qed

text \<open>
  Rebroadcasting never floods: it does not change the outcome of the confirmation, and
  between the first sending and every further one at least the interval passes.
\<close>

theorem rebroadcast_spaced:
  "fst (sendAndConfirmWithRebroadcast polls lastValid every sentAt n) = confirmSignatureBounded polls lastValid n \<and>
   successively (\<lambda>a b. every \<le> b - a) (sentAt # snd (sendAndConfirmWithRebroadcast polls lastValid every sentAt n))"
proof -
  have "successively (\<lambda>a b. every \<le> b - a) (sentAt # snd (rebroadcast_loop polls lastValid every sentAt n))"
    by (induction polls lastValid every sentAt n rule: rebroadcast_loop.induct)
      (auto split: option.splits prod.splits)
  then show ?thesis
    by (simp add: rebroadcast_outcome sendAndConfirmWithRebroadcast_def confirmSignatureBounded_def)
qed

end
