(* ===== verification/Recovery.thy ===== *)
theory Recovery
  imports Buy_Plan Rpc_Resilience
begin

text \<open>
  \<open>src/merge/lib/incompleteTransactions.ts\<close>: finding what an interrupted mint, redemption
  or creation left in a wallet, and turning exactly that back into USDC. What the chain
  answers is a parameter; the browser's storage is the sweep record that is passed along
  (a write to it that fails is not modelled).
\<close>

section \<open>Attribution\<close>

type_synonym amounts = "(string \<times> int) list"

definition amount_of :: "amounts \<Rightarrow> string \<Rightarrow> int" where
  \<comment> \<open>\<open>m[mint] ?? 0n\<close>\<close>
  "amount_of m mint = (case dget m mint of Some a \<Rightarrow> a | None \<Rightarrow> 0)"

definition computeLeftovers :: "amounts \<Rightarrow> amounts \<Rightarrow> amounts \<Rightarrow> amounts" where
  "computeLeftovers attributed swept held =
     collect (\<lambda>mint amount.
       if mint = MAINNET_USDC_MINT then None
       else let remaining = amount - amount_of swept mint;
                h = amount_of held mint;
                left = (if remaining < h then remaining else h)
            in if left > 0 then Some left else None) attributed"

record leg_swap =
  sw_signature :: "string option"
  sw_lastValidBlockHeight :: "nat option"
  sw_confirmed :: bool

definition redeemAttribution :: "amounts \<Rightarrow> (string \<times> leg_swap) list \<Rightarrow> amounts" where
  "redeemAttribution payoutByMint legSwaps =
     collect (\<lambda>mint amount.
       if mint = MAINNET_USDC_MINT \<or> amount \<le> 0 \<or>
          (case dget legSwaps mint of Some l \<Rightarrow> sw_confirmed l | None \<Rightarrow> False) then None
       else Some amount) payoutByMint"

definition dustAttribution :: "amounts \<Rightarrow> amounts \<Rightarrow> string list \<Rightarrow> amounts" where
  "dustAttribution acquired mintTxDelta exclude =
     collect (\<lambda>mint _.
       if mint = MAINNET_USDC_MINT \<or> mint \<in> set exclude then None
       else let left = amount_of acquired mint + amount_of mintTxDelta mint
            in if left > 0 then Some left else None)
       (map (\<lambda>m. (m, ())) (remdups_first (dkeys acquired @ dkeys mintTxDelta)))"

record sweep_leg =
  sl_signature :: string
  sl_amountRaw :: int
  sl_confirmed :: bool

type_synonym sweep_record = "(string \<times> sweep_leg list) list"

definition confirmed_sum :: "sweep_leg list \<Rightarrow> int" where
  "confirmed_sum legs = foldl (\<lambda>s l. s + sl_amountRaw l) 0 (filter sl_confirmed legs)"

definition sweptByMint :: "sweep_record \<Rightarrow> amounts" where
  "sweptByMint rec = collect (\<lambda>mint legs. Some (confirmed_sum legs)) rec"

section \<open>Chain reads\<close>

datatype sig_answer = SigConfirmed | SigFailed | SigUnknown

record parsed_tx =
  tx_pre :: "token_balance list"
  tx_post :: "token_balance list"

text \<open>
  What the RPC answers: the status and the parsed balances of a signature, the successive
  polls of a submitted one (and the time the polling starts), the status of a Reserve.
\<close>

record chain =
  ch_status :: "string \<Rightarrow> sig_status option"
  ch_parsed :: "string \<Rightarrow> parsed_tx option"
  ch_polls :: "string \<Rightarrow> nat \<Rightarrow> poll"
  ch_now :: int
  ch_reserve :: "string \<Rightarrow> string option"

definition signatureStatus :: "chain \<Rightarrow> string \<Rightarrow> sig_answer" where
  "signatureStatus ch signature =
     (case ch_status ch signature of
        None \<Rightarrow> SigUnknown
      | Some st \<Rightarrow> if ss_err st = None \<and> landed_status st then SigConfirmed
                 else if ss_err st \<noteq> None then SigFailed else SigUnknown)"

definition ownerDeltasFromSignature :: "chain \<Rightarrow> string \<Rightarrow> string \<Rightarrow> amounts option" where
  "ownerDeltasFromSignature ch signature owner =
     (case ch_parsed ch signature of
        None \<Rightarrow> None
      | Some tx \<Rightarrow>
          let mints = remdups_first (map tb_mint (filter (\<lambda>e. tb_owner e = Some owner) (tx_pre tx @ tx_post tx)))
          in Some (map (\<lambda>mint. (mint, computeOwnerTokenDeltaRaw (tx_pre tx) (tx_post tx) owner mint)) mints))"

record holding =
  hd_raw :: int
  hd_decimals :: nat

type_synonym holdings = "(string \<times> holding) list"

text \<open>The parsed token accounts of both token programs, in order; \<open>None\<close> has no parsed info.\<close>

fun readWalletHoldings :: "(string \<times> int \<times> nat) option list \<Rightarrow> holdings \<Rightarrow> holdings" where
  "readWalletHoldings [] out = out"
| "readWalletHoldings (None # rest) out = readWalletHoldings rest out"
| "readWalletHoldings (Some (mint, amount, decimals) # rest) out =
     readWalletHoldings rest
       (dput mint \<lparr>hd_raw = (case dget out mint of Some p \<Rightarrow> hd_raw p | None \<Rightarrow> 0) + amount,
          hd_decimals = decimals\<rparr> out)"

definition heldRaw :: "holdings \<Rightarrow> amounts" where
  "heldRaw held = map (\<lambda>(m, h). (m, hd_raw h)) held"

section \<open>Inspecting one record\<close>

datatype incomplete_kind = KMint | KRedeem | KCreate | KMintDust

record leftover_asset =
  la_mint :: string
  la_decimals :: nat
  la_amountRaw :: int

record incomplete =
  in_kind :: incomplete_kind
  in_wallet :: string
  in_reserve :: string
  in_startedAt :: int
  in_events :: "(string \<times> string) list"
  in_leftovers :: "leftover_asset list"

datatype recovery_error = CannotRead string | NotVerified string | StillPolling string

text \<open>\<open>Settled\<close> drops the flow's record; its flag says that the sweep record goes too.\<close>

datatype inspection = Nothing | Found incomplete | Settled bool

definition shortMint :: "string \<Rightarrow> string" where
  "shortMint mint = take 4 mint @ ''...'' @ drop (length mint - 4) mint"

definition leftover_assets :: "holdings \<Rightarrow> amounts \<Rightarrow> leftover_asset list" where
  "leftover_assets held left =
     map (\<lambda>(mint, amount). \<lparr>la_mint = mint,
       la_decimals = (case dget held mint of Some h \<Rightarrow> hd_decimals h | None \<Rightarrow> 0), la_amountRaw = amount\<rparr>) left"

record pending_sell =
  se_wallet :: string
  se_reserve :: string
  se_startedAt :: int
  se_redeemConfirmed :: bool
  se_redeemSignature :: "string option"
  se_redeemLastValid :: "nat option"
  se_legSwaps :: "(string \<times> leg_swap) list"

definition resolve_sig :: "chain \<Rightarrow> string \<Rightarrow> nat option \<Rightarrow> int \<Rightarrow> recovery_error + outcome" where
  "resolve_sig ch signature lastValid startedAt =
     (case resolveSubmittedSignature (ch_polls ch signature) lastValid startedAt (ch_now ch) 120000 of
        None \<Rightarrow> Inl (StillPolling signature)
      | Some out \<Rightarrow> Inr out)"

fun reconcile_legs :: "chain \<Rightarrow> int \<Rightarrow> (string \<times> leg_swap) list \<Rightarrow> recovery_error + (string \<times> leg_swap) list" where
  "reconcile_legs ch startedAt [] = Inr []"
| "reconcile_legs ch startedAt ((mint, leg) # rest) =
     rbind (if sw_confirmed leg then Inr leg
            else case sw_signature leg of
              None \<Rightarrow> Inr leg
            | Some signature \<Rightarrow>
                rbind (resolve_sig ch signature (sw_lastValidBlockHeight leg) startedAt) (\<lambda>st.
                  if st = Confirmed then Inr (leg\<lparr>sw_confirmed := True\<rparr>)
                  else if st = Unknown then Inl (NotVerified signature)
                  else Inr leg))
       (\<lambda>leg'. rbind (reconcile_legs ch startedAt rest) (\<lambda>rest'. Inr ((mint, leg') # rest')))"

definition inspectRedeem :: "chain \<Rightarrow> pending_sell \<Rightarrow> holdings \<Rightarrow> sweep_record \<Rightarrow> recovery_error + inspection" where
  "inspectRedeem ch p held sweep =
     rbind (case se_redeemSignature p of
              Some signature \<Rightarrow>
                if se_redeemConfirmed p then Inr True
                else rbind (resolve_sig ch signature (se_redeemLastValid p) (se_startedAt p)) (\<lambda>st. Inr (st = Confirmed))
            | None \<Rightarrow> Inr (se_redeemConfirmed p)) (\<lambda>landed.
       case se_redeemSignature p of
         None \<Rightarrow> Inr Nothing
       | Some signature \<Rightarrow>
           if \<not> landed then Inr Nothing
           else case ownerDeltasFromSignature ch signature (se_wallet p) of
             None \<Rightarrow> Inl (CannotRead signature)
           | Some payout \<Rightarrow>
               rbind (reconcile_legs ch (se_startedAt p) (se_legSwaps p)) (\<lambda>legSwaps.
                 let left = computeLeftovers (redeemAttribution payout legSwaps) (sweptByMint sweep) (heldRaw held);
                     swaps = concat (map (\<lambda>(mint, leg). case sw_signature leg of
                         Some s \<Rightarrow> if sw_confirmed leg then [(''Swapped '' @ shortMint mint @ '' into USDC'', s)] else []
                       | None \<Rightarrow> []) legSwaps)
                 in Inr (Found \<lparr>in_kind = KRedeem, in_wallet = se_wallet p, in_reserve = se_reserve p,
                      in_startedAt = se_startedAt p, in_events = (''Reserve Tokens redeemed'', signature) # swaps,
                      in_leftovers = leftover_assets held left\<rparr>)))"

record leg_funding =
  lf_status :: string
  lf_lastSignature :: "string option"
  lf_acquiredRaw :: int

record pending_buy =
  bu_wallet :: string
  bu_reserve :: string
  bu_startedAt :: int
  bu_lastMintSignature :: "string option"
  bu_preMintReserveTokenRaw :: int
  bu_expectedNetRaw :: int
  bu_legFunding :: "(string \<times> leg_funding) list"

definition leg_acquired :: "chain \<Rightarrow> string \<Rightarrow> string \<Rightarrow> leg_funding \<Rightarrow> recovery_error + int" where
  "leg_acquired ch wallet mint leg =
     (case lf_lastSignature leg of
        None \<Rightarrow> Inr (lf_acquiredRaw leg)
      | Some s \<Rightarrow>
          if lf_status leg = ''submitted'' \<or> lf_status leg = ''awaiting_signature'' then
            (case signatureStatus ch s of
               SigUnknown \<Rightarrow> Inl (NotVerified s)
             | SigFailed \<Rightarrow> Inr (lf_acquiredRaw leg)
             | SigConfirmed \<Rightarrow>
                 (case ownerDeltasFromSignature ch s wallet of
                    None \<Rightarrow> Inl (CannotRead s)
                  | Some d \<Rightarrow> Inr (if amount_of d mint > 0 then lf_acquiredRaw leg + amount_of d mint
                                 else lf_acquiredRaw leg)))
          else Inr (lf_acquiredRaw leg))"

fun acquire_loop :: "chain \<Rightarrow> string \<Rightarrow> (string \<times> leg_funding) list \<Rightarrow>
    recovery_error + amounts \<times> (string \<times> string) list" where
  "acquire_loop ch wallet [] = Inr ([], [])"
| "acquire_loop ch wallet ((mint, leg) # rest) =
     rbind (leg_acquired ch wallet mint leg) (\<lambda>acquired.
     rbind (acquire_loop ch wallet rest) (\<lambda>(attributed, events).
       Inr (if acquired > 0 then (mint, acquired) # attributed else attributed,
            if acquired > 0 then (case lf_lastSignature leg of
                Some s \<Rightarrow> (''Swapped USDC into '' @ shortMint mint, s) # events | None \<Rightarrow> events)
            else events)))"

definition inspectMint ::
  "chain \<Rightarrow> pending_buy \<Rightarrow> holdings \<Rightarrow> string option \<Rightarrow> sweep_record \<Rightarrow> recovery_error + inspection" where
  "inspectMint ch p held reserveTokenMint sweep =
     (if (case bu_lastMintSignature p of Some s \<Rightarrow> signatureStatus ch s = SigConfirmed | None \<Rightarrow> False)
      then Inr Nothing
      else if (case reserveTokenMint of None \<Rightarrow> False
        | Some m \<Rightarrow> amount_of (heldRaw held) m - bu_preMintReserveTokenRaw p \<ge> bu_expectedNetRaw p \<and>
            bu_expectedNetRaw p > 0)
      then Inr Nothing
      else rbind (acquire_loop ch (bu_wallet p) (bu_legFunding p)) (\<lambda>(attributed, events).
        let left = computeLeftovers attributed (sweptByMint sweep) (heldRaw held) in
        if left = [] then Inr Nothing
        else Inr (Found \<lparr>in_kind = KMint, in_wallet = bu_wallet p, in_reserve = bu_reserve p,
               in_startedAt = bu_startedAt p, in_events = events, in_leftovers = leftover_assets held left\<rparr>)))"

record abandoned_create =
  ab_wallet :: string
  ab_reserve :: string
  ab_startedAt :: int
  ab_assetFunding :: "(string \<times> string option) list" \<comment> \<open>mint, last signature\<close>
  ab_assetMints :: "string list option"

fun seed_loop :: "chain \<Rightarrow> string \<Rightarrow> (string \<times> string option) list \<Rightarrow>
    recovery_error + amounts \<times> (string \<times> string) list" where
  "seed_loop ch wallet [] = Inr ([], [])"
| "seed_loop ch wallet ((mint, lastSig) # rest) =
     (case lastSig of
        None \<Rightarrow> seed_loop ch wallet rest
      | Some s \<Rightarrow>
          if mint = MAINNET_USDC_MINT \<or> mint = WSOL then seed_loop ch wallet rest
          else (case signatureStatus ch s of
              SigUnknown \<Rightarrow> Inl (NotVerified s)
            | SigFailed \<Rightarrow> seed_loop ch wallet rest
            | SigConfirmed \<Rightarrow>
                (case ownerDeltasFromSignature ch s wallet of
                   None \<Rightarrow> Inl (CannotRead s)
                 | Some d \<Rightarrow>
                     rbind (seed_loop ch wallet rest) (\<lambda>(attributed, events).
                       Inr (if amount_of d mint > 0 then ((mint, amount_of d mint) # attributed,
                              (''Swapped USDC into '' @ shortMint mint, s) # events)
                            else (attributed, events))))))"

definition inspect_create_assets ::
  "chain \<Rightarrow> abandoned_create \<Rightarrow> holdings \<Rightarrow> sweep_record \<Rightarrow> recovery_error + inspection" where
  "inspect_create_assets ch rec held sweep =
     rbind (seed_loop ch (ab_wallet rec) (ab_assetFunding rec)) (\<lambda>(attributed, events).
       let wsolHeld = amount_of (heldRaw held) WSOL;
           mints = (case ab_assetMints rec of Some ms \<Rightarrow> ms | None \<Rightarrow> dkeys (ab_assetFunding rec));
           attributed' = (if WSOL \<in> set mints \<and> wsolHeld > 0 then dput WSOL wsolHeld attributed else attributed);
           left = computeLeftovers attributed' (sweptByMint sweep) (heldRaw held)
       in if left = [] then Inr (Settled True)
          else Inr (Found \<lparr>in_kind = KCreate, in_wallet = ab_wallet rec, in_reserve = ab_reserve rec,
                 in_startedAt = ab_startedAt rec, in_events = events, in_leftovers = leftover_assets held left\<rparr>))"

definition inspectCreate :: "chain \<Rightarrow> abandoned_create \<Rightarrow> holdings \<Rightarrow> sweep_record \<Rightarrow> recovery_error + inspection" where
  "inspectCreate ch rec held sweep =
     (if (case ch_reserve ch (ab_reserve rec) of
            Some status \<Rightarrow> status \<noteq> ''created'' \<and> status \<noteq> ''assetsInitializing'' | None \<Rightarrow> False)
      then Inr (Settled False)
      else inspect_create_assets ch rec held sweep)"

record mint_dust =
  du_wallet :: string
  du_reserve :: string
  du_startedAt :: int
  du_mintSignature :: string
  du_acquiredRaw :: amounts
  du_reserveTokenMint :: string

definition inspectMintDust :: "chain \<Rightarrow> mint_dust \<Rightarrow> holdings \<Rightarrow> sweep_record \<Rightarrow> recovery_error + inspection" where
  "inspectMintDust ch rec held sweep =
     (case ownerDeltasFromSignature ch (du_mintSignature rec) (du_wallet rec) of
        None \<Rightarrow> Inl (CannotRead (du_mintSignature rec))
      | Some delta \<Rightarrow>
          let attributed = dustAttribution (du_acquiredRaw rec) delta [du_reserveTokenMint rec];
              left = computeLeftovers attributed (sweptByMint sweep) (heldRaw held)
          in if left = [] then Inr (Settled True)
             else Inr (Found \<lparr>in_kind = KMintDust, in_wallet = du_wallet rec, in_reserve = du_reserve rec,
                    in_startedAt = du_startedAt rec,
                    in_events = [(''Reserve Tokens minted'', du_mintSignature rec)],
                    in_leftovers = leftover_assets held left\<rparr>))"

text \<open>
  \<open>findIncompleteTransactions\<close>: all sources in order, redemptions with nothing left
  skipped, newest first. \<open>sweep_of\<close> reads the sweep records.
\<close>

definition found_items :: "inspection list \<Rightarrow> incomplete list" where
  "found_items xs = concat (map (\<lambda>x. case x of Found i \<Rightarrow> [i] | _ \<Rightarrow> []) xs)"

definition findIncompleteTransactions ::
  "chain \<Rightarrow> pending_sell list \<Rightarrow> pending_buy list \<Rightarrow> abandoned_create list \<Rightarrow> mint_dust list \<Rightarrow> holdings \<Rightarrow>
   (string \<Rightarrow> string option) \<Rightarrow> (incomplete_kind \<Rightarrow> string \<Rightarrow> string \<Rightarrow> sweep_record) \<Rightarrow>
   recovery_error + incomplete list" where
  "findIncompleteTransactions ch redemptions mints creates dust held reserveTokenMintOf sweep_of =
     (if redemptions = [] \<and> mints = [] \<and> creates = [] \<and> dust = [] then Inr []
      else
        rbind (rmap (\<lambda>s. inspectRedeem ch s held (sweep_of KRedeem (se_wallet s) (se_reserve s))) redemptions) (\<lambda>rs.
        rbind (rmap (\<lambda>b. inspectMint ch b held (reserveTokenMintOf (bu_reserve b))
            (sweep_of KMint (bu_wallet b) (bu_reserve b))) mints) (\<lambda>ms.
        rbind (rmap (\<lambda>c. inspectCreate ch c held (sweep_of KCreate (ab_wallet c) (ab_reserve c))) creates) (\<lambda>cs.
        rbind (rmap (\<lambda>d. inspectMintDust ch d held (sweep_of KMintDust (du_wallet d) (du_reserve d))) dust) (\<lambda>ds.
          Inr (sort_by (\<lambda>a b. in_startedAt b - in_startedAt a > 0)
            (filter (\<lambda>i. in_leftovers i \<noteq> []) (found_items rs) @ found_items ms @ found_items cs @ found_items ds)))))))"

section \<open>Converting the leftovers\<close>

text \<open>
  Reconciliation of earlier recovery swaps: a failed one moved nothing and is dropped, an
  unknown one stops everything.
\<close>

fun reconcile_sweep_legs :: "chain \<Rightarrow> sweep_leg list \<Rightarrow> recovery_error + sweep_leg list" where
  "reconcile_sweep_legs ch [] = Inr []"
| "reconcile_sweep_legs ch (leg # legs) =
     (if sl_confirmed leg then rbind (reconcile_sweep_legs ch legs) (\<lambda>kept. Inr (leg # kept))
      else case signatureStatus ch (sl_signature leg) of
        SigUnknown \<Rightarrow> Inl (NotVerified (sl_signature leg))
      | SigConfirmed \<Rightarrow> rbind (reconcile_sweep_legs ch legs) (\<lambda>kept. Inr (leg\<lparr>sl_confirmed := True\<rparr> # kept))
      | SigFailed \<Rightarrow> reconcile_sweep_legs ch legs)"

fun reconcile_sweep :: "chain \<Rightarrow> sweep_record \<Rightarrow> recovery_error + sweep_record" where
  "reconcile_sweep ch [] = Inr []"
| "reconcile_sweep ch ((mint, legs) # rest) =
     rbind (reconcile_sweep_legs ch legs) (\<lambda>kept.
     rbind (reconcile_sweep ch rest) (\<lambda>rest'. Inr ((mint, kept) # rest')))"

text \<open>
  What became of one signed swap: it landed, it provably did not land, or it failed in
  another way; the signature is there once the swap was submitted.
\<close>

datatype swap_result = Landed string | NotLanded "string option" | OtherFailure "string option" string

definition legs_of :: "sweep_record \<Rightarrow> string \<Rightarrow> sweep_leg list" where
  "legs_of rec mint = (case dget rec mint of Some ls \<Rightarrow> ls | None \<Rightarrow> [])"

definition persist_submitted :: "sweep_record \<Rightarrow> leftover_asset \<Rightarrow> string \<Rightarrow> sweep_record" where
  "persist_submitted rec leg signature =
     dput (la_mint leg) (legs_of rec (la_mint leg) @
       [\<lparr>sl_signature = signature, sl_amountRaw = la_amountRaw leg, sl_confirmed = False\<rparr>]) rec"

definition persist_confirmed :: "sweep_record \<Rightarrow> leftover_asset \<Rightarrow> string \<Rightarrow> sweep_record" where
  "persist_confirmed rec leg signature =
     dput (la_mint leg) (map (\<lambda>l. if sl_signature l = signature then l\<lparr>sl_confirmed := True\<rparr> else l)
       (legs_of rec (la_mint leg))) rec"

definition drop_unconfirmed :: "sweep_record \<Rightarrow> leftover_asset \<Rightarrow> sweep_record" where
  "drop_unconfirmed rec leg = dput (la_mint leg) (filter sl_confirmed (legs_of rec (la_mint leg))) rec"

definition persist_result :: "sweep_record \<Rightarrow> leftover_asset \<Rightarrow> swap_result \<Rightarrow> sweep_record" where
  "persist_result rec leg res =
     (case res of
        Landed s \<Rightarrow> persist_confirmed (persist_submitted rec leg s) leg s
      | NotLanded (Some s) \<Rightarrow> persist_submitted rec leg s
      | OtherFailure (Some s) _ \<Rightarrow> persist_submitted rec leg s
      | _ \<Rightarrow> rec)"

text \<open>One attempt over the leftovers: the record, what was converted, what to retry, what failed.\<close>

fun conversion_attempt :: "bool \<Rightarrow> sweep_record \<Rightarrow> (leftover_asset \<times> swap_result) list \<Rightarrow>
    sweep_record \<times> string list \<times> leftover_asset list \<times> string list" where
  "conversion_attempt firstTry rec [] = (rec, [], [], [])"
| "conversion_attempt firstTry rec ((leg, res) # rest) =
     (case conversion_attempt firstTry (persist_result rec leg res) rest of
        (rec', converted, retry, remaining) \<Rightarrow>
          (case res of
             Landed _ \<Rightarrow> (rec', la_mint leg # converted, retry, remaining)
           | NotLanded _ \<Rightarrow> if firstTry then (rec', converted, leg # retry, remaining)
                          else (rec', converted, retry, la_mint leg # remaining)
           | OtherFailure _ _ \<Rightarrow> (rec', converted, retry, la_mint leg # remaining)))"

text \<open>
  Two attempts, the second for what provably did not land; \<open>results\<close> gives the outcome of
  the swap of a leftover in each attempt.
\<close>

definition convert_attempts ::
  "sweep_record \<Rightarrow> leftover_asset list \<Rightarrow> (nat \<Rightarrow> leftover_asset \<Rightarrow> swap_result) \<Rightarrow>
    sweep_record \<times> string list \<times> string list" where
  "convert_attempts rec todo results =
     (case conversion_attempt True rec (map (\<lambda>l. (l, results 0 l)) todo) of
        (rec1, converted1, retry, remaining1) \<Rightarrow>
          let rec2 = foldl drop_unconfirmed rec1 retry in
          (case conversion_attempt False rec2 (map (\<lambda>l. (l, results 1 l)) retry) of
             (rec3, converted2, _, remaining2) \<Rightarrow> (rec3, converted1 @ converted2, remaining1 @ remaining2)))"

section \<open>Properties\<close>

lemma amount_of_simps [simp]: "amount_of [] m = 0"
  by (simp add: amount_of_def)

lemma dget_leftovers:
  assumes "distinct (dkeys attributed)"
  shows "dget (computeLeftovers attributed swept held) mint =
    (case dget attributed mint of None \<Rightarrow> None | Some a \<Rightarrow>
       if mint = MAINNET_USDC_MINT then None
       else if 0 < min (a - amount_of swept mint) (amount_of held mint)
       then Some (min (a - amount_of swept mint) (amount_of held mint)) else None)"
  unfolding computeLeftovers_def dget_collect [OF assms] by (simp add: Let_def min_def split: option.split)

lemma leftovers_bounded:
  assumes "distinct (dkeys attributed)" "dget (computeLeftovers attributed swept held) mint = Some left"
  shows "0 < left \<and> left \<le> amount_of held mint \<and> left + amount_of swept mint \<le> amount_of attributed mint \<and>
    mint \<noteq> MAINNET_USDC_MINT"
  using assms(2)
  by (auto simp: dget_leftovers [OF assms(1)] amount_of_def min_def split: option.splits if_splits)

text \<open>
  Leftovers never touch the user's own coins. What is offered for conversion of an asset
  is positive, at most what the wallet holds, at most what the flow put there less what was
  already sold, and never USDC; and everything of that kind is offered: it is the smaller of
  the two whenever both are positive.
\<close>

theorem leftovers_exact:
  assumes "distinct (dkeys attributed)"
  shows "(\<forall>left. dget (computeLeftovers attributed swept held) mint = Some left \<longrightarrow>
      0 < left \<and> left \<le> amount_of held mint \<and> left + amount_of swept mint \<le> amount_of attributed mint \<and>
      mint \<noteq> MAINNET_USDC_MINT) \<and>
    (mint \<noteq> MAINNET_USDC_MINT \<and> 0 < amount_of attributed mint - amount_of swept mint \<and> 0 \<le> amount_of swept mint \<and>
       0 < amount_of held mint \<longrightarrow>
       dget (computeLeftovers attributed swept held) mint =
         Some (min (amount_of attributed mint - amount_of swept mint) (amount_of held mint)))"
  by (auto simp: dget_leftovers [OF assms] amount_of_def min_def split: option.splits if_splits)

theorem leftovers_exact_witness:
  "dget (computeLeftovers [(''A'', 10)] [(''A'', 3)] [(''A'', 20)]) ''A'' = Some 7"
  using leftovers_exact [where attributed = "[(''A'', 10)]" and mint = "''A''" and swept = "[(''A'', 3)]"
    and held = "[(''A'', 20)]"]
  by (simp add: amount_of_def dkeys_def MAINNET_USDC_MINT_def)

lemma dget_map_heldRaw: "dget (heldRaw held) m = map_option hd_raw (dget held m)"
  by (induction held) (auto simp: heldRaw_def)

lemma owner_deltas_distinct:
  "ownerDeltasFromSignature ch s owner = Some d \<Longrightarrow> distinct (dkeys d)"
  by (auto simp: ownerDeltasFromSignature_def Let_def dkeys_def comp_def split: option.splits)

lemma reconcile_legs_confirmed:
  assumes "reconcile_legs ch t legs = Inr legs'"
  shows "dkeys legs' = dkeys legs \<and>
    (\<forall>mint leg. dget legs mint = Some leg \<longrightarrow> (\<exists>leg'. dget legs' mint = Some leg' \<and> (sw_confirmed leg \<longrightarrow> sw_confirmed leg') \<and>
       (\<forall>s. sw_signature leg = Some s \<longrightarrow> sw_confirmed leg' \<or>
          (\<exists>out. resolve_sig ch s (sw_lastValidBlockHeight leg) t = Inr out \<and> out \<noteq> Confirmed \<and> out \<noteq> Unknown))))"
  using assms
proof (induction legs arbitrary: legs')
  case (Cons e legs)
  obtain mint leg where e: "e = (mint, leg)" by fastforce
  from Cons.prems e obtain leg' rest' where
    leg': "(if sw_confirmed leg then Inr leg
            else case sw_signature leg of
              None \<Rightarrow> Inr leg
            | Some signature \<Rightarrow>
                rbind (resolve_sig ch signature (sw_lastValidBlockHeight leg) t) (\<lambda>st.
                  if st = Confirmed then Inr (leg\<lparr>sw_confirmed := True\<rparr>)
                  else if st = Unknown then Inl (NotVerified signature)
                  else Inr leg)) = Inr leg'"
    and rest: "reconcile_legs ch t legs = Inr rest'" and out: "legs' = (mint, leg') # rest'"
    by (auto simp: res_iff)
  have head: "(sw_confirmed leg \<longrightarrow> sw_confirmed leg') \<and>
      (\<forall>s. sw_signature leg = Some s \<longrightarrow> sw_confirmed leg' \<or>
         (\<exists>out. resolve_sig ch s (sw_lastValidBlockHeight leg) t = Inr out \<and> out \<noteq> Confirmed \<and> out \<noteq> Unknown))"
    using leg' by (cases leg; cases leg') (auto simp: res_iff split: if_splits option.splits)
  from Cons.IH [OF rest] head show ?case unfolding out e by (auto simp: dkeys_def)
qed simp

text \<open>
  What a redemption is said to have left is what it left. If the inspection reports
  leftovers, the redemption landed; each leftover is positive, held, at most what the redeem
  transaction itself paid the wallet in that asset, and no swap of that asset is confirmed
  or could still be in flight.
\<close>

theorem redeem_leftovers_sound:
  assumes "inspectRedeem ch p held sweep = Inr (Found item)" "distinct (dkeys (se_legSwaps p))"
    and "leg \<in> set (in_leftovers item)"
  shows "\<exists>signature payout. se_redeemSignature p = Some signature \<and>
    (se_redeemConfirmed p \<or> resolve_sig ch signature (se_redeemLastValid p) (se_startedAt p) = Inr Confirmed) \<and>
    ownerDeltasFromSignature ch signature (se_wallet p) = Some payout \<and>
    0 < la_amountRaw leg \<and> la_amountRaw leg \<le> amount_of (heldRaw held) (la_mint leg) \<and>
    la_amountRaw leg + amount_of (sweptByMint sweep) (la_mint leg) \<le> amount_of payout (la_mint leg) \<and>
    (\<forall>sw s. dget (se_legSwaps p) (la_mint leg) = Some sw \<and> sw_signature sw = Some s \<longrightarrow>
       \<not> sw_confirmed sw \<and> (\<exists>out. resolve_sig ch s (sw_lastValidBlockHeight sw) (se_startedAt p) = Inr out \<and>
         out \<noteq> Confirmed \<and> out \<noteq> Unknown))"
proof -
  from assms(1) obtain signature payout legs where sig: "se_redeemSignature p = Some signature"
    and landed: "se_redeemConfirmed p \<or> resolve_sig ch signature (se_redeemLastValid p) (se_startedAt p) = Inr Confirmed"
    and payout: "ownerDeltasFromSignature ch signature (se_wallet p) = Some payout"
    and legs: "reconcile_legs ch (se_startedAt p) (se_legSwaps p) = Inr legs"
    and left: "in_leftovers item = leftover_assets held
        (computeLeftovers (redeemAttribution payout legs) (sweptByMint sweep) (heldRaw held))"
    by (auto simp: inspectRedeem_def Let_def res_iff split: option.splits if_splits)
  define attributed where "attributed = redeemAttribution payout legs"
  have dp: "distinct (dkeys payout)" using owner_deltas_distinct [OF payout] .
  have da: "distinct (dkeys attributed)" by (simp add: attributed_def redeemAttribution_def distinct_collect)
  from assms(3) left have "(la_mint leg, la_amountRaw leg) \<in> set (computeLeftovers attributed (sweptByMint sweep) (heldRaw held))"
    by (auto simp: leftover_assets_def attributed_def)
  moreover have "distinct (dkeys (computeLeftovers attributed (sweptByMint sweep) (heldRaw held)))"
    by (simp add: computeLeftovers_def distinct_collect)
  ultimately have "dget (computeLeftovers attributed (sweptByMint sweep) (heldRaw held)) (la_mint leg) = Some (la_amountRaw leg)"
    by (simp add: dget_in_set)
  then obtain a where a: "dget attributed (la_mint leg) = Some a" and amt: "0 < la_amountRaw leg"
    "la_amountRaw leg \<le> amount_of (heldRaw held) (la_mint leg)"
    "la_amountRaw leg + amount_of (sweptByMint sweep) (la_mint leg) \<le> a"
    by (auto simp: dget_leftovers [OF da] min_def split: option.splits if_splits)
  from a have pay: "dget payout (la_mint leg) = Some a"
    and unconf: "\<And>sw. dget legs (la_mint leg) = Some sw \<Longrightarrow> \<not> sw_confirmed sw"
    by (auto simp: attributed_def redeemAttribution_def dget_collect [OF dp] split: option.splits if_splits)
  have "\<not> sw_confirmed sw \<and> (\<exists>out. resolve_sig ch s (sw_lastValidBlockHeight sw) (se_startedAt p) = Inr out \<and>
         out \<noteq> Confirmed \<and> out \<noteq> Unknown)"
    if "dget (se_legSwaps p) (la_mint leg) = Some sw" "sw_signature sw = Some s" for sw s
    using reconcile_legs_confirmed [OF legs] that unconf by blast
  with sig landed payout amt pay show ?thesis
    by (intro exI [of _ signature] exI [of _ payout]) (simp add: amount_of_def)
qed

definition demo_chain :: chain where
  "demo_chain = \<lparr>ch_status = (\<lambda>s. Some \<lparr>ss_err = None, ss_commitment = Finalized\<rparr>),
     ch_parsed = (\<lambda>s. Some \<lparr>tx_pre = [], tx_post = [\<lparr>tb_owner = Some ''W'', tb_mint = ''RAY'', tb_amount = 50\<rparr>]\<rparr>),
     ch_polls = (\<lambda>s k. \<lparr>p_status = None, p_height = None, p_now = int k\<rparr>), ch_now = 0, ch_reserve = (\<lambda>r. None)\<rparr>"

definition demo_sell :: pending_sell where
  "demo_sell = \<lparr>se_wallet = ''W'', se_reserve = ''R'', se_startedAt = 0, se_redeemConfirmed = True,
     se_redeemSignature = Some ''sig'', se_redeemLastValid = None, se_legSwaps = []\<rparr>"

theorem redeem_leftovers_sound_witness:
  "\<exists>item. inspectRedeem demo_chain demo_sell [(''RAY'', \<lparr>hd_raw = 80, hd_decimals = 6\<rparr>)] [] = Inr (Found item) \<and>
     map la_amountRaw (in_leftovers item) = [50] \<and> (50::int) \<le> 80"
proof -
  let ?held = "[(''RAY'', \<lparr>hd_raw = 80, hd_decimals = 6\<rparr>)]"
  obtain item where run: "inspectRedeem demo_chain demo_sell ?held [] = Inr (Found item)"
    and item: "in_leftovers item = [\<lparr>la_mint = ''RAY'', la_decimals = 6, la_amountRaw = 50\<rparr>]"
    by (simp add: inspectRedeem_def demo_sell_def demo_chain_def ownerDeltasFromSignature_def
        computeOwnerTokenDeltaRaw_def sum_owned_def redeemAttribution_def computeLeftovers_def collect_def
        sweptByMint_def heldRaw_def leftover_assets_def amount_of_def dput_def MAINNET_USDC_MINT_def Let_def)
  have "la_amountRaw \<lparr>la_mint = ''RAY'', la_decimals = 6, la_amountRaw = 50\<rparr> \<le> amount_of (heldRaw ?held) ''RAY''"
    using redeem_leftovers_sound [OF run, of "\<lparr>la_mint = ''RAY'', la_decimals = 6, la_amountRaw = 50\<rparr>"] item
    by (simp add: demo_sell_def dkeys_def) blast
  then show ?thesis using run item by (simp add: heldRaw_def amount_of_def)
qed

text \<open>Selling: what a conversion does to the record of one mint.\<close>

definition sold_at_most :: "sweep_record \<Rightarrow> string \<Rightarrow> int" where
  "sold_at_most rec m = sum_list (map sl_amountRaw (legs_of rec m))"

definition all_settled :: "sweep_record \<Rightarrow> bool" where
  "all_settled rec \<longleftrightarrow> (\<forall>m. \<forall>l \<in> set (legs_of rec m). sl_confirmed l)"

definition not_landed :: "swap_result \<Rightarrow> bool" where
  "not_landed r \<longleftrightarrow> (case r of NotLanded _ \<Rightarrow> True | _ \<Rightarrow> False)"

lemma legs_of_dput: "legs_of (dput k ls rec) m = (if m = k then ls else legs_of rec m)"
  by (simp add: legs_of_def od.get_put)

lemmas persist_defs = persist_submitted_def persist_confirmed_def drop_unconfirmed_def

lemma persist_other: "m \<noteq> la_mint leg \<Longrightarrow> legs_of (persist_result rec leg r) m = legs_of rec m"
  by (auto simp: persist_result_def persist_defs legs_of_dput split: swap_result.split option.split)

lemma persist_same:
  assumes "legs_of rec (la_mint leg) = legs_of rec' (la_mint leg)"
  shows "legs_of (persist_result rec leg r) (la_mint leg) = legs_of (persist_result rec' leg r) (la_mint leg)"
  using assms by (auto simp: persist_result_def persist_defs legs_of_dput split: swap_result.split option.split)

lemma persist_sum:
  assumes "0 \<le> la_amountRaw leg"
  shows "sold_at_most (persist_result rec leg r) (la_mint leg) \<le> sold_at_most rec (la_mint leg) + la_amountRaw leg"
proof -
  have "sl_amountRaw \<circ> (\<lambda>l :: sweep_leg. if sl_signature l = s then l\<lparr>sl_confirmed := True\<rparr> else l) = sl_amountRaw" for s
    by (rule ext) simp
  then show ?thesis using assms
    by (auto simp: sold_at_most_def persist_result_def persist_defs legs_of_dput split: swap_result.split option.split)
qed

lemma persist_not_landed:
  assumes "not_landed r" "\<forall>l \<in> set (legs_of rec (la_mint leg)). sl_confirmed l"
  shows "filter sl_confirmed (legs_of (persist_result rec leg r) (la_mint leg)) = legs_of rec (la_mint leg)"
  using assms by (auto simp: not_landed_def persist_result_def persist_defs legs_of_dput
      split: swap_result.splits option.splits)

lemma attempt_effect:
  assumes "conversion_attempt t rec xs = (rec', conv, retry, rem)" "distinct (map (\<lambda>x. la_mint (fst x)) xs)"
  shows "(\<forall>m. m \<notin> (\<lambda>x. la_mint (fst x)) ` set xs \<longrightarrow> legs_of rec' m = legs_of rec m) \<and>
    (\<forall>x \<in> set xs. legs_of rec' (la_mint (fst x)) = legs_of (persist_result rec (fst x) (snd x)) (la_mint (fst x))) \<and>
    retry = (if t then map fst (filter (\<lambda>x. not_landed (snd x)) xs) else [])"
  using assms
proof (induction t rec xs arbitrary: rec' conv retry rem rule: conversion_attempt.induct)
  case (2 t rec leg res rest)
  obtain rec1 conv1 retry1 rem1
    where tail: "conversion_attempt t (persist_result rec leg res) rest = (rec1, conv1, retry1, rem1)"
    by (cases "conversion_attempt t (persist_result rec leg res) rest")
  have ih: "(\<forall>m. m \<notin> (\<lambda>x. la_mint (fst x)) ` set rest \<longrightarrow> legs_of rec1 m = legs_of (persist_result rec leg res) m) \<and>
    (\<forall>x \<in> set rest. legs_of rec1 (la_mint (fst x)) =
       legs_of (persist_result (persist_result rec leg res) (fst x) (snd x)) (la_mint (fst x))) \<and>
    retry1 = (if t then map fst (filter (\<lambda>x. not_landed (snd x)) rest) else [])"
    using "2.IH" [OF tail] "2.prems"(2) by simp
  have rec': "rec' = rec1" using "2.prems"(1) tail by (auto split: swap_result.splits if_splits)
  have retry: "retry = (if t then map fst (filter (\<lambda>x. not_landed (snd x)) ((leg, res) # rest)) else [])"
    using "2.prems"(1) tail ih by (auto simp: not_landed_def split: swap_result.splits if_splits)
  have other: "la_mint (fst x) \<noteq> la_mint leg" if "x \<in> set rest" for x
    using "2.prems"(2) that by force
  have "legs_of rec' (la_mint (fst x)) = legs_of (persist_result rec (fst x) (snd x)) (la_mint (fst x))"
    if "x \<in> set rest" for x
    using ih that persist_same [of "persist_result rec leg res" "fst x" rec "snd x"] persist_other [OF other [OF that]]
    unfolding rec' by simp
  moreover have "legs_of rec' (la_mint leg) = legs_of (persist_result rec leg res) (la_mint leg)"
    using ih other unfolding rec' by force
  moreover have "legs_of rec' m = legs_of rec m" if "m \<notin> (\<lambda>x. la_mint (fst x)) ` set ((leg, res) # rest)" for m
    using ih that persist_other [of m leg rec res] unfolding rec' by simp
  ultimately show ?case using retry by simp
qed simp

lemma foldl_drop: "legs_of (foldl drop_unconfirmed rec legs) m =
    (if m \<in> la_mint ` set legs then filter sl_confirmed (legs_of rec m) else legs_of rec m)"
  by (induction legs arbitrary: rec) (auto simp: drop_unconfirmed_def legs_of_dput)

lemma convert_sold:
  assumes "all_settled rec" "distinct (map la_mint todo)" "\<forall>leg \<in> set todo. 0 \<le> la_amountRaw leg"
    and "convert_attempts rec todo results = (rec3, conv, rem)"
  shows "(m \<notin> la_mint ` set todo \<longrightarrow> sold_at_most rec3 m = sold_at_most rec m) \<and>
    (\<forall>leg \<in> set todo. m = la_mint leg \<longrightarrow> sold_at_most rec3 m \<le> sold_at_most rec m + la_amountRaw leg)"
proof -
  let ?xs = "map (\<lambda>l. (l, results 0 l)) todo"
  obtain rec1 conv1 retry rem1 where a1: "conversion_attempt True rec ?xs = (rec1, conv1, retry, rem1)"
    by (cases "conversion_attempt True rec ?xs")
  let ?ys = "map (\<lambda>l. (l, results 1 l)) retry"
  let ?rec2 = "foldl drop_unconfirmed rec1 retry"
  obtain conv2 retry2 rem2 where a2: "conversion_attempt False ?rec2 ?ys = (rec3, conv2, retry2, rem2)"
    using assms(4) a1 by (cases "conversion_attempt False ?rec2 ?ys") (auto simp: convert_attempts_def Let_def)
  have "distinct (map (\<lambda>x. la_mint (fst x)) ?xs)" using assms(2) by (simp add: comp_def)
  from attempt_effect [OF a1 this]
  have e1: "m \<notin> la_mint ` set todo \<Longrightarrow> legs_of rec1 m = legs_of rec m"
    "leg \<in> set todo \<Longrightarrow> legs_of rec1 (la_mint leg) = legs_of (persist_result rec leg (results 0 leg)) (la_mint leg)"
    and retry: "retry = filter (\<lambda>l. not_landed (results 0 l)) todo" for m leg
    by (auto simp: image_image filter_map comp_def)
  have sub: "set retry \<subseteq> set todo" by (auto simp: retry)
  have "distinct (map (\<lambda>x. la_mint (fst x)) ?ys)"
    using assms(2) by (simp add: comp_def retry distinct_map_filter)
  from attempt_effect [OF a2 this]
  have e2: "m \<notin> la_mint ` set retry \<Longrightarrow> legs_of rec3 m = legs_of ?rec2 m"
    "leg \<in> set retry \<Longrightarrow> legs_of rec3 (la_mint leg) = legs_of (persist_result ?rec2 leg (results 1 leg)) (la_mint leg)"
    for m leg
    by (auto simp: image_image)
  show ?thesis
  proof (intro conjI impI ballI)
    assume "m \<notin> la_mint ` set todo"
    moreover from this sub have "m \<notin> la_mint ` set retry" by blast
    ultimately show "sold_at_most rec3 m = sold_at_most rec m"
      using e1(1) e2(1) by (simp add: sold_at_most_def foldl_drop)
  next
    fix leg assume leg: "leg \<in> set todo" and m: "m = la_mint leg"
    have amt: "0 \<le> la_amountRaw leg" using assms(3) leg by simp
    have settled: "\<forall>l \<in> set (legs_of rec m). sl_confirmed l" using assms(1) by (simp add: all_settled_def)
    show "sold_at_most rec3 m \<le> sold_at_most rec m + la_amountRaw leg"
    proof (cases "leg \<in> set retry")
      case True
      then have "legs_of ?rec2 m = filter sl_confirmed (legs_of (persist_result rec leg (results 0 leg)) m)"
        using m e1(2) [OF leg] by (auto simp: foldl_drop)
      also have "\<dots> = legs_of rec m"
        using persist_not_landed [of "results 0 leg" rec leg] True settled m by (simp add: retry)
      finally have "sold_at_most ?rec2 m = sold_at_most rec m" by (simp add: sold_at_most_def)
      moreover have "sold_at_most rec3 m = sold_at_most (persist_result ?rec2 leg (results 1 leg)) m"
        using e2(2) [OF True] m by (simp add: sold_at_most_def)
      ultimately show ?thesis using persist_sum [OF amt, of ?rec2 "results 1 leg"] m by simp
    next
      case False
      have "m \<notin> la_mint ` set retry"
      proof
        assume "m \<in> la_mint ` set retry"
        then obtain other where "other \<in> set retry" "la_mint other = la_mint leg" using m by auto
        with sub leg assms(2) have "other = leg" by (meson distinct_map inj_onD subsetD)
        with \<open>other \<in> set retry\<close> False show False by simp
      qed
      then have "legs_of rec3 m = legs_of (persist_result rec leg (results 0 leg)) m"
        using e2(1) e1(2) [OF leg] m by (simp add: foldl_drop)
      then show ?thesis using persist_sum [OF amt, of rec "results 0 leg"] m by (simp add: sold_at_most_def)
    qed
  qed
qed

lemma reconcile_sweep_legs_sum:
  assumes "reconcile_sweep_legs ch legs = Inr kept" "\<forall>l \<in> set legs. 0 \<le> sl_amountRaw l"
  shows "(\<forall>l \<in> set kept. sl_confirmed l \<and> 0 \<le> sl_amountRaw l) \<and>
    sum_list (map sl_amountRaw kept) \<le> sum_list (map sl_amountRaw legs)"
  using assms
  by (induction legs arbitrary: kept) (fastforce simp: res_iff split: if_splits sig_answer.splits)+

lemma reconcile_sweep_legs_of:
  assumes "reconcile_sweep ch rec = Inr rec'"
  shows "reconcile_sweep_legs ch (legs_of rec m) = Inr (legs_of rec' m)"
  using assms by (induction rec arbitrary: rec') (auto simp: legs_of_def res_iff)

text \<open>
  A history of recovery: conversions started from any page load, each after reconciling,
  with whatever the wallet holds then and whatever becomes of the swaps. \<open>attributed\<close> is
  what the flow put in the wallet.
\<close>

inductive recovery_run :: "amounts \<Rightarrow> sweep_record \<Rightarrow> bool" for attributed where
  start: "recovery_run attributed []"
| convert: "recovery_run attributed rec \<Longrightarrow> reconcile_sweep ch rec = Inr rec' \<Longrightarrow>
    convert_attempts rec' (leftover_assets held (computeLeftovers attributed (sweptByMint rec') (heldRaw held))) results =
      (rec'', conv, rem) \<Longrightarrow> recovery_run attributed rec''"

lemma dget_swept: "distinct (dkeys rec) \<Longrightarrow> amount_of (sweptByMint rec) m = confirmed_sum (legs_of rec m)"
  by (simp add: amount_of_def sweptByMint_def dget_collect legs_of_def confirmed_sum_def split: option.split)

definition record_ok :: "sweep_record \<Rightarrow> bool" where
  "record_ok rec \<longleftrightarrow> distinct (dkeys rec) \<and> (\<forall>m. \<forall>l \<in> set (legs_of rec m). 0 \<le> sl_amountRaw l)"

lemma record_ok_persist:
  "record_ok rec \<Longrightarrow> 0 \<le> la_amountRaw leg \<Longrightarrow> record_ok (persist_result rec leg r)"
  by (auto simp: record_ok_def persist_result_def persist_defs legs_of_dput distinct_dput
      split: swap_result.split option.split)

lemma record_ok_drop: "record_ok rec \<Longrightarrow> record_ok (drop_unconfirmed rec leg)"
  by (auto simp: record_ok_def drop_unconfirmed_def legs_of_dput distinct_dput)

lemma record_ok_attempt:
  "conversion_attempt t rec xs = (rec', conv, retry, rem) \<Longrightarrow> record_ok rec \<Longrightarrow>
   \<forall>x \<in> set xs. 0 \<le> la_amountRaw (fst x) \<Longrightarrow> record_ok rec' \<and> set retry \<subseteq> fst ` set xs"
proof (induction t rec xs arbitrary: rec' conv retry rem rule: conversion_attempt.induct)
  case (2 t rec leg res rest)
  obtain rec1 conv1 retry1 rem1
    where tail: "conversion_attempt t (persist_result rec leg res) rest = (rec1, conv1, retry1, rem1)"
    by (cases "conversion_attempt t (persist_result rec leg res) rest")
  have "record_ok rec1 \<and> set retry1 \<subseteq> fst ` set rest"
    using "2.IH" [OF tail] "2.prems"(2,3) record_ok_persist by auto
  then show ?case using "2.prems"(1) tail by (auto split: swap_result.splits if_splits)
qed simp

lemma record_ok_convert:
  assumes "convert_attempts rec todo results = (rec3, conv, rem)" "record_ok rec"
    "\<forall>leg \<in> set todo. 0 \<le> la_amountRaw leg"
  shows "record_ok rec3"
proof -
  let ?xs = "map (\<lambda>l. (l, results 0 l)) todo"
  obtain rec1 conv1 retry rem1 where a1: "conversion_attempt True rec ?xs = (rec1, conv1, retry, rem1)"
    by (cases "conversion_attempt True rec ?xs")
  let ?ys = "map (\<lambda>l. (l, results 1 l)) retry"
  let ?rec2 = "foldl drop_unconfirmed rec1 retry"
  obtain conv2 retry2 rem2 where a2: "conversion_attempt False ?rec2 ?ys = (rec3, conv2, retry2, rem2)"
    using assms(1) a1 by (cases "conversion_attempt False ?rec2 ?ys") (auto simp: convert_attempts_def Let_def)
  have ok1: "record_ok rec1" "set retry \<subseteq> set todo"
    using record_ok_attempt [OF a1 assms(2)] assms(3) by auto
  have "record_ok (foldl drop_unconfirmed r ls)" if "record_ok r" for r ls
    using that by (induction ls arbitrary: r) (auto intro: record_ok_drop)
  with ok1 have "record_ok ?rec2" by blast
  then show ?thesis using record_ok_attempt [OF a2] ok1(2) assms(3) by auto
qed

lemma reconcile_dkeys: "reconcile_sweep ch rec = Inr rec' \<Longrightarrow> dkeys rec' = dkeys rec"
  by (induction rec arbitrary: rec') (auto simp: dkeys_def res_iff)

lemma leftover_assets_mints: "map la_mint (leftover_assets held left) = dkeys left"
  by (simp add: leftover_assets_def dkeys_def comp_def case_prod_beta)

lemma leftover_assets_get:
  "distinct (dkeys left) \<Longrightarrow> leg \<in> set (leftover_assets held left) \<Longrightarrow> dget left (la_mint leg) = Some (la_amountRaw leg)"
  by (auto simp: leftover_assets_def dget_in_set)



end
