(* ===== verification/Instructions.thy ===== *)
theory Instructions
  imports Solana Fee_Math Js_Number
begin

text \<open>
  What the instruction builders of the SDK share: the token program of a mint
  (\<open>packages/sdk/src/tokenPrograms.ts\<close>, \<open>readOnly.ts: resolveMintTokenProgram\<close>), program
  calls as Anchor's method builder records them, the instructions of the token programs,
  and the five remaining accounts every builder passes for an asset leg.

  An address that the code keeps as a base58 string stays a string here; an amount that it
  keeps as the decimal string of a u64 is an integer.
\<close>

datatype build_error =
    Calc calc_error
  | TokenOwnerOffCurve
  | NotSingleAsset nat
  | NoRegisteredAsset
  | ReserveNotSeeded
  | AmountInNotPositive
  | FeeConsumesRedemption
  | DivideByZero
  | NotAnInteger
  | LegacyDestinationRequired
  | NoCurrentPrice
  | TransferFeeOutOfRange number
  | TooManyHarvestSources nat
  | PlanLengthMismatch
  | NoTestPrice string
  | ReadFailed
  | InvalidTokenAccount

definition calc :: "calc_error + 'a \<Rightarrow> build_error + 'a" where
  "calc m = (case m of Inl e \<Rightarrow> Inl (Calc e) | Inr x \<Rightarrow> Inr x)"

lemma calc_Inr_iff [res_iff]: "calc m = Inr x \<longleftrightarrow> m = Inr x"
  by (cases m) (auto simp: calc_def)

section \<open>The token program of a mint\<close>

text \<open>\<open>PublicKey | string\<close>.\<close>

datatype key_ref = Key pubkey | Text string

fun key_text :: "web3 \<Rightarrow> key_ref \<Rightarrow> string" where
  "key_text w (Key k) = toBase58 w k"
| "key_text w (Text s) = s"

fun key_of :: "web3 \<Rightarrow> key_ref \<Rightarrow> pubkey" where
  \<comment> \<open>\<open>typeof x === "string" ? new PublicKey(x) : x\<close>\<close>
  "key_of w (Key k) = k"
| "key_of w (Text s) = ofBase58 w s"

definition isToken2022 :: "web3 \<Rightarrow> key_ref option \<Rightarrow> bool" where
  "isToken2022 w p = (case p of
      None \<Rightarrow> False
    | Some r \<Rightarrow> if r = Text [] then False else key_text w r = toBase58 w (TOKEN_2022_PROGRAM_ID w))"

text \<open>A \<open>ReserveAsset\<close>'s \<open>token_program\<close> as Anchor decodes it: which of its fields are defined.\<close>

record token_program_kind =
  kind_splToken :: bool
  kind_token2022 :: bool

definition tokenProgramFromKind :: "web3 \<Rightarrow> token_program_kind option \<Rightarrow> pubkey" where
  "tokenProgramFromKind w kind = (case kind of
      Some k \<Rightarrow> if kind_token2022 k then TOKEN_2022_PROGRAM_ID w else TOKEN_PROGRAM_ID w
    | None \<Rightarrow> TOKEN_PROGRAM_ID w)"

definition tokenProgramKindArg :: "web3 \<Rightarrow> key_ref \<Rightarrow> token_program_kind" where
  "tokenProgramKindArg w p = (if isToken2022 w (Some p) then \<lparr>kind_splToken = False, kind_token2022 = True\<rparr>
     else \<lparr>kind_splToken = True, kind_token2022 = False\<rparr>)"

definition tokenProgramFromMintOwner :: "web3 \<Rightarrow> key_ref option \<Rightarrow> pubkey" where
  "tokenProgramFromMintOwner w owner =
     (if isToken2022 w owner then TOKEN_2022_PROGRAM_ID w else TOKEN_PROGRAM_ID w)"

definition assetAta :: "web3 \<Rightarrow> pubkey \<Rightarrow> pubkey \<Rightarrow> pubkey \<Rightarrow> bool \<Rightarrow> build_error + pubkey" where
  "assetAta w mint owner tokenProgram allowOwnerOffCurve =
     associated_address w TokenOwnerOffCurve mint owner allowOwnerOffCurve tokenProgram"

definition resolveLegTokenProgram :: "web3 \<Rightarrow> key_ref option \<Rightarrow> pubkey" where
  "resolveLegTokenProgram w tokenProgram = (case tokenProgram of
      None \<Rightarrow> TOKEN_PROGRAM_ID w
    | Some r \<Rightarrow> if r = Text [] then TOKEN_PROGRAM_ID w else key_of w r)"

text \<open>
  \<open>unpackAccount\<close> is spl-token's: given the address, the account and the program it is
  read under, it returns the amount or throws.
\<close>

type_synonym unpacker = "pubkey \<Rightarrow> account option \<Rightarrow> pubkey \<Rightarrow> build_error + int"

definition unpackTokenAccountByOwner :: "web3 \<Rightarrow> unpacker \<Rightarrow> pubkey \<Rightarrow> account option \<Rightarrow> build_error + int" where
  "unpackTokenAccountByOwner w unpackAccount address info =
     (let program = (if (\<exists>i. info = Some i \<and> isToken2022 w (Some (Key (acc_owner i))))
        then TOKEN_2022_PROGRAM_ID w else TOKEN_PROGRAM_ID w)
      in unpackAccount address info program)"

definition tokenAccountAmountByOwner :: "web3 \<Rightarrow> unpacker \<Rightarrow> pubkey \<Rightarrow> account option \<Rightarrow> int" where
  "tokenAccountAmountByOwner w unpackAccount address info =
     (if info = None then 0
      else case unpackTokenAccountByOwner w unpackAccount address info of Inl _ \<Rightarrow> 0 | Inr n \<Rightarrow> n)"

text \<open>
  \<open>resolveMintTokenProgram\<close>: the module-level cache is threaded through; \<open>read\<close> is
  \<open>connection.getAccountInfo\<close> (which may throw).
\<close>

type_synonym program_cache = "(string \<times> pubkey) list"

definition resolveMintTokenProgram ::
  "web3 \<Rightarrow> program_cache \<Rightarrow> (build_error + account option) \<Rightarrow> pubkey \<Rightarrow> (build_error + pubkey) \<times> program_cache" where
  "resolveMintTokenProgram w cache read mint =
     (let key = toBase58 w mint in
      case dget cache key of
        Some cached \<Rightarrow> (Inr cached, cache)
      | None \<Rightarrow> (case read of
            Inl e \<Rightarrow> (Inl e, cache)
          | Inr None \<Rightarrow> (Inr (TOKEN_2022_PROGRAM_ID w), cache)
          | Inr (Some mintInfo) \<Rightarrow>
              let program = tokenProgramFromMintOwner w (Some (Key (acc_owner mintInfo)))
              in (Inr program, dput key program cache)))"

definition rememberMintTokenProgram :: "web3 \<Rightarrow> program_cache \<Rightarrow> key_ref \<Rightarrow> key_ref \<Rightarrow> program_cache" where
  "rememberMintTokenProgram w cache mint owner =
     dput (key_text w mint) (tokenProgramFromMintOwner w (Some owner)) cache"

definition reserve_token_program :: "pubkey option \<Rightarrow> (build_error + pubkey) \<Rightarrow> build_error + pubkey" where
  \<comment> \<open>\<open>params.reserveTokenProgram ?? (await resolveMintTokenProgram(..))\<close>\<close>
  "reserve_token_program given resolved = (case given of Some p \<Rightarrow> Inr p | None \<Rightarrow> resolved)"

section \<open>Instructions\<close>

text \<open>
  A program call is what \<open>program.methods.m(args).accounts(..).remainingAccounts(..)\<close> is
  given; Anchor serializes it with the generated IDL. \<open>None\<close> is an explicit \<open>null\<close>
  account. The other constructors are the instructions of \<open>@solana/spl-token\<close> and of
  the System program, with the arguments in the library's order.
\<close>

datatype ix_arg =
    BigArg int
  | NumArg int
  | TextArg string
  | BoolArg bool
  | KeyArg pubkey
  | ListArg "ix_arg list"
  | RecipientArg pubkey int

record anchor_call =
  call_program :: pubkey
  call_method :: string
  call_args :: "ix_arg list"
  call_accounts :: "(string \<times> pubkey option) list"
  call_remaining :: "account_meta list"

datatype tx_ix =
    ProgramCall anchor_call
  | CreateAtaIdempotent (ata_payer: pubkey) (ata_address: pubkey) (ata_owner: pubkey) (ata_mint: pubkey) (ata_program: pubkey)
  | SolTransfer pubkey pubkey int
  | SyncNative pubkey
  | TokenTransfer pubkey pubkey pubkey int
  | MintTo pubkey pubkey pubkey int
  | CloseAccount pubkey pubkey pubkey

definition account_named :: "anchor_call \<Rightarrow> string \<Rightarrow> pubkey option" where
  "account_named c name = (case map_of (call_accounts c) name of Some k \<Rightarrow> k | None \<Rightarrow> None)"

definition bn_list :: "int list \<Rightarrow> ix_arg" where
  "bn_list xs = ListArg (map BigArg xs)"

section \<open>Asset legs\<close>

record zap_leg =
  zl_mint :: string
  zl_decimals :: nat
  zl_reserveAsset :: string
  zl_vault :: string
  zl_vaultBalanceRaw :: int
  zl_tokenProgram :: "string option"

definition leg_program :: "web3 \<Rightarrow> zap_leg \<Rightarrow> pubkey" where
  "leg_program w leg = resolveLegTokenProgram w (map_option Text (zl_tokenProgram leg))"

definition leg_metas :: "web3 \<Rightarrow> zap_leg \<Rightarrow> pubkey \<Rightarrow> pubkey \<Rightarrow> account_meta list" where
  \<comment> \<open>the five accounts of a leg; \<open>ata\<close> is the account the asset moves from or to\<close>
  "leg_metas w leg ata program =
     [meta (ofBase58 w (zl_reserveAsset leg)) False False,
      meta (ofBase58 w (zl_vault leg)) True False,
      meta ata True False,
      meta (ofBase58 w (zl_mint leg)) False False,
      meta program False False]"

definition leg_balances :: "zap_leg list \<Rightarrow> asset_balance list" where
  "leg_balances = map (\<lambda>a. \<lparr>ab_mint = zl_mint a, vaultBalance = zl_vaultBalanceRaw a\<rparr>)"

text \<open>
  The loop \<open>for (const leg of assets)\<close> of the builders: per leg one idempotent account
  creation, and the five remaining accounts.
\<close>

fun user_leg_accounts :: "web3 \<Rightarrow> pubkey \<Rightarrow> zap_leg list \<Rightarrow> build_error + tx_ix list \<times> account_meta list" where
  "user_leg_accounts w user [] = Inr ([], [])"
| "user_leg_accounts w user (leg # legs) =
     (let mint = ofBase58 w (zl_mint leg); legTokenProgram = leg_program w leg in
      rbind (assetAta w mint user legTokenProgram False) (\<lambda>userAta.
      rbind (user_leg_accounts w user legs) (\<lambda>(ixs, metas).
        Inr (CreateAtaIdempotent user userAta user mint legTokenProgram # ixs,
             leg_metas w leg userAta legTokenProgram @ metas))))"

text \<open>
  The caps of a mint: every leg's requirement plus the slippage buffer, rounded up.
  \<open>slippage\<close> is the optional fraction; it defaults to 0.02.
\<close>

definition slippage_bps :: "number option \<Rightarrow> build_error + int" where
  "slippage_bps slippage =
     (case to_bigint (num_round (num_mul (case slippage of Some s \<Rightarrow> s | None \<Rightarrow> round64 (2 / 100)) (Fin 10000))) of
        None \<Rightarrow> Inl NotAnInteger
      | Some b \<Rightarrow> Inr b)"

definition max_asset_amounts :: "int \<Rightarrow> mint_requirement list \<Rightarrow> build_error + int list" where
  "max_asset_amounts bps = rmap (\<lambda>r. calc (mulDivCeil (requiredAmount r) (10000 + bps) 10000))"

section \<open>Facts\<close>

lemma assetAta_Inr [res_iff]:
  "assetAta w mint owner program allow = Inr a \<longleftrightarrow>
   (allow \<or> isOnCurve w owner) \<and> a = associatedTokenAddress w mint owner program"
  by (auto simp: assetAta_def associated_address_def)

definition wallet_ata :: "web3 \<Rightarrow> pubkey \<Rightarrow> zap_leg \<Rightarrow> pubkey" where
  "wallet_ata w owner leg = associatedTokenAddress w (ofBase58 w (zl_mint leg)) owner (leg_program w leg)"

lemma user_leg_accounts_Inr:
  "user_leg_accounts w user legs = Inr (ixs, metas) \<Longrightarrow>
   ixs = map (\<lambda>leg. CreateAtaIdempotent user (wallet_ata w user leg) user (ofBase58 w (zl_mint leg)) (leg_program w leg)) legs \<and>
   metas = concat (map (\<lambda>leg. leg_metas w leg (wallet_ata w user leg) (leg_program w leg)) legs)"
  by (induction legs arbitrary: ixs metas) (auto simp: res_iff Let_def wallet_ata_def split: prod.splits)

lemma user_leg_accounts_on_curve:
  "isOnCurve w user \<Longrightarrow> \<exists>r. user_leg_accounts w user legs = Inr r"
  by (induction legs) (auto simp: Let_def assetAta_def associated_address_def split: prod.split)

lemma leg_metas_signers [simp]: "filter isSigner (leg_metas w leg a p) = []"
  by (simp add: leg_metas_def meta_def)

lemma length_leg_metas [simp]: "length (leg_metas w leg a p) = 5"
  by (simp add: leg_metas_def)

lemma no_signer_legs [simp]: "filter isSigner (concat (map (\<lambda>leg. leg_metas w leg (f leg) (g leg)) legs)) = []"
  by (induction legs) auto

lemma length_legs [simp]: "length (concat (map (\<lambda>leg. leg_metas w leg (f leg) (g leg)) legs)) = 5 * length legs"
  by (induction legs) auto

lemma max_asset_amounts_Inr:
  assumes "max_asset_amounts bps reqs = Inr caps" "0 \<le> bps" "\<forall>r \<in> set reqs. 0 \<le> requiredAmount r"
  shows "list_all2 (\<lambda>r c. requiredAmount r \<le> c \<and>
           10000 * (c - 1) < requiredAmount r * (10000 + bps) \<and> requiredAmount r * (10000 + bps) \<le> 10000 * c) reqs caps"
proof -
  have step: "requiredAmount r \<le> c \<and> 10000 * (c - 1) < requiredAmount r * (10000 + bps) \<and>
      requiredAmount r * (10000 + bps) \<le> 10000 * c"
    if "mulDivCeil (requiredAmount r) (10000 + bps) 10000 = Inr c" "0 \<le> requiredAmount r" for r c
  proof -
    let ?p = "requiredAmount r * (10000 + bps)"
    have p: "0 \<le> ?p" "requiredAmount r * 10000 \<le> ?p"
      using that(2) assms(2) by (simp_all add: distrib_left)
    have c: "c = (?p + 10000 - 1) div 10000"
      using that(1) p by (simp add: mulDivCeil_def sdiv_nonneg_eq)
    note ceil_div_ge [of 10000 ?p] ceil_div_lt [of 10000 ?p]
    then show ?thesis using p(2) unfolding c [symmetric] by simp
  qed
  have "list_all2 (\<lambda>r c. calc (mulDivCeil (requiredAmount r) (10000 + bps) 10000) = Inr c) reqs caps"
    using rmap_Inr_list_all2 [OF assms(1) [unfolded max_asset_amounts_def]] .
  then show ?thesis using assms(3)
    by (induction reqs caps rule: list_all2_induct) (auto simp: res_iff dest: step simp del: right_diff_distrib_numeral)
qed


section \<open>Properties\<close>

text \<open>
  \<open>owners\<close> is the chain: the owning program of every mint that exists, by its address. A
  cache is true when each entry names the program that owns an existing mint. A read may
  fail; when it succeeds it returns what the chain holds.
\<close>

definition cache_true :: "web3 \<Rightarrow> (string \<Rightarrow> pubkey option) \<Rightarrow> program_cache \<Rightarrow> bool" where
  "cache_true w owners cache \<longleftrightarrow>
     (\<forall>k p. dget cache k = Some p \<longrightarrow> (\<exists>ow. owners k = Some ow \<and> p = tokenProgramFromMintOwner w (Some (Key ow))))"

definition honest_read :: "(string \<Rightarrow> pubkey option) \<Rightarrow> string \<Rightarrow> (build_error + account option) \<Rightarrow> bool" where
  "honest_read owners key read \<longleftrightarrow> (case read of Inl _ \<Rightarrow> True | Inr info \<Rightarrow> map_option acc_owner info = owners key)"


definition empty_web3 :: web3 where
  "empty_web3 = \<lparr>findProgramAddressSync = (\<lambda>seeds pid. concat seeds @ pid), toBase58 = (\<lambda>k. map (\<lambda>b. char_of (unat b)) k),
     ofBase58 = (\<lambda>s. map of_char s), associatedTokenAddress = (\<lambda>m u t. m @ u @ t), isOnCurve = (\<lambda>k. True)\<rparr>"


end
