(* ===== verification/Direct_Trades.thy ===== *)
theory Direct_Trades
  imports Instructions
begin

text \<open>
  The single-signer purchases and redemptions of \<open>packages/sdk/src/directInstructions.ts\<close>
  and the mints whose fee is paid in USDC, \<open>usdcMintFee.ts\<close>. A builder is the function of
  the source; its parameter record has the source's fields, \<open>resolved\<close> stands for the
  awaited \<open>resolveMintTokenProgram\<close>.
\<close>

section \<open>Mints\<close>

definition requireSingleAssetReserve :: "zap_leg list \<Rightarrow> build_error + zap_leg" where
  "requireSingleAssetReserve assets =
     (if length assets \<noteq> 1 then Inl (NotSingleAsset (length assets)) else Inr (hd assets))"

definition computeDirectReserveTokensRequested :: "int \<Rightarrow> int \<Rightarrow> int \<Rightarrow> build_error + int" where
  "computeDirectReserveTokensRequested amountIn balance totalSupply =
     (if totalSupply \<le> 0 \<or> balance \<le> 0 then Inl ReserveNotSeeded
      else if amountIn \<le> 0 then Inl AmountInNotPositive
      else Inr ((amountIn * totalSupply) sdiv balance))"

record direct_mint =
  dm_reserveTokenProgram :: "pubkey option"
  dm_programId :: pubkey
  dm_protocolConfig :: pubkey
  dm_protocolFeeDestination :: pubkey
  dm_reserve :: pubkey
  dm_reserveTokenMint :: pubkey
  dm_mintAuthority :: pubkey
  dm_user :: pubkey
  dm_assets :: "zap_leg list"
  dm_reserveTokenSupplyRaw :: int

record direct_result =
  dr_instructions :: "tx_ix list"
  dr_reserveTokensRequested :: int
  dr_assetAmountRaw :: int
  dr_requiredAmountsRaw :: "int list"

text \<open>The named accounts of \<open>mintReserveTokensInKind\<close>, the same for both builders.\<close>

definition direct_mint_accounts :: "web3 \<Rightarrow> direct_mint \<Rightarrow> pubkey \<Rightarrow> pubkey \<Rightarrow> (string \<times> pubkey option) list" where
  "direct_mint_accounts w p reserveTokenProgram depositorReserveTokenAta =
     [(''protocolConfig'', Some (dm_protocolConfig p)),
      (''reserve'', Some (dm_reserve p)),
      (''reserveTokenMint'', Some (dm_reserveTokenMint p)),
      (''mintAuthority'', Some (dm_mintAuthority p)),
      (''depositorReserveTokenAccount'', Some depositorReserveTokenAta),
      (''depositor'', Some (dm_user p)),
      (''feeSettlement'', Some (find_pda w (FeeSettlement (dm_reserve p)) (dm_programId p))),
      (''feeVault'', Some (findFeeVaultAta w (dm_reserve p) (dm_reserveTokenMint p) (dm_programId p) reserveTokenProgram)),
      (''feeVaultAuthority'', Some (find_pda w (FeeVaultAuthority (dm_reserve p)) (dm_programId p))),
      (''tvlAccrual'', Some (find_pda w (TvlAccrual (dm_reserve p)) (dm_programId p))),
      (''tokenProgram'', Some reserveTokenProgram),
      (''associatedTokenProgram'', Some (ASSOCIATED_TOKEN_PROGRAM w)),
      (''systemProgram'', Some (SYSTEM_PROGRAM_ID w))]"

definition buildDirectMintInstructions ::
  "web3 \<Rightarrow> (build_error + pubkey) \<Rightarrow> direct_mint \<Rightarrow> int \<Rightarrow> build_error + direct_result" where
  "buildDirectMintInstructions w resolved p amountIn =
     rbind (reserve_token_program (dm_reserveTokenProgram p) resolved) (\<lambda>reserveTokenProgram.
     rbind (requireSingleAssetReserve (dm_assets p)) (\<lambda>asset.
     rbind (computeDirectReserveTokensRequested amountIn (zl_vaultBalanceRaw asset) (dm_reserveTokenSupplyRaw p)) (\<lambda>requested.
     rbind (assetAta w (dm_reserveTokenMint p) (dm_user p) reserveTokenProgram False) (\<lambda>depositorAta.
       let mint = ofBase58 w (zl_mint asset); legTokenProgram = leg_program w asset in
     rbind (assetAta w mint (dm_user p) legTokenProgram False) (\<lambda>userAssetAta.
       Inr \<lparr>dr_instructions =
              [CreateAtaIdempotent (dm_user p) depositorAta (dm_user p) (dm_reserveTokenMint p) reserveTokenProgram,
               CreateAtaIdempotent (dm_user p) userAssetAta (dm_user p) mint legTokenProgram,
               ProgramCall \<lparr>call_program = dm_programId p, call_method = ''mintReserveTokensInKind'',
                 call_args = [BigArg requested, BigArg 1, bn_list [amountIn]],
                 call_accounts = direct_mint_accounts w p reserveTokenProgram depositorAta,
                 call_remaining = leg_metas w asset userAssetAta legTokenProgram\<rparr>],
            dr_reserveTokensRequested = requested, dr_assetAmountRaw = amountIn,
            dr_requiredAmountsRaw = []\<rparr>)))))"

definition buildDirectMultiAssetMintInstructions ::
  "web3 \<Rightarrow> (build_error + pubkey) \<Rightarrow> direct_mint \<Rightarrow> int \<Rightarrow> number option \<Rightarrow> int option \<Rightarrow> build_error + direct_result" where
  "buildDirectMultiAssetMintInstructions w resolved p reserveTokensRequested slippage minReserveTokensOut =
     rbind (reserve_token_program (dm_reserveTokenProgram p) resolved) (\<lambda>reserveTokenProgram.
     if length (dm_assets p) < 1 then Inl NoRegisteredAsset else
     rbind (calc (computeMintRequirements reserveTokensRequested (dm_reserveTokenSupplyRaw p)
        (leg_balances (dm_assets p)))) (\<lambda>requirements.
     rbind (slippage_bps slippage) (\<lambda>slippageBps.
     rbind (max_asset_amounts slippageBps requirements) (\<lambda>maxAssetAmounts.
     rbind (assetAta w (dm_reserveTokenMint p) (dm_user p) reserveTokenProgram False) (\<lambda>depositorAta.
     rbind (user_leg_accounts w (dm_user p) (dm_assets p)) (\<lambda>(creates, metas).
       Inr \<lparr>dr_instructions =
              CreateAtaIdempotent (dm_user p) depositorAta (dm_user p) (dm_reserveTokenMint p) reserveTokenProgram
              # creates @
              [ProgramCall \<lparr>call_program = dm_programId p, call_method = ''mintReserveTokensInKind'',
                 call_args = [BigArg reserveTokensRequested,
                   BigArg (case minReserveTokensOut of Some m \<Rightarrow> m | None \<Rightarrow> 1), bn_list maxAssetAmounts],
                 call_accounts = direct_mint_accounts w p reserveTokenProgram depositorAta,
                 call_remaining = metas\<rparr>],
            dr_reserveTokensRequested = reserveTokensRequested,
            dr_assetAmountRaw = foldl (\<lambda>acc r. acc + requiredAmount r) 0 requirements,
            dr_requiredAmountsRaw = map requiredAmount requirements\<rparr>))))))"

section \<open>Redemptions\<close>

record direct_redeem =
  rd_reserveTokenProgram :: "pubkey option"
  rd_programId :: pubkey
  rd_reserve :: pubkey
  rd_reserveTokenMint :: pubkey
  rd_vaultAuthority :: pubkey
  rd_user :: pubkey
  rd_assets :: "zap_leg list"
  rd_reserveTokenSupplyRaw :: int
  rd_redemptionFeeBps :: int
  rd_reserveTokensToRedeem :: int

text \<open>
  A redemption's result; the single-asset builder's \<open>assetAmountRaw\<close> is the one element of
  the entitlements.
\<close>

record redeem_result =
  rr_instructions :: "tx_ix list"
  rr_reserveTokensToRedeem :: int
  rr_entitlementsRaw :: "int list"

definition redeemFeeVaultAccounts :: "web3 \<Rightarrow> direct_redeem \<Rightarrow> pubkey \<Rightarrow> (string \<times> pubkey option) list" where
  "redeemFeeVaultAccounts w p reserveTokenProgram =
     [(''mintAuthority'', Some (find_pda w (MintAuthority (rd_reserve p)) (rd_programId p))),
      (''feeSettlement'', Some (find_pda w (FeeSettlement (rd_reserve p)) (rd_programId p))),
      (''feeVault'', Some (findFeeVaultAta w (rd_reserve p) (rd_reserveTokenMint p) (rd_programId p) reserveTokenProgram)),
      (''feeVaultAuthority'', Some (find_pda w (FeeVaultAuthority (rd_reserve p)) (rd_programId p)))]"

definition direct_redeem_accounts :: "web3 \<Rightarrow> direct_redeem \<Rightarrow> pubkey \<Rightarrow> pubkey \<Rightarrow> (string \<times> pubkey option) list" where
  \<comment> \<open>the program id is Anchor's encoding of an absent optional account\<close>
  "direct_redeem_accounts w p reserveTokenProgram redeemerAta =
     [(''reserve'', Some (rd_reserve p)),
      (''reserveTokenMint'', Some (rd_reserveTokenMint p)),
      (''vaultAuthority'', Some (rd_vaultAuthority p)),
      (''redeemerReserveTokenAccount'', Some redeemerAta),
      (''redeemer'', Some (rd_user p)),
      (''managerFeeRecipients'', Some (rd_programId p)),
      (''tvlAccrual'', Some (find_pda w (TvlAccrual (rd_reserve p)) (rd_programId p)))] @
     redeemFeeVaultAccounts w p reserveTokenProgram @
     [(''tokenProgram'', Some reserveTokenProgram),
      (''associatedTokenProgram'', Some (ASSOCIATED_TOKEN_PROGRAM w)),
      (''systemProgram'', Some (SYSTEM_PROGRAM_ID w))]"

definition buildDirectRedeemInstructions ::
  "web3 \<Rightarrow> (build_error + pubkey) \<Rightarrow> direct_redeem \<Rightarrow> build_error + redeem_result" where
  "buildDirectRedeemInstructions w resolved p =
     rbind (reserve_token_program (rd_reserveTokenProgram p) resolved) (\<lambda>reserveTokenProgram.
     rbind (requireSingleAssetReserve (rd_assets p)) (\<lambda>asset.
       let mint = ofBase58 w (zl_mint asset);
           feeShares = (rd_reserveTokensToRedeem p * rd_redemptionFeeBps p + 9999) sdiv 10000;
           netShares = rd_reserveTokensToRedeem p - feeShares in
       if netShares \<le> 0 then Inl FeeConsumesRedemption
       else if rd_reserveTokenSupplyRaw p = 0 then Inl DivideByZero else
       let paid = (netShares * zl_vaultBalanceRaw asset) sdiv rd_reserveTokenSupplyRaw p;
           legTokenProgram = leg_program w asset in
     rbind (assetAta w (rd_reserveTokenMint p) (rd_user p) reserveTokenProgram False) (\<lambda>redeemerAta.
     rbind (assetAta w mint (rd_user p) legTokenProgram False) (\<lambda>userAssetAta.
       Inr \<lparr>rr_instructions =
              [CreateAtaIdempotent (rd_user p) userAssetAta (rd_user p) mint legTokenProgram,
               ProgramCall \<lparr>call_program = rd_programId p, call_method = ''redeemReserveTokensInKind'',
                 call_args = [BigArg (rd_reserveTokensToRedeem p), bn_list [0]],
                 call_accounts = direct_redeem_accounts w p reserveTokenProgram redeemerAta,
                 call_remaining = leg_metas w asset userAssetAta legTokenProgram\<rparr>],
            rr_reserveTokensToRedeem = rd_reserveTokensToRedeem p, rr_entitlementsRaw = [paid]\<rparr>))))"

definition buildDirectMultiAssetRedeemInstructions ::
  "web3 \<Rightarrow> (build_error + pubkey) \<Rightarrow> direct_redeem \<Rightarrow> build_error + redeem_result" where
  "buildDirectMultiAssetRedeemInstructions w resolved p =
     rbind (reserve_token_program (rd_reserveTokenProgram p) resolved) (\<lambda>reserveTokenProgram.
     if length (rd_assets p) < 1 then Inl NoRegisteredAsset else
     rbind (calc (computeRedemptionEntitlements (rd_reserveTokensToRedeem p) (rd_redemptionFeeBps p)
        (rd_reserveTokenSupplyRaw p) (leg_balances (rd_assets p)))) (\<lambda>entitlements.
     rbind (assetAta w (rd_reserveTokenMint p) (rd_user p) reserveTokenProgram False) (\<lambda>redeemerAta.
     rbind (user_leg_accounts w (rd_user p) (rd_assets p)) (\<lambda>(creates, metas).
       Inr \<lparr>rr_instructions = creates @
              [ProgramCall \<lparr>call_program = rd_programId p, call_method = ''redeemReserveTokensInKind'',
                 call_args = [BigArg (rd_reserveTokensToRedeem p), bn_list (map (\<lambda>_. 0) entitlements)],
                 call_accounts = direct_redeem_accounts w p reserveTokenProgram redeemerAta,
                 call_remaining = metas\<rparr>],
            rr_reserveTokensToRedeem = rd_reserveTokensToRedeem p,
            rr_entitlementsRaw = map entitlement entitlements\<rparr>))))"

section \<open>The mint fee in USDC\<close>

record valued_leg =
  vl_amountRaw :: int
  vl_decimals :: nat
  vl_priceUsd :: "number option"

definition usable_leg_price :: "number option \<Rightarrow> bool" where
  "usable_leg_price p = (case p of None \<Rightarrow> False | Some x \<Rightarrow> isFinite x \<and> \<not> num_le x (Fin 0))"

fun value_loop :: "int \<Rightarrow> valued_leg list \<Rightarrow> build_error + int" where
  "value_loop acc [] = Inr acc"
| "value_loop acc (leg # legs) =
     (if vl_amountRaw leg = 0 then value_loop acc legs
      else if \<not> usable_leg_price (vl_priceUsd leg) then Inl NoCurrentPrice
      else case to_bigint (num_round (num_mul (the (vl_priceUsd leg)) (Fin 1000000))) of
          None \<Rightarrow> Inl NotAnInteger
        | Some microUsdPerToken \<Rightarrow>
            value_loop (acc + (vl_amountRaw leg * microUsdPerToken) sdiv 10 ^ vl_decimals leg) legs)"

definition valueAssetAmountsUsdcRaw :: "valued_leg list \<Rightarrow> build_error + int" where
  "valueAssetAmountsUsdcRaw legs = value_loop 0 legs"

definition effectiveMintFeeFraction :: "int \<Rightarrow> number" where
  "effectiveMintFeeFraction configuredMintFeeBps =
     num_div (num_of_int (effectiveTotalBps (computeEffectiveFeeSplit configuredMintFeeBps PROTOCOL_MIN_MINT_FEE_BPS)))
       (Fin 10000)"

record fee_routing =
  fr_protocolFeeDestination :: pubkey
  fr_managerRecipients :: "key_ref list"
  fr_legacyManagerDestination :: "pubkey option"

definition manager_usdc_atas :: "web3 \<Rightarrow> pubkey \<Rightarrow> fee_routing \<Rightarrow> build_error + pubkey list" where
  "manager_usdc_atas w usdcMint routing =
     (if fr_managerRecipients routing \<noteq> [] then
        Inr (map (\<lambda>r. associatedTokenAddress w usdcMint (key_of w r) (TOKEN_PROGRAM_ID w)) (fr_managerRecipients routing))
      else case fr_legacyManagerDestination routing of
          None \<Rightarrow> Inl LegacyDestinationRequired
        | Some d \<Rightarrow> Inr [associatedTokenAddress w usdcMint d (TOKEN_PROGRAM_ID w)])"

definition usdcFeeAccounts ::
  "web3 \<Rightarrow> pubkey \<Rightarrow> pubkey \<Rightarrow> pubkey \<Rightarrow> pubkey \<Rightarrow> fee_routing \<Rightarrow> build_error + (string \<times> pubkey option) list \<times> pubkey list" where
  "usdcFeeAccounts w pid reserve usdcMint feeQuoteSigner routing =
     rbind (manager_usdc_atas w usdcMint routing) (\<lambda>atas.
       Inr ([(''settlementKeeperConfig'', Some (find_pda w SettlementKeeperConfig pid)),
             (''feeQuoteSigner'', Some feeQuoteSigner),
             (''usdcMint'', Some usdcMint),
             (''protocolUsdcDestination'', Some (associatedTokenAddress w usdcMint (fr_protocolFeeDestination routing) (TOKEN_PROGRAM_ID w))),
             (''protocolFeeDestination'', Some (fr_protocolFeeDestination routing)),
             (''managerFeeRecipients'', Some (find_pda w (ManagerFeeRecipients reserve) pid)),
             (''usdcTokenProgram'', Some (TOKEN_PROGRAM_ID w))], atas))"

definition fee_owners :: "web3 \<Rightarrow> fee_routing \<Rightarrow> pubkey list" where
  "fee_owners w routing = fr_protocolFeeDestination routing #
     (if fr_managerRecipients routing \<noteq> [] then map (key_of w) (fr_managerRecipients routing)
      else case fr_legacyManagerDestination routing of Some d \<Rightarrow> [d] | None \<Rightarrow> [])"

fun ata_creations :: "web3 \<Rightarrow> pubkey \<Rightarrow> pubkey \<Rightarrow> string list \<Rightarrow> pubkey list \<Rightarrow> tx_ix list" where
  "ata_creations w payer usdcMint seen [] = []"
| "ata_creations w payer usdcMint seen (owner # owners) =
     (let ata = associatedTokenAddress w usdcMint owner (TOKEN_PROGRAM_ID w) in
      if toBase58 w ata \<in> set seen then ata_creations w payer usdcMint seen owners
      else CreateAtaIdempotent payer ata owner usdcMint (TOKEN_PROGRAM_ID w)
        # ata_creations w payer usdcMint (toBase58 w ata # seen) owners)"

definition buildUsdcFeeDestinationAtaInstructions :: "web3 \<Rightarrow> pubkey \<Rightarrow> pubkey \<Rightarrow> fee_routing \<Rightarrow> tx_ix list" where
  "buildUsdcFeeDestinationAtaInstructions w payer usdcMint routing =
     ata_creations w payer usdcMint [] (fee_owners w routing)"

text \<open>The fields the two fee-in-USDC builders add to those of a direct mint.\<close>

record usdc_fee =
  uf_usdcFeeRaw :: int
  uf_usdcMint :: pubkey
  uf_feeQuoteSigner :: pubkey
  uf_routing :: fee_routing
  uf_usdcAccount :: "pubkey option"

record fee_mint_result =
  fm_instructions :: "tx_ix list"
  fm_reserveTokensRequested :: int
  fm_requiredAmountsRaw :: "int list"
  fm_expectedReserveTokensOut :: int

definition usdc_account :: "web3 \<Rightarrow> usdc_fee \<Rightarrow> pubkey \<Rightarrow> pubkey" where
  "usdc_account w f owner = (case uf_usdcAccount f of Some a \<Rightarrow> a
     | None \<Rightarrow> associatedTokenAddress w (uf_usdcMint f) owner (TOKEN_PROGRAM_ID w))"

definition buildMintWithUsdcFeeInstructions ::
  "web3 \<Rightarrow> (build_error + pubkey) \<Rightarrow> direct_mint \<Rightarrow> int \<Rightarrow> number option \<Rightarrow> usdc_fee \<Rightarrow> build_error + fee_mint_result" where
  "buildMintWithUsdcFeeInstructions w resolved p reserveTokensRequested slippage f =
     (if length (dm_assets p) < 1 then Inl NoRegisteredAsset else
     rbind (reserve_token_program (dm_reserveTokenProgram p) resolved) (\<lambda>reserveTokenProgram.
     rbind (calc (computeMintRequirements reserveTokensRequested (dm_reserveTokenSupplyRaw p)
        (leg_balances (dm_assets p)))) (\<lambda>requirements.
     rbind (slippage_bps slippage) (\<lambda>slippageBps.
     rbind (max_asset_amounts slippageBps requirements) (\<lambda>maxAssetAmounts.
     rbind (assetAta w (dm_reserveTokenMint p) (dm_user p) reserveTokenProgram False) (\<lambda>depositorAta.
     rbind (user_leg_accounts w (dm_user p) (dm_assets p)) (\<lambda>(creates, metas).
     rbind (usdcFeeAccounts w (dm_programId p) (dm_reserve p) (uf_usdcMint f) (uf_feeQuoteSigner f) (uf_routing f))
        (\<lambda>(feeAccounts, managerAtas).
       Inr \<lparr>fm_instructions =
              CreateAtaIdempotent (dm_user p) depositorAta (dm_user p) (dm_reserveTokenMint p) reserveTokenProgram
              # creates @
              [ProgramCall \<lparr>call_program = dm_programId p, call_method = ''mintReserveTokensInKindUsdcFee'',
                 call_args = [BigArg reserveTokensRequested, BigArg reserveTokensRequested,
                   bn_list maxAssetAmounts, BigArg (uf_usdcFeeRaw f)],
                 call_accounts =
                   [(''protocolConfig'', Some (dm_protocolConfig p)),
                    (''reserve'', Some (dm_reserve p)),
                    (''reserveTokenMint'', Some (dm_reserveTokenMint p)),
                    (''mintAuthority'', Some (dm_mintAuthority p)),
                    (''depositorReserveTokenAccount'', Some depositorAta),
                    (''depositor'', Some (dm_user p)),
                    (''tvlAccrual'', Some (find_pda w (TvlAccrual (dm_reserve p)) (dm_programId p)))] @
                   feeAccounts @
                   [(''depositorUsdcAccount'', Some (usdc_account w f (dm_user p))),
                    (''tokenProgram'', Some reserveTokenProgram),
                    (''associatedTokenProgram'', Some (ASSOCIATED_TOKEN_PROGRAM w)),
                    (''systemProgram'', Some (SYSTEM_PROGRAM_ID w))],
                 call_remaining = metas @ map (\<lambda>ata. meta ata True False) managerAtas\<rparr>],
            fm_reserveTokensRequested = reserveTokensRequested,
            fm_requiredAmountsRaw = map requiredAmount requirements,
            fm_expectedReserveTokensOut = reserveTokensRequested\<rparr>))))))))"

section \<open>Properties\<close>

lemma direct_requirement_covered:
  assumes "0 < V" "0 < S" "0 < (a::int)"
  shows "(a * S div V * V + S - 1) div S \<le> a" "0 \<le> a * S div V"
    "a * S < (a * S div V + 1) * V"
proof -
  have "a * S div V * V \<le> S * a" using mult_div_le_int [OF assms(1), of "a * S"] by (simp add: mult.commute)
  then show "(a * S div V * V + S - 1) div S \<le> a" using ceil_div_le_iff [OF assms(2)] by blast
  show "0 \<le> a * S div V" using assms by (simp add: pos_imp_zdiv_nonneg_iff)
  show "a * S < (a * S div V + 1) * V" using lt_mult_div_succ [OF assms(1), of "a * S"] by (simp only: mult.commute)
qed

text \<open>
  A direct purchase never costs more than what was asked to be deposited. The Reserve
  Tokens requested are such that the program's own requirement for them is at most the
  deposit, one more token would exceed it, the deposit is passed as the cap, and the only
  instructions are the two account creations of the buyer and the mint.
\<close>

theorem direct_mint_never_overcharges:
  assumes "buildDirectMintInstructions w resolved p amountIn = Inr r"
  shows "\<exists>leg req ix1 ix2 c. dm_assets p = [leg] \<and>
    computeMintRequirements (dr_reserveTokensRequested r) (dm_reserveTokenSupplyRaw p) (leg_balances [leg]) = Inr [req] \<and>
    requiredAmount req \<le> amountIn \<and>
    amountIn * dm_reserveTokenSupplyRaw p < (dr_reserveTokensRequested r + 1) * zl_vaultBalanceRaw leg \<and>
    dr_instructions r = [ix1, ix2, ProgramCall c] \<and> ata_payer ix1 = dm_user p \<and> ata_payer ix2 = dm_user p \<and>
    call_args c = [BigArg (dr_reserveTokensRequested r), BigArg 1, bn_list [amountIn]] \<and>
    filter isSigner (call_remaining c) = [] \<and> account_named c ''depositor'' = Some (dm_user p)"
proof -
  from assms obtain leg where leg: "dm_assets p = [leg]"
    by (auto simp: buildDirectMintInstructions_def res_iff Let_def requireSingleAssetReserve_def
        length_Suc_conv split: if_splits)
  define V S where "V = zl_vaultBalanceRaw leg" and "S = dm_reserveTokenSupplyRaw p"
  from assms leg have pos: "0 < V" "0 < S" "0 < amountIn"
    by (auto simp: buildDirectMintInstructions_def res_iff Let_def requireSingleAssetReserve_def
        computeDirectReserveTokensRequested_def V_def S_def split: if_splits)
  have q: "(amountIn * S) sdiv V = amountIn * S div V" using pos by (intro sdiv_nonneg_eq) simp_all
  have req: "dr_reserveTokensRequested r = amountIn * S div V"
    using assms leg pos q by (auto simp: buildDirectMintInstructions_def res_iff Let_def
        requireSingleAssetReserve_def computeDirectReserveTokensRequested_def V_def S_def)
  note b = direct_requirement_covered [OF pos]
  have "computeMintRequirements (amountIn * S div V) S (leg_balances [leg]) =
      Inr [\<lparr>mr_mint = zl_mint leg, requiredAmount = (amountIn * S div V * V + S - 1) div S\<rparr>]"
    using pos mult_nonneg_nonneg [OF b(2), of V]
    by (simp add: computeMintRequirements_def leg_balances_def mulDivCeil_def V_def [symmetric] sdiv_nonneg_eq)
  with assms leg b req show ?thesis
    by (auto simp: buildDirectMintInstructions_def res_iff Let_def requireSingleAssetReserve_def
        direct_mint_accounts_def account_named_def V_def [symmetric] S_def [symmetric])
qed

text \<open>A wallet, a Reserve with one asset: 30 units back 10 Reserve Tokens.\<close>

definition plain_web3 :: web3 where
  "plain_web3 = \<lparr>findProgramAddressSync = (\<lambda>seeds pid. concat seeds @ pid),
     toBase58 = (\<lambda>k. map (\<lambda>b. char_of (unat b)) k), ofBase58 = (\<lambda>s. map of_char s),
     associatedTokenAddress = (\<lambda>m u t. m @ u @ t), isOnCurve = (\<lambda>k. k = [1])\<rparr>"

definition demo_leg :: zap_leg where
  "demo_leg = \<lparr>zl_mint = ''A'', zl_decimals = 6, zl_reserveAsset = ''R'', zl_vault = ''V'',
     zl_vaultBalanceRaw = 30, zl_tokenProgram = None\<rparr>"

definition demo_mint_params :: "zap_leg list \<Rightarrow> direct_mint" where
  "demo_mint_params legs = \<lparr>dm_reserveTokenProgram = Some [2], dm_programId = [3], dm_protocolConfig = [4],
     dm_protocolFeeDestination = [5], dm_reserve = [6], dm_reserveTokenMint = [7], dm_mintAuthority = [8],
     dm_user = [1], dm_assets = legs, dm_reserveTokenSupplyRaw = 10\<rparr>"

theorem direct_mint_never_overcharges_witness:
  "\<exists>r. buildDirectMintInstructions plain_web3 (Inl ReadFailed) (demo_mint_params [demo_leg]) 100 = Inr r \<and>
     (\<exists>leg req. computeMintRequirements (dr_reserveTokensRequested r) 10 (leg_balances [leg]) = Inr [req] \<and>
        requiredAmount req \<le> 100)"
proof -
  have "\<exists>r. buildDirectMintInstructions plain_web3 (Inl ReadFailed) (demo_mint_params [demo_leg]) 100 = Inr r"
    by (simp add: buildDirectMintInstructions_def reserve_token_program_def demo_mint_params_def
        requireSingleAssetReserve_def computeDirectReserveTokensRequested_def demo_leg_def Let_def
        assetAta_def associated_address_def plain_web3_def)
  then obtain r where r: "buildDirectMintInstructions plain_web3 (Inl ReadFailed) (demo_mint_params [demo_leg]) 100 = Inr r" ..
  have "dm_reserveTokenSupplyRaw (demo_mint_params [demo_leg]) = 10" by (simp add: demo_mint_params_def)
  with direct_mint_never_overcharges [OF r] r show ?thesis by metis
qed

lemma requirements_nonneg:
  assumes "computeMintRequirements s S bals = Inr reqs" "0 \<le> s" "nonneg_balances bals"
  shows "\<forall>r \<in> set reqs. 0 \<le> requiredAmount r"
proof -
  have S: "0 < S" using assms(1) by (auto simp: computeMintRequirements_def split: if_splits)
  show ?thesis
    using assms computeMintRequirements_eq [OF S assms(2,3)]
    by (auto simp: ceil_requirement_def nonneg_balances_def intro!: ceil_div_nonneg [OF S])
qed

text \<open>
  The mint of a basket asks for exactly the Reserve Tokens it was told, with one cap
  per leg in the order of the legs: never below the program's requirement for that leg and
  never more than the buffer above it, rounded up. Every leg gets its five accounts in that
  order, derived under its own token program, and no remaining account signs. The same holds
  of the mint whose fee is paid in USDC, which also refuses to receive less than requested.
\<close>

theorem basket_mint_caps:
  assumes "buildDirectMultiAssetMintInstructions w resolved p s slippage minOut = Inr r"
    and "slippage_bps slippage = Inr b" "0 \<le> b" "0 \<le> s" "nonneg_balances (leg_balances (dm_assets p))"
  shows "\<exists>reqs caps c. computeMintRequirements s (dm_reserveTokenSupplyRaw p) (leg_balances (dm_assets p)) = Inr reqs \<and>
    dr_requiredAmountsRaw r = map requiredAmount reqs \<and> last (dr_instructions r) = ProgramCall c \<and>
    call_args c = [BigArg s, BigArg (case minOut of Some m \<Rightarrow> m | None \<Rightarrow> 1), bn_list caps] \<and>
    list_all2 (\<lambda>q cap. requiredAmount q \<le> cap \<and> 10000 * (cap - 1) < requiredAmount q * (10000 + b)) reqs caps \<and>
    call_remaining c = concat (map (\<lambda>leg. leg_metas w leg (wallet_ata w (dm_user p) leg) (leg_program w leg)) (dm_assets p)) \<and>
    length (call_remaining c) = 5 * length caps \<and> filter isSigner (call_remaining c) = []"
proof -
  from assms(1,2) obtain reqs caps creates metas c where
    reqs: "computeMintRequirements s (dm_reserveTokenSupplyRaw p) (leg_balances (dm_assets p)) = Inr reqs"
    and caps: "max_asset_amounts b reqs = Inr caps"
    and legs: "user_leg_accounts w (dm_user p) (dm_assets p) = Inr (creates, metas)"
    and r: "dr_requiredAmountsRaw r = map requiredAmount reqs" "last (dr_instructions r) = ProgramCall c"
    and c: "call_args c = [BigArg s, BigArg (case minOut of Some m \<Rightarrow> m | None \<Rightarrow> 1), bn_list caps]"
      "call_remaining c = metas"
    by (auto simp: buildDirectMultiAssetMintInstructions_def res_iff split: if_splits)
  have bounds: "list_all2 (\<lambda>q cap. requiredAmount q \<le> cap \<and> 10000 * (cap - 1) < requiredAmount q * (10000 + b)) reqs caps"
    using max_asset_amounts_Inr [OF caps assms(3) requirements_nonneg [OF reqs assms(4,5)]]
    by (rule list_all2_mono) simp
  have len: "length reqs = length (dm_assets p)"
    using reqs by (auto simp: computeMintRequirements_def leg_balances_def dest: rmap_Inr_length split: if_splits)
  note m = user_leg_accounts_Inr [OF legs, THEN conjunct2]
  then have "length metas = 5 * length (dm_assets p)" by simp
  then have "length metas = 5 * length caps" using len list_all2_lengthD [OF bounds] by simp
  then show ?thesis using reqs r c bounds m
    by (intro exI [of _ reqs] exI [of _ caps] exI [of _ c] conjI) simp_all
qed

theorem basket_mint_caps_witness:
  "\<exists>r c. buildDirectMultiAssetMintInstructions plain_web3 (Inl ReadFailed) (demo_mint_params [demo_leg, demo_leg]) 4
        (Some (Fin 0)) (Some 3) = Inr r \<and> last (dr_instructions r) = ProgramCall c \<and>
     filter isSigner (call_remaining c) = []"
proof -
  let ?p = "demo_mint_params [demo_leg, demo_leg]"
  have slip: "slippage_bps (Some (Fin 0)) = Inr 0" by (simp add: slippage_bps_def floor_eq_iff)
  have "\<exists>r. buildDirectMultiAssetMintInstructions plain_web3 (Inl ReadFailed) ?p 4 (Some (Fin 0)) (Some 3) = Inr r"
    by (simp add: buildDirectMultiAssetMintInstructions_def slip reserve_token_program_def demo_mint_params_def
        demo_leg_def computeMintRequirements_def leg_balances_def calc_def mulDivCeil_def max_asset_amounts_def
        Let_def assetAta_def associated_address_def plain_web3_def leg_program_def)
  then obtain r where r: "buildDirectMultiAssetMintInstructions plain_web3 (Inl ReadFailed) ?p 4 (Some (Fin 0)) (Some 3) = Inr r" ..
  have "nonneg_balances (leg_balances (dm_assets ?p))"
    by (simp add: nonneg_balances_def leg_balances_def demo_mint_params_def demo_leg_def)
  from basket_mint_caps [OF r slip _ _ this] show ?thesis using r by auto
qed

lemma ata_creations_exact:
  assumes "inj (toBase58 w)"
  shows "distinct (map ata_address (ata_creations w payer usdcMint seen owners)) \<and>
    toBase58 w ` set (map ata_address (ata_creations w payer usdcMint seen owners)) =
      toBase58 w ` (\<lambda>o'. associatedTokenAddress w usdcMint o' (TOKEN_PROGRAM_ID w)) ` set owners - set seen"
proof (induction owners arbitrary: seen)
  case (Cons owner owners)
  let ?a = "associatedTokenAddress w usdcMint owner (TOKEN_PROGRAM_ID w)"
  show ?case
  proof (cases "toBase58 w ?a \<in> set seen")
    case True
    then show ?thesis using Cons.IH [of seen] by auto
  next
    case False
    have "?a \<notin> set (map ata_address (ata_creations w payer usdcMint (toBase58 w ?a # seen) owners))"
      using Cons.IH [of "toBase58 w ?a # seen", THEN conjunct2] by (metis Diff_iff image_eqI list.set_intros(1))
    then show ?thesis using Cons.IH [of "toBase58 w ?a # seen"] False by (auto simp: Let_def)
  qed
qed simp

text \<open>
  Every account the USDC fee is paid to exists when the mint runs. The creation
  instructions built for a routing cover exactly the Protocol's and the Managers' USDC
  accounts that the mint passes, each once, all paid by the given wallet, and a routing the
  mint accepts never leaves the Managers' part without a destination.
\<close>

theorem usdc_fee_destinations_created:
  assumes "buildMintWithUsdcFeeInstructions w resolved p s slippage f = Inr r" "inj (toBase58 w)"
  shows "\<exists>c managers protocol. last (fm_instructions r) = ProgramCall c \<and> managers \<noteq> [] \<and>
    drop (5 * length (dm_assets p)) (call_remaining c) = map (\<lambda>a. meta a True False) managers \<and>
    account_named c ''protocolUsdcDestination'' = Some protocol \<and>
    distinct (map ata_address (buildUsdcFeeDestinationAtaInstructions w payer (uf_usdcMint f) (uf_routing f))) \<and>
    set (map ata_address (buildUsdcFeeDestinationAtaInstructions w payer (uf_usdcMint f) (uf_routing f))) =
      insert protocol (set managers) \<and>
    call_args c = [BigArg s, BigArg s, call_args c ! 2, BigArg (uf_usdcFeeRaw f)]"
proof -
  let ?rt = "uf_routing f" and ?at = "\<lambda>o'. associatedTokenAddress w (uf_usdcMint f) o' (TOKEN_PROGRAM_ID w)"
  from assms(1) obtain creates metas atas c where
    legs: "user_leg_accounts w (dm_user p) (dm_assets p) = Inr (creates, metas)"
    and atas: "manager_usdc_atas w (uf_usdcMint f) ?rt = Inr atas"
    and c: "last (fm_instructions r) = ProgramCall c" "call_remaining c = metas @ map (\<lambda>a. meta a True False) atas"
      "account_named c ''protocolUsdcDestination'' = Some (?at (fr_protocolFeeDestination ?rt))"
      "call_args c = [BigArg s, BigArg s, call_args c ! 2, BigArg (uf_usdcFeeRaw f)]"
    by (auto simp: buildMintWithUsdcFeeInstructions_def usdcFeeAccounts_def account_named_def res_iff split: if_splits)
  have managers: "atas \<noteq> []" "?at ` set (fee_owners w ?rt) = insert (?at (fr_protocolFeeDestination ?rt)) (set atas)"
    using atas by (auto simp: manager_usdc_atas_def fee_owners_def split: if_splits option.splits)
  have "set (map ata_address (buildUsdcFeeDestinationAtaInstructions w payer (uf_usdcMint f) ?rt)) =
      ?at ` set (fee_owners w ?rt)"
    using ata_creations_exact [OF assms(2), of payer "uf_usdcMint f" "[]" "fee_owners w ?rt"] assms(2)
    by (simp add: buildUsdcFeeDestinationAtaInstructions_def inj_image_eq_iff)
  moreover have "length metas = 5 * length (dm_assets p)" using user_leg_accounts_Inr [OF legs] by simp
  ultimately show ?thesis
    using c managers ata_creations_exact [OF assms(2), of payer "uf_usdcMint f" "[]" "fee_owners w ?rt"]
    by (intro exI [of _ c] exI [of _ atas] exI [of _ "?at (fr_protocolFeeDestination ?rt)"] conjI)
      (simp_all add: buildUsdcFeeDestinationAtaInstructions_def)
qed

lemma plain_base58_inj: "inj (toBase58 plain_web3)"
proof -
  have "inj (\<lambda>b :: byte. char_of (unat b) :: char)"
  proof (rule injI)
    fix a b :: byte
    assume "(char_of (unat a) :: char) = char_of (unat b)"
    then have "(of_char (char_of (unat a) :: char) :: nat) = of_char (char_of (unat b) :: char)" by simp
    moreover have "unat a < 256" "unat b < 256" using unsigned_less [of a] unsigned_less [of b] by simp_all
    ultimately have "unat a = unat b" by simp
    then show "a = b" by (simp add: unsigned_word_eqI)
  qed
  then show ?thesis by (simp add: plain_web3_def inj_mapI)
qed

definition demo_fee :: usdc_fee where
  "demo_fee = \<lparr>uf_usdcFeeRaw = 5, uf_usdcMint = [9], uf_feeQuoteSigner = [10],
     uf_routing = \<lparr>fr_protocolFeeDestination = [11], fr_managerRecipients = [Key [12], Key [11]],
       fr_legacyManagerDestination = None\<rparr>, uf_usdcAccount = None\<rparr>"

theorem usdc_fee_destinations_created_witness:
  "\<exists>r. buildMintWithUsdcFeeInstructions plain_web3 (Inl ReadFailed) (demo_mint_params [demo_leg]) 4 (Some (Fin 0)) demo_fee = Inr r \<and>
     distinct (map ata_address (buildUsdcFeeDestinationAtaInstructions plain_web3 [1] [9] (uf_routing demo_fee)))"
proof -
  let ?p = "demo_mint_params [demo_leg]"
  have slip: "slippage_bps (Some (Fin 0)) = Inr 0" by (simp add: slippage_bps_def floor_eq_iff)
  have "\<exists>r. buildMintWithUsdcFeeInstructions plain_web3 (Inl ReadFailed) ?p 4 (Some (Fin 0)) demo_fee = Inr r"
    by (simp add: buildMintWithUsdcFeeInstructions_def slip reserve_token_program_def demo_mint_params_def
        demo_leg_def computeMintRequirements_def leg_balances_def calc_def mulDivCeil_def max_asset_amounts_def
        Let_def assetAta_def associated_address_def plain_web3_def leg_program_def usdcFeeAccounts_def
        manager_usdc_atas_def demo_fee_def)
  then obtain r where r: "buildMintWithUsdcFeeInstructions plain_web3 (Inl ReadFailed) ?p 4 (Some (Fin 0)) demo_fee = Inr r" ..
  have "uf_usdcMint demo_fee = [9]" by (simp add: demo_fee_def)
  with usdc_fee_destinations_created [OF r plain_base58_inj, of "[1]"] r show ?thesis by auto
qed

definition demo_redeem :: direct_redeem where
  "demo_redeem = \<lparr>rd_reserveTokenProgram = None, rd_programId = [3], rd_reserve = [6], rd_reserveTokenMint = [7],
     rd_vaultAuthority = [8], rd_user = [1], rd_assets = [demo_leg], rd_reserveTokenSupplyRaw = 10,
     rd_redemptionFeeBps = 50, rd_reserveTokensToRedeem = 5\<rparr>"

text \<open>
  The single-asset redemption is the basket redemption of one leg: for a Reserve with
  one asset and a positive supply the two builders return the same instructions and the same
  amounts on the same inputs, although one spells its arithmetic out.
\<close>

theorem single_redeem_refines_basket:
  assumes "length (rd_assets p) = 1" "0 < rd_reserveTokenSupplyRaw p"
  shows "buildDirectRedeemInstructions w resolved p = Inr r \<longleftrightarrow>
    buildDirectMultiAssetRedeemInstructions w resolved p = Inr r"
proof -
  from assms(1) obtain leg where leg: "rd_assets p = [leg]" by (auto simp: length_Suc_conv)
  have fee: "rd_reserveTokensToRedeem p * rd_redemptionFeeBps p + 9999 =
      9999 + rd_reserveTokensToRedeem p * rd_redemptionFeeBps p" by simp
  show ?thesis
    using leg assms(2)
    by (auto simp: buildDirectRedeemInstructions_def buildDirectMultiAssetRedeemInstructions_def
        requireSingleAssetReserve_def computeRedemptionEntitlements_def mulDivCeil_def mulDivFloor_def
        BPS_DENOMINATOR_def leg_balances_def Let_def res_iff fee split: if_splits)
qed

theorem single_redeem_refines_basket_witness:
  "\<exists>r. buildDirectMultiAssetRedeemInstructions plain_web3 (Inr [2]) demo_redeem = Inr r \<and> rr_entitlementsRaw r = [12]"
proof -
  have "\<exists>r. buildDirectRedeemInstructions plain_web3 (Inr [2]) demo_redeem = Inr r \<and> rr_entitlementsRaw r = [12]"
    by (simp add: buildDirectRedeemInstructions_def reserve_token_program_def demo_redeem_def demo_leg_def
        requireSingleAssetReserve_def Let_def assetAta_def associated_address_def plain_web3_def leg_program_def
        signed_divide_int_def)
  moreover have "length (rd_assets demo_redeem) = 1" "0 < rd_reserveTokenSupplyRaw demo_redeem"
    by (simp_all add: demo_redeem_def)
  ultimately show ?thesis using single_redeem_refines_basket by blast
qed

end
