(* ===== verification/Zap.thy ===== *)
theory Zap
  imports Direct_Trades
begin

text \<open>
  The DevNet purchase and sale transactions of \<open>packages/sdk/src/zapInstructions.ts\<close> with
  the fixed prices of \<open>zapPricing.ts\<close>: one atomic transaction signed by the user and by
  the test swap authority that stands in for a market. The two settlements (SOL, devUSDC)
  have the same loops; \<open>own\<close> is the mint the user pays from their own balance, which is
  absent when settling in SOL.
\<close>

section \<open>Prices\<close>

definition WRAPPED_SOL_MINT :: "web3 \<Rightarrow> pubkey" where
  "WRAPPED_SOL_MINT w = ofBase58 w ''So11111111111111111111111111111111111111112''"

definition SOL_TEST_PRICE_USD :: number where "SOL_TEST_PRICE_USD = Fin 20"

definition isWrappedSol :: "web3 \<Rightarrow> pubkey \<Rightarrow> bool" where
  "isWrappedSol w mint \<longleftrightarrow> mint = WRAPPED_SOL_MINT w"

definition displayAssetIdentity :: "web3 \<Rightarrow> string \<Rightarrow> string \<Rightarrow> string option \<Rightarrow> string \<times> string" where
  "displayAssetIdentity w mint symbol name =
     (if mint = toBase58 w (WRAPPED_SOL_MINT w) then (''SOL'', ''Solana'')
      else (symbol, case name of Some (c # cs) \<Rightarrow> c # cs | _ \<Rightarrow> symbol))"

definition solLamportsToUsd :: "int \<Rightarrow> number" where
  "solLamportsToUsd lamports = num_mul (num_div (num_of_int lamports) (Fin 1000000000)) SOL_TEST_PRICE_USD"

definition bigint_of :: "number \<Rightarrow> build_error + int" where
  \<comment> \<open>\<open>BigInt(x)\<close>\<close>
  "bigint_of x = (case to_bigint x of Some i \<Rightarrow> Inr i | None \<Rightarrow> Inl NotAnInteger)"

definition usdToSolLamports :: "number \<Rightarrow> build_error + int" where
  "usdToSolLamports usd = bigint_of (num_floor (num_mul (num_div usd SOL_TEST_PRICE_USD) (Fin 1000000000)))"

type_synonym prices = "(string \<times> number) list"

definition price_of :: "prices \<Rightarrow> string \<Rightarrow> number" where
  "price_of ps mint = (case dget ps mint of Some x \<Rightarrow> x | None \<Rightarrow> Fin 0)"

definition raw_usd :: "prices \<Rightarrow> zap_leg \<Rightarrow> int \<Rightarrow> number" where
  \<comment> \<open>\<open>(Number(raw) / 10 ** decimals) * price\<close>\<close>
  "raw_usd ps leg raw = num_mul (num_div (num_of_int raw) (pow10 (zl_decimals leg))) (price_of ps (zl_mint leg))"

definition tokens_for_usd :: "number \<Rightarrow> int \<Rightarrow> zap_leg list \<Rightarrow> prices \<Rightarrow> build_error + int" where
  "tokens_for_usd usdIn reserveTokenSupplyRaw assets ps =
     (let aumUsd = foldl (\<lambda>acc a. num_add acc (raw_usd ps a (zl_vaultBalanceRaw a))) (Fin 0) assets;
          supply = num_div (num_of_int reserveTokenSupplyRaw) (pow10 6);
          nav = (if num_less (Fin 0) supply then num_div aumUsd supply else Fin 1)
      in bigint_of (num_max (Fin 1) (num_floor (num_mul (num_div usdIn nav) (pow10 6)))))"

definition solToReserveTokensRequested :: "int \<Rightarrow> int \<Rightarrow> zap_leg list \<Rightarrow> prices \<Rightarrow> build_error + int" where
  "solToReserveTokensRequested solLamports supplyRaw assets ps =
     tokens_for_usd (solLamportsToUsd solLamports) supplyRaw assets ps"

definition devUsdcToReserveTokensRequested :: "int \<Rightarrow> nat \<Rightarrow> int \<Rightarrow> zap_leg list \<Rightarrow> prices \<Rightarrow> build_error + int" where
  "devUsdcToReserveTokensRequested devUsdcAmountRaw devUsdcDecimals supplyRaw assets ps =
     tokens_for_usd (num_div (num_of_int devUsdcAmountRaw) (pow10 devUsdcDecimals)) supplyRaw assets ps"

section \<open>Buying\<close>

datatype leg_source = User_devusdc_balance | Devnet_test_asset_faucet

definition classic_ata :: "web3 \<Rightarrow> pubkey \<Rightarrow> pubkey \<Rightarrow> build_error + pubkey" where
  \<comment> \<open>\<open>getAssociatedTokenAddressSync(mint, owner)\<close>\<close>
  "classic_ata w mint owner = assetAta w mint owner (TOKEN_PROGRAM_ID w) False"

definition classic_metas :: "web3 \<Rightarrow> zap_leg \<Rightarrow> pubkey \<Rightarrow> account_meta list" where
  "classic_metas w leg ata = leg_metas w leg ata (TOKEN_PROGRAM_ID w)"

definition fund_leg :: "web3 \<Rightarrow> pubkey option \<Rightarrow> pubkey \<Rightarrow> pubkey \<Rightarrow> pubkey \<Rightarrow> int \<Rightarrow> build_error + tx_ix list \<times> leg_source" where
  "fund_leg w own mint userAta swapAuthority required =
     (if own = Some mint then Inr ([], User_devusdc_balance)
      else if isWrappedSol w mint then
        rbind (classic_ata w mint swapAuthority) (\<lambda>wsol.
          Inr ([CreateAtaIdempotent swapAuthority wsol swapAuthority mint (TOKEN_PROGRAM_ID w),
                SolTransfer swapAuthority wsol required, SyncNative wsol,
                TokenTransfer wsol userAta swapAuthority required], Devnet_test_asset_faucet))
      else Inr ([MintTo mint userAta swapAuthority required], Devnet_test_asset_faucet))"

fun buy_legs :: "web3 \<Rightarrow> pubkey option \<Rightarrow> pubkey \<Rightarrow> pubkey \<Rightarrow> (zap_leg \<times> mint_requirement) list \<Rightarrow>
    build_error + tx_ix list \<times> account_meta list \<times> leg_source list" where
  "buy_legs w own user swapAuthority [] = Inr ([], [], [])"
| "buy_legs w own user swapAuthority ((leg, req) # legs) =
     (let mint = ofBase58 w (zl_mint leg) in
      rbind (classic_ata w mint user) (\<lambda>userAta.
      rbind (fund_leg w own mint userAta swapAuthority (requiredAmount req)) (\<lambda>(funding, source).
      rbind (buy_legs w own user swapAuthority legs) (\<lambda>(ixs, metas, sources).
        Inr (CreateAtaIdempotent user userAta user mint (TOKEN_PROGRAM_ID w) # funding @ ixs,
             classic_metas w leg userAta @ metas, source # sources)))))"

record zap_buy =
  zb_reserveTokenProgram :: "pubkey option"
  zb_programId :: pubkey
  zb_protocolConfig :: pubkey
  zb_protocolFeeDestination :: pubkey
  zb_reserve :: pubkey
  zb_reserveTokenMint :: pubkey
  zb_mintAuthority :: pubkey
  zb_user :: pubkey
  zb_swapAuthority :: pubkey
  zb_assets :: "zap_leg list"
  zb_reserveTokenSupplyRaw :: int
  zb_prices :: prices
  zb_slippage :: "number option"

record zap_result =
  zr_instructions :: "tx_ix list"
  zr_reserveTokensRequested :: int
  zr_assetAmountsRaw :: "int list"
  zr_legSources :: "leg_source list"

definition zap_mint_call :: "web3 \<Rightarrow> zap_buy \<Rightarrow> pubkey \<Rightarrow> pubkey \<Rightarrow> int \<Rightarrow> int list \<Rightarrow> account_meta list \<Rightarrow> anchor_call" where
  "zap_mint_call w p reserveTokenProgram depositorAta requested caps metas =
     \<lparr>call_program = zb_programId p, call_method = ''mintReserveTokensInKind'',
      call_args = [BigArg requested, BigArg 1, bn_list caps],
      call_accounts =
        [(''protocolConfig'', Some (zb_protocolConfig p)),
         (''reserve'', Some (zb_reserve p)),
         (''reserveTokenMint'', Some (zb_reserveTokenMint p)),
         (''mintAuthority'', Some (zb_mintAuthority p)),
         (''depositorReserveTokenAccount'', Some depositorAta),
         (''depositor'', Some (zb_user p)),
         (''protocolFeeDestinationTokenAccount'', Some (resolveProtocolFeeDestinationTokenAccount w
            (zb_protocolFeeDestination p) (zb_user p) (zb_reserveTokenMint p) (zb_programId p) reserveTokenProgram)),
         (''protocolFeeDestination'', Some (zb_protocolFeeDestination p)),
         (''tvlAccrual'', Some (find_pda w (TvlAccrual (zb_reserve p)) (zb_programId p))),
         (''tokenProgram'', Some reserveTokenProgram),
         (''associatedTokenProgram'', Some (ASSOCIATED_TOKEN_PROGRAM w)),
         (''systemProgram'', Some (SYSTEM_PROGRAM_ID w))],
      call_remaining = metas\<rparr>"

text \<open>
  The two purchases from the requested amount on; \<open>payment\<close> is the SOL leg of the first
  one, before the program call.
\<close>

definition zap_purchase ::
  "web3 \<Rightarrow> pubkey option \<Rightarrow> zap_buy \<Rightarrow> pubkey \<Rightarrow> int \<Rightarrow> tx_ix list \<Rightarrow> build_error + zap_result" where
  "zap_purchase w own p reserveTokenProgram requested payment =
     rbind (calc (computeMintRequirements requested (zb_reserveTokenSupplyRaw p) (leg_balances (zb_assets p)))) (\<lambda>reqs.
     rbind (slippage_bps (zb_slippage p)) (\<lambda>slippageBps.
     rbind (max_asset_amounts slippageBps reqs) (\<lambda>caps.
     rbind (assetAta w (zb_reserveTokenMint p) (zb_user p) reserveTokenProgram False) (\<lambda>depositorAta.
     rbind (buy_legs w own (zb_user p) (zb_swapAuthority p) (zip (zb_assets p) reqs)) (\<lambda>(ixs, metas, sources).
       Inr \<lparr>zr_instructions =
              CreateAtaIdempotent (zb_user p) depositorAta (zb_user p) (zb_reserveTokenMint p) reserveTokenProgram
              # ixs @ payment @
              [ProgramCall (zap_mint_call w p reserveTokenProgram depositorAta requested caps metas)],
            zr_reserveTokensRequested = requested, zr_assetAmountsRaw = map requiredAmount reqs,
            zr_legSources = sources\<rparr>)))))"

definition buildBuyZapInstructions :: "web3 \<Rightarrow> (build_error + pubkey) \<Rightarrow> zap_buy \<Rightarrow> int \<Rightarrow> build_error + zap_result" where
  "buildBuyZapInstructions w resolved p solLamports =
     rbind (reserve_token_program (zb_reserveTokenProgram p) resolved) (\<lambda>reserveTokenProgram.
     rbind (solToReserveTokensRequested solLamports (zb_reserveTokenSupplyRaw p) (zb_assets p) (zb_prices p)) (\<lambda>requested.
       zap_purchase w None p reserveTokenProgram requested
         [SolTransfer (zb_user p) (zb_swapAuthority p) solLamports]))"

definition buildBuyZapInstructionsDevUsdc ::
  "web3 \<Rightarrow> (build_error + pubkey) \<Rightarrow> zap_buy \<Rightarrow> pubkey \<Rightarrow> nat \<Rightarrow> int \<Rightarrow> build_error + zap_result" where
  "buildBuyZapInstructionsDevUsdc w resolved p devUsdcMint devUsdcDecimals devUsdcAmountRaw =
     rbind (reserve_token_program (zb_reserveTokenProgram p) resolved) (\<lambda>reserveTokenProgram.
     rbind (devUsdcToReserveTokensRequested devUsdcAmountRaw devUsdcDecimals (zb_reserveTokenSupplyRaw p)
        (zb_assets p) (zb_prices p)) (\<lambda>requested.
       zap_purchase w (Some devUsdcMint) p reserveTokenProgram requested []))"

section \<open>Selling\<close>

record zap_sell =
  zs_reserveTokenProgram :: "pubkey option"
  zs_programId :: pubkey
  zs_reserve :: pubkey
  zs_reserveTokenMint :: pubkey
  zs_vaultAuthority :: pubkey
  zs_user :: pubkey
  zs_swapAuthority :: pubkey
  zs_assets :: "zap_leg list"
  zs_reserveTokenSupplyRaw :: int
  zs_redemptionFeeBps :: int
  zs_reserveTokensToRedeem :: int
  zs_prices :: prices

record zap_sell_result =
  sr_instructions :: "tx_ix list"
  sr_assetAmountsRaw :: "int list"
  sr_out :: int \<comment> \<open>lamports, or devUSDC\<close>

fun sell_metas :: "web3 \<Rightarrow> pubkey \<Rightarrow> zap_leg list \<Rightarrow> build_error + account_meta list" where
  "sell_metas w user [] = Inr []"
| "sell_metas w user (leg # legs) =
     rbind (classic_ata w (ofBase58 w (zl_mint leg)) user) (\<lambda>userAta.
     rbind (sell_metas w user legs) (\<lambda>metas. Inr (classic_metas w leg userAta @ metas)))"

definition zap_redeem_call :: "web3 \<Rightarrow> zap_sell \<Rightarrow> pubkey \<Rightarrow> pubkey \<Rightarrow> nat \<Rightarrow> account_meta list \<Rightarrow> anchor_call" where
  "zap_redeem_call w p reserveTokenProgram redeemerAta legs metas =
     \<lparr>call_program = zs_programId p, call_method = ''redeemReserveTokensInKind'',
      call_args = [BigArg (zs_reserveTokensToRedeem p), bn_list (replicate legs 0)],
      call_accounts =
        [(''reserve'', Some (zs_reserve p)),
         (''reserveTokenMint'', Some (zs_reserveTokenMint p)),
         (''vaultAuthority'', Some (zs_vaultAuthority p)),
         (''redeemerReserveTokenAccount'', Some redeemerAta),
         (''redeemer'', Some (zs_user p)),
         (''tvlAccrual'', Some (find_pda w (TvlAccrual (zs_reserve p)) (zs_programId p))),
         (''mintAuthority'', Some (find_pda w (MintAuthority (zs_reserve p)) (zs_programId p))),
         (''feeSettlement'', Some (find_pda w (FeeSettlement (zs_reserve p)) (zs_programId p))),
         (''feeVault'', Some (findFeeVaultAta w (zs_reserve p) (zs_reserveTokenMint p) (zs_programId p) reserveTokenProgram)),
         (''feeVaultAuthority'', Some (find_pda w (FeeVaultAuthority (zs_reserve p)) (zs_programId p))),
         (''tokenProgram'', Some reserveTokenProgram),
         (''associatedTokenProgram'', Some (ASSOCIATED_TOKEN_PROGRAM w)),
         (''systemProgram'', Some (SYSTEM_PROGRAM_ID w))],
      call_remaining = metas\<rparr>"

text \<open>What the three sales have in common: the entitlements and the redemption call.\<close>

definition zap_redeem :: "web3 \<Rightarrow> (build_error + pubkey) \<Rightarrow> zap_sell \<Rightarrow> build_error + int list \<times> anchor_call" where
  "zap_redeem w resolved p =
     rbind (reserve_token_program (zs_reserveTokenProgram p) resolved) (\<lambda>reserveTokenProgram.
     rbind (calc (computeRedemptionEntitlements (zs_reserveTokensToRedeem p) (zs_redemptionFeeBps p)
        (zs_reserveTokenSupplyRaw p) (leg_balances (zs_assets p)))) (\<lambda>ents.
     rbind (assetAta w (zs_reserveTokenMint p) (zs_user p) reserveTokenProgram False) (\<lambda>redeemerAta.
     rbind (sell_metas w (zs_user p) (zs_assets p)) (\<lambda>metas.
       Inr (map entitlement ents, zap_redeem_call w p reserveTokenProgram redeemerAta (length ents) metas)))))"

text \<open>
  The loop that hands the redeemed assets to the swap authority: per leg an account
  creation, a transfer, and for wrapped SOL (settling in SOL) the unwrapping. It returns the
  instructions, their dollar value and the entitlement in the user's own mint.
\<close>

fun sell_legs :: "web3 \<Rightarrow> pubkey option \<Rightarrow> pubkey \<Rightarrow> pubkey \<Rightarrow> prices \<Rightarrow> number \<Rightarrow> int \<Rightarrow> (zap_leg \<times> int) list \<Rightarrow>
    build_error + tx_ix list \<times> number \<times> int" where
  "sell_legs w own user swapAuthority ps usd kept [] = Inr ([], usd, kept)"
| "sell_legs w own user swapAuthority ps usd kept ((leg, amount) # legs) =
     (let mint = ofBase58 w (zl_mint leg) in
      if own = Some mint then sell_legs w own user swapAuthority ps usd amount legs
      else
      rbind (classic_ata w mint user) (\<lambda>userAta.
      rbind (classic_ata w mint swapAuthority) (\<lambda>swapAta.
      rbind (sell_legs w own user swapAuthority ps (num_add usd (raw_usd ps leg amount)) kept legs)
        (\<lambda>(ixs, total, kept').
          Inr ([CreateAtaIdempotent swapAuthority swapAta swapAuthority mint (TOKEN_PROGRAM_ID w),
                TokenTransfer userAta swapAta user amount] @
               (if own = None \<and> isWrappedSol w mint then [CloseAccount swapAta swapAuthority swapAuthority] else []) @
               ixs, total, kept')))))"

definition buildSellZapInstructions :: "web3 \<Rightarrow> (build_error + pubkey) \<Rightarrow> zap_sell \<Rightarrow> build_error + zap_sell_result" where
  "buildSellZapInstructions w resolved p =
     rbind (zap_redeem w resolved p) (\<lambda>(ents, call).
     rbind (sell_legs w None (zs_user p) (zs_swapAuthority p) (zs_prices p) (Fin 0) 0 (zip (zs_assets p) ents))
       (\<lambda>(ixs, totalUsdOut, _).
     rbind (bigint_of (num_floor (num_mul (num_div totalUsdOut SOL_TEST_PRICE_USD) (Fin 1000000000)))) (\<lambda>solLamportsOut.
       Inr \<lparr>sr_instructions = ProgramCall call # ixs @ [SolTransfer (zs_swapAuthority p) (zs_user p) solLamportsOut],
            sr_assetAmountsRaw = ents, sr_out = solLamportsOut\<rparr>)))"

definition buildSellZapInstructionsDevUsdc ::
  "web3 \<Rightarrow> (build_error + pubkey) \<Rightarrow> zap_sell \<Rightarrow> pubkey \<Rightarrow> nat \<Rightarrow> build_error + zap_sell_result" where
  "buildSellZapInstructionsDevUsdc w resolved p devUsdcMint devUsdcDecimals =
     rbind (zap_redeem w resolved p) (\<lambda>(ents, call).
     rbind (sell_legs w (Some devUsdcMint) (zs_user p) (zs_swapAuthority p) (zs_prices p) (Fin 0) 0 (zip (zs_assets p) ents))
       (\<lambda>(ixs, totalUsd, devUsdcEntitlementRaw).
     rbind (bigint_of (num_floor (num_mul totalUsd (pow10 devUsdcDecimals)))) (\<lambda>devUsdcToMintRaw.
     rbind (classic_ata w devUsdcMint (zs_user p)) (\<lambda>userDevUsdcAta.
       Inr \<lparr>sr_instructions = ProgramCall call # ixs @
              (if devUsdcToMintRaw > 0 then
                 [CreateAtaIdempotent (zs_user p) userDevUsdcAta (zs_user p) devUsdcMint (TOKEN_PROGRAM_ID w),
                  MintTo devUsdcMint userDevUsdcAta (zs_swapAuthority p) devUsdcToMintRaw] else []),
            sr_assetAmountsRaw = ents, sr_out = devUsdcEntitlementRaw + devUsdcToMintRaw\<rparr>))))"

definition buildRedeemToDevUsdcInstructions :: "web3 \<Rightarrow> (build_error + pubkey) \<Rightarrow> zap_sell \<Rightarrow> build_error + zap_sell_result" where
  "buildRedeemToDevUsdcInstructions w resolved p =
     rbind (zap_redeem w resolved p) (\<lambda>(ents, call).
       Inr \<lparr>sr_instructions = [ProgramCall call], sr_assetAmountsRaw = ents,
            sr_out = (case ents of e # _ \<Rightarrow> e | [] \<Rightarrow> 0)\<rparr>)"


section \<open>Properties\<close>

text \<open>
  What an instruction list asks the token programs to add to a token account, and what it
  asks the System program to add to a wallet; program calls are not counted.
\<close>

fun moved :: "pubkey \<Rightarrow> tx_ix \<Rightarrow> int" where
  "moved a (MintTo mint dst authority n) = (if dst = a then n else 0)"
| "moved a (TokenTransfer src dst authority n) = (if dst = a then n else 0) - (if src = a then n else 0)"
| "moved a ix = 0"

definition credited :: "pubkey \<Rightarrow> tx_ix list \<Rightarrow> int" where
  "credited a ixs = sum_list (map (moved a) ixs)"

fun paid :: "pubkey \<Rightarrow> tx_ix \<Rightarrow> int" where
  "paid a (SolTransfer src dst n) = (if dst = a then n else 0) - (if src = a then n else 0)"
| "paid a ix = 0"

definition lamports_in :: "pubkey \<Rightarrow> tx_ix list \<Rightarrow> int" where
  "lamports_in a ixs = sum_list (map (paid a) ixs)"

lemma credited_simps [simp]:
  "credited a [] = 0" "credited a (ix # ixs) = moved a ix + credited a ixs"
  "credited a (ixs @ ixs') = credited a ixs + credited a ixs'"
  "lamports_in a [] = 0" "lamports_in a (ix # ixs) = paid a ix + lamports_in a ixs"
  "lamports_in a (ixs @ ixs') = lamports_in a ixs + lamports_in a ixs'"
  by (simp_all add: credited_def lamports_in_def)

definition classic_account :: "web3 \<Rightarrow> pubkey \<Rightarrow> pubkey \<Rightarrow> pubkey" where
  "classic_account w mint owner = associatedTokenAddress w mint owner (TOKEN_PROGRAM_ID w)"

text \<open>Documented: an associated token address belongs to one mint and one owner, and is no wallet.\<close>

definition associated_distinct :: "web3 \<Rightarrow> pubkey \<Rightarrow> bool" where
  "associated_distinct w user \<longleftrightarrow>
     (\<forall>m o' m' o''. classic_account w m o' = classic_account w m' o'' \<longrightarrow> m = m' \<and> o' = o'') \<and>
     (\<forall>m o'. classic_account w m o' \<noteq> user)"

lemma associated_distinctD:
  assumes "associated_distinct w user"
  shows "classic_account w m o' = classic_account w m' o'' \<longleftrightarrow> m = m' \<and> o' = o''"
    "classic_account w m o' \<noteq> user" "user \<noteq> classic_account w m o'"
  using assms unfolding associated_distinct_def by metis+

definition leg_total :: "web3 \<Rightarrow> pubkey \<Rightarrow> (zap_leg \<times> int) list \<Rightarrow> int" where
  "leg_total w m legs = sum_list (map (\<lambda>(leg, n). if ofBase58 w (zl_mint leg) = m then n else 0) legs)"

lemma leg_total_simps [simp]:
  "leg_total w m [] = 0"
  "leg_total w m ((leg, n) # legs) = (if ofBase58 w (zl_mint leg) = m then n else 0) + leg_total w m legs"
  by (simp_all add: leg_total_def)

lemma classic_ata_Inr [res_iff]:
  "classic_ata w mint owner = Inr a \<longleftrightarrow> isOnCurve w owner \<and> a = classic_account w mint owner"
  by (auto simp: classic_ata_def res_iff classic_account_def)

lemma fund_leg_credits:
  assumes "fund_leg w own mint (classic_account w mint user) swapAuthority n = Inr (ixs, source)"
    and "associated_distinct w user" "user \<noteq> swapAuthority"
  shows "credited (classic_account w m user) ixs = (if own \<noteq> Some m \<and> mint = m then n else 0)"
    "lamports_in user ixs = 0" "source = User_devusdc_balance \<longleftrightarrow> own = Some mint"
  using assms(1,3) by (auto simp: fund_leg_def res_iff associated_distinctD [OF assms(2)] split: if_splits)

lemma buy_legs_credits:
  assumes "buy_legs w own user swapAuthority legs = Inr (ixs, metas, sources)"
    and "associated_distinct w user" "user \<noteq> swapAuthority"
  shows "credited (classic_account w m user) ixs =
      (if own = Some m then 0 else leg_total w m (map (\<lambda>(leg, r). (leg, requiredAmount r)) legs)) \<and>
    lamports_in user ixs = 0 \<and>
    map (\<lambda>x. x = User_devusdc_balance) sources = map (\<lambda>(leg, r). own = Some (ofBase58 w (zl_mint leg))) legs"
  using assms(1)
proof (induction legs arbitrary: ixs metas sources)
  case (Cons l legs)
  obtain leg req where l: "l = (leg, req)" by fastforce
  let ?mint = "ofBase58 w (zl_mint leg)"
  from Cons.prems l obtain funding source rest metas' sources' where
    f: "fund_leg w own ?mint (classic_account w ?mint user) swapAuthority (requiredAmount req) = Inr (funding, source)"
    and rest: "buy_legs w own user swapAuthority legs = Inr (rest, metas', sources')"
    and eq: "ixs = CreateAtaIdempotent user (classic_account w ?mint user) user ?mint (TOKEN_PROGRAM_ID w) # funding @ rest"
      "sources = source # sources'"
    by (auto simp: Let_def res_iff split: prod.splits)
  show ?case
    using Cons.IH [OF rest] fund_leg_credits [OF f assms(2,3)] by (auto simp: l eq)
qed simp


text \<open>Two wallets, and associated addresses that keep mint and owner apart.\<close>

fun marked :: "bytes \<Rightarrow> bytes" where
  "marked [] = [0]"
| "marked (b # bs) = 1 # b # marked bs"

definition zap_web3 :: web3 where
  "zap_web3 = \<lparr>findProgramAddressSync = (\<lambda>seeds pid. concat seeds @ pid),
     toBase58 = (\<lambda>k. map (\<lambda>b. char_of (unat b)) k), ofBase58 = (\<lambda>s. map of_char s),
     associatedTokenAddress = (\<lambda>m u t. marked m @ u), isOnCurve = (\<lambda>k. length k = 1)\<rparr>"

lemma marked_append_inject: "marked m @ u = marked m' @ u' \<longleftrightarrow> m = m' \<and> u = u'"
proof (induction m arbitrary: m')
  case Nil then show ?case by (cases m') auto
next
  case (Cons b bs) then show ?case by (cases m') auto
qed

lemma zap_web3_distinct: "associated_distinct zap_web3 [1]"
proof -
  have "marked m @ u \<noteq> [1]" for m u by (cases m) auto
  then show ?thesis
    by (simp add: associated_distinct_def classic_account_def zap_web3_def marked_append_inject)
qed

definition demo_zap :: zap_buy where
  "demo_zap = \<lparr>zb_reserveTokenProgram = Some [2], zb_programId = [3], zb_protocolConfig = [4],
     zb_protocolFeeDestination = [5], zb_reserve = [6], zb_reserveTokenMint = [7], zb_mintAuthority = [8],
     zb_user = [1], zb_swapAuthority = [9], zb_assets = [demo_leg], zb_reserveTokenSupplyRaw = 10,
     zb_prices = [(''A'', Fin 1)], zb_slippage = Some (Fin 0)\<rparr>"


lemma sell_legs_debits:
  assumes "sell_legs w own user swapAuthority ps usd kept legs = Inr (ixs, usd', kept')"
    and "associated_distinct w user" "user \<noteq> swapAuthority"
  shows "credited (classic_account w m user) ixs = (if own = Some m then 0 else - leg_total w m legs) \<and>
    credited (classic_account w m swapAuthority) ixs = (if own = Some m then 0 else leg_total w m legs) \<and>
    lamports_in user ixs = 0 \<and> lamports_in swapAuthority ixs = 0 \<and>
    ((\<forall>l \<in> set legs. own \<noteq> Some (ofBase58 w (zl_mint (fst l)))) \<longrightarrow> kept' = kept)"
  using assms(1)
proof (induction legs arbitrary: usd kept ixs)
  case (Cons l legs)
  obtain leg n where l: "l = (leg, n)" by fastforce
  let ?mint = "ofBase58 w (zl_mint leg)"
  show ?case
  proof (cases "own = Some ?mint")
    case True
    with Cons.prems have "sell_legs w own user swapAuthority ps usd n legs = Inr (ixs, usd', kept')"
      by (simp add: l)
    from Cons.IH [OF this] True show ?thesis by (auto simp: l)
  next
    case False
    with Cons.prems obtain rest where
      rest: "sell_legs w own user swapAuthority ps (num_add usd (raw_usd ps leg n)) kept legs = Inr (rest, usd', kept')"
      and eq: "ixs = [CreateAtaIdempotent swapAuthority (classic_account w ?mint swapAuthority) swapAuthority ?mint (TOKEN_PROGRAM_ID w),
          TokenTransfer (classic_account w ?mint user) (classic_account w ?mint swapAuthority) user n] @
        (if own = None \<and> isWrappedSol w ?mint then [CloseAccount (classic_account w ?mint swapAuthority) swapAuthority swapAuthority] else []) @ rest"
      by (auto simp: l Let_def res_iff split: prod.splits)
    show ?thesis
      using Cons.IH [OF rest] False assms(3) by (auto simp: l eq associated_distinctD [OF assms(2)])
  qed
qed simp

lemma zap_redeem_Inr:
  assumes "zap_redeem w resolved p = Inr (es, call)"
  shows "\<exists>ents. computeRedemptionEntitlements (zs_reserveTokensToRedeem p) (zs_redemptionFeeBps p)
      (zs_reserveTokenSupplyRaw p) (leg_balances (zs_assets p)) = Inr ents \<and> es = map entitlement ents"
    "hd (call_args call) = BigArg (zs_reserveTokensToRedeem p)"
  using assms by (auto simp: zap_redeem_def zap_redeem_call_def res_iff)

text \<open>
  A sale in SOL gives up exactly what the redemption paid. For every asset the
  transfers take from the seller precisely the entitlement, which the swap authority gets,
  no more and no less; the redemption asks for the stated number of Reserve Tokens and comes
  first; and the seller receives the computed lamports, the authority's only payment.
\<close>

theorem zap_sale_exchanges_entitlements:
  assumes "buildSellZapInstructions w resolved p = Inr r"
    and "associated_distinct w (zs_user p)" "zs_user p \<noteq> zs_swapAuthority p"
  shows "\<exists>ents call rest. sr_instructions r = ProgramCall call # rest \<and>
    computeRedemptionEntitlements (zs_reserveTokensToRedeem p) (zs_redemptionFeeBps p)
      (zs_reserveTokenSupplyRaw p) (leg_balances (zs_assets p)) = Inr ents \<and>
    sr_assetAmountsRaw r = map entitlement ents \<and>
    hd (call_args call) = BigArg (zs_reserveTokensToRedeem p) \<and>
    (\<forall>m. credited (classic_account w m (zs_user p)) rest = - leg_total w m (zip (zs_assets p) (sr_assetAmountsRaw r)) \<and>
      credited (classic_account w m (zs_swapAuthority p)) rest = leg_total w m (zip (zs_assets p) (sr_assetAmountsRaw r))) \<and>
    lamports_in (zs_user p) rest = sr_out r \<and> lamports_in (zs_swapAuthority p) rest = - sr_out r"
proof -
  from assms(1) obtain es call ixs usd k where
    redeem: "zap_redeem w resolved p = Inr (es, call)"
    and legs: "sell_legs w None (zs_user p) (zs_swapAuthority p) (zs_prices p) (Fin 0) 0 (zip (zs_assets p) es) = Inr (ixs, usd, k)"
    and r: "sr_instructions r = ProgramCall call # ixs @ [SolTransfer (zs_swapAuthority p) (zs_user p) (sr_out r)]"
      "sr_assetAmountsRaw r = es"
    by (auto simp: buildSellZapInstructions_def res_iff)
  from zap_redeem_Inr [OF redeem] obtain ents where
    ents: "computeRedemptionEntitlements (zs_reserveTokensToRedeem p) (zs_redemptionFeeBps p)
      (zs_reserveTokenSupplyRaw p) (leg_balances (zs_assets p)) = Inr ents" "es = map entitlement ents"
    and call: "hd (call_args call) = BigArg (zs_reserveTokensToRedeem p)" by blast
  note b = sell_legs_debits [OF legs assms(2,3)]
  show ?thesis
    using b ents call r assms(3)
    by (intro exI [of _ ents] exI [of _ call] exI [of _ "ixs @ [SolTransfer (zs_swapAuthority p) (zs_user p) (sr_out r)]"])
      auto
qed

definition demo_sale :: zap_sell where
  "demo_sale = \<lparr>zs_reserveTokenProgram = None, zs_programId = [3], zs_reserve = [6], zs_reserveTokenMint = [7],
     zs_vaultAuthority = [8], zs_user = [1], zs_swapAuthority = [9], zs_assets = [demo_leg\<lparr>zl_decimals := 0\<rparr>],
     zs_reserveTokenSupplyRaw = 10, zs_redemptionFeeBps = 0, zs_reserveTokensToRedeem = 5,
     zs_prices = [(''A'', Fin 20)]\<rparr>"

theorem zap_sale_exchanges_entitlements_witness:
  "\<exists>r rest. buildSellZapInstructions zap_web3 (Inr [2]) demo_sale = Inr r \<and> tl (sr_instructions r) = rest \<and>
     lamports_in [9] rest = - sr_out r"
proof -
  have "\<exists>r. buildSellZapInstructions zap_web3 (Inr [2]) demo_sale = Inr r"
    by (simp add: buildSellZapInstructions_def zap_redeem_def demo_sale_def demo_leg_def reserve_token_program_def
        computeRedemptionEntitlements_def mulDivCeil_def mulDivFloor_def calc_def leg_balances_def BPS_DENOMINATOR_def
        Let_def assetAta_def associated_address_def classic_ata_def zap_web3_def raw_usd_def price_of_def num_of_int_def
        pow10_def round64_numeral round64_one SOL_TEST_PRICE_USD_def bigint_of_def)
  then obtain r where r: "buildSellZapInstructions zap_web3 (Inr [2]) demo_sale = Inr r" ..
  have "zs_user demo_sale = [1]" "zs_swapAuthority demo_sale = [9]" by (simp_all add: demo_sale_def)
  with zap_sale_exchanges_entitlements [OF r] r zap_web3_distinct show ?thesis by auto
qed

end
