(* ===== verification/Management.thy ===== *)
theory Management
  imports Direct_Trades Pda_Safety
begin

text \<open>
  The life of a Reserve as transactions: its creation
  (\<open>packages/sdk/src/createReserveFlow.ts\<close>) and the calls of the manager and of the
  co-managers (\<open>packages/sdk/src/managementInstructions.ts\<close>).
\<close>

definition pcall :: "pubkey \<Rightarrow> string \<Rightarrow> ix_arg list \<Rightarrow> (string \<times> pubkey) list \<Rightarrow> account_meta list \<Rightarrow> anchor_call" where
  \<comment> \<open>\<open>program.methods.m(args).accounts(..).remainingAccounts(..).instruction()\<close>\<close>
  "pcall pid method args accounts rest = \<lparr>call_program = pid, call_method = method, call_args = args,
     call_accounts = map (\<lambda>(n, k). (n, Some k)) accounts, call_remaining = rest\<rparr>"

section \<open>Creation\<close>

record new_reserve =
  nr_reserveId :: int
  nr_reserve :: pubkey
  nr_reserveTokenMint :: pubkey
  nr_mintAuthority :: pubkey
  nr_vaultAuthority :: pubkey
  nr_protocolConfig :: pubkey
  nr_reserveTokenProgram :: pubkey

definition deriveNewReserveAddresses :: "web3 \<Rightarrow> pubkey \<Rightarrow> int \<Rightarrow> new_reserve" where
  \<comment> \<open>\<open>reserveCount\<close> is read from the ProtocolConfig account\<close>
  "deriveNewReserveAddresses w pid reserveCount =
     (let reserve = find_pda w (Reserve reserveCount) pid in
      \<lparr>nr_reserveId = reserveCount, nr_reserve = reserve,
       nr_reserveTokenMint = find_pda w (ReserveTokenMint reserve) pid,
       nr_mintAuthority = find_pda w (MintAuthority reserve) pid,
       nr_vaultAuthority = find_pda w (VaultAuthority reserve) pid,
       nr_protocolConfig = find_pda w ProtocolConfig pid,
       nr_reserveTokenProgram = TOKEN_2022_PROGRAM_ID w\<rparr>)"

record create_params =
  cp_metadataUri :: string
  cp_mintFeeBps :: int
  cp_redemptionFeeBps :: int
  cp_tvlFeeBps :: int
  cp_feeDestination :: pubkey

definition buildCreateReserveInstruction :: "web3 \<Rightarrow> pubkey \<Rightarrow> new_reserve \<Rightarrow> pubkey \<Rightarrow> create_params \<Rightarrow> anchor_call" where
  "buildCreateReserveInstruction w pid a manager p =
     pcall pid ''createReserve''
       [TextArg (cp_metadataUri p), NumArg (cp_mintFeeBps p), NumArg (cp_redemptionFeeBps p),
        NumArg (cp_tvlFeeBps p), KeyArg (cp_feeDestination p)]
       [(''protocolConfig'', nr_protocolConfig a), (''reserve'', nr_reserve a),
        (''mintAuthority'', nr_mintAuthority a), (''reserveTokenMint'', nr_reserveTokenMint a),
        (''transferFeeAuthority'', find_pda w TransferFeeAuthority pid), (''manager'', manager),
        (''tokenProgram'', TOKEN_2022_PROGRAM_ID w), (''systemProgram'', SYSTEM_PROGRAM_ID w)] []"

record recipient_input =
  ri_wallet :: string
  ri_allocationBps :: int

definition recipients_arg :: "web3 \<Rightarrow> recipient_input list \<Rightarrow> ix_arg" where
  "recipients_arg w rs = ListArg (map (\<lambda>r. RecipientArg (ofBase58 w (ri_wallet r)) (ri_allocationBps r)) rs)"

definition buildInitializeManagerFeeRecipientsInstruction ::
  "web3 \<Rightarrow> pubkey \<Rightarrow> pubkey \<Rightarrow> pubkey \<Rightarrow> pubkey \<Rightarrow> pubkey \<Rightarrow> recipient_input list \<Rightarrow> anchor_call" where
  "buildInitializeManagerFeeRecipientsInstruction w pid reserve signer delegate payer recipients =
     pcall pid ''initializeManagerFeeRecipients'' [recipients_arg w recipients]
       [(''reserve'', reserve), (''managerFeeRecipients'', find_pda w (ManagerFeeRecipients reserve) pid),
        (''delegate'', delegate), (''signer'', signer), (''payer'', payer), (''systemProgram'', SYSTEM_PROGRAM_ID w)] []"

record asset_addresses =
  aa_mint :: pubkey
  aa_reserveAsset :: pubkey
  aa_vault :: pubkey
  aa_tokenProgram :: "pubkey option"

definition deriveReserveAssetAddresses :: "web3 \<Rightarrow> pubkey \<Rightarrow> pubkey \<Rightarrow> pubkey \<Rightarrow> pubkey option \<Rightarrow> asset_addresses" where
  "deriveReserveAssetAddresses w reserve mint pid tokenProgram =
     \<lparr>aa_mint = mint, aa_reserveAsset = find_pda w (ReserveAsset reserve mint) pid,
      aa_vault = find_pda w (ReserveVault reserve mint) pid, aa_tokenProgram = tokenProgram\<rparr>"

definition asset_program :: "web3 \<Rightarrow> pubkey option \<Rightarrow> pubkey" where
  \<comment> \<open>\<open>resolveLegTokenProgram({ tokenProgram: p ?? null })\<close>\<close>
  "asset_program w p = resolveLegTokenProgram w (map_option Key p)"

definition buildInitializeReserveAssetInstruction ::
  "web3 \<Rightarrow> pubkey \<Rightarrow> new_reserve \<Rightarrow> asset_addresses \<Rightarrow> pubkey \<Rightarrow> int \<Rightarrow> anchor_call" where
  "buildInitializeReserveAssetInstruction w pid a asset manager weightBps =
     pcall pid ''initializeReserveAsset'' [NumArg weightBps]
       [(''protocolConfig'', nr_protocolConfig a), (''reserve'', nr_reserve a),
        (''reserveAsset'', aa_reserveAsset asset), (''assetMint'', aa_mint asset), (''vault'', aa_vault asset),
        (''vaultAuthority'', nr_vaultAuthority a), (''manager'', manager),
        (''tokenProgram'', asset_program w (aa_tokenProgram asset)), (''systemProgram'', SYSTEM_PROGRAM_ID w)] []"

text \<open>The five accounts of a seeded asset, the depositor's derived under its own program.\<close>

definition seed_metas :: "web3 \<Rightarrow> pubkey \<Rightarrow> asset_addresses \<Rightarrow> build_error + account_meta list" where
  "seed_metas w manager a =
     (let program = asset_program w (aa_tokenProgram a) in
      rbind (assetAta w (aa_mint a) manager program False) (\<lambda>ata.
        Inr [meta (aa_reserveAsset a) False False, meta (aa_vault a) True False, meta ata True False,
             meta (aa_mint a) False False, meta program False False]))"

definition seed_remaining :: "web3 \<Rightarrow> pubkey \<Rightarrow> asset_addresses list \<Rightarrow> build_error + account_meta list" where
  \<comment> \<open>\<open>assets.flatMap(..)\<close>\<close>
  "seed_remaining w manager assets = rbind (rmap (seed_metas w manager) assets) (\<lambda>ms. Inr (concat ms))"

definition buildSeedReserveInstruction ::
  "web3 \<Rightarrow> pubkey \<Rightarrow> new_reserve \<Rightarrow> asset_addresses list \<Rightarrow> pubkey \<Rightarrow> int list \<Rightarrow> int \<Rightarrow> build_error + anchor_call" where
  "buildSeedReserveInstruction w pid a assets manager seedAmounts initialReserveTokens =
     rbind (assetAta w (nr_reserveTokenMint a) manager (nr_reserveTokenProgram a) False) (\<lambda>managerAta.
     rbind (seed_remaining w manager assets) (\<lambda>metas.
       Inr (pcall pid ''seedReserve'' [bn_list seedAmounts, BigArg initialReserveTokens]
         [(''protocolConfig'', nr_protocolConfig a), (''reserve'', nr_reserve a),
          (''reserveTokenMint'', nr_reserveTokenMint a), (''mintAuthority'', nr_mintAuthority a),
          (''managerReserveTokenAccount'', managerAta), (''manager'', manager),
          (''feeSettlement'', find_pda w (FeeSettlement (nr_reserve a)) pid),
          (''feeVault'', findFeeVaultAta w (nr_reserve a) (nr_reserveTokenMint a) pid (nr_reserveTokenProgram a)),
          (''feeVaultAuthority'', find_pda w (FeeVaultAuthority (nr_reserve a)) pid),
          (''tvlAccrual'', find_pda w (TvlAccrual (nr_reserve a)) pid),
          (''tokenProgram'', nr_reserveTokenProgram a), (''associatedTokenProgram'', ASSOCIATED_TOKEN_PROGRAM w),
          (''systemProgram'', SYSTEM_PROGRAM_ID w)] metas)))"

definition buildSeedReserveUsdcFeeInstruction ::
  "web3 \<Rightarrow> pubkey \<Rightarrow> new_reserve \<Rightarrow> asset_addresses list \<Rightarrow> pubkey \<Rightarrow> int list \<Rightarrow> int \<Rightarrow> usdc_fee \<Rightarrow> build_error + anchor_call" where
  "buildSeedReserveUsdcFeeInstruction w pid a assets manager seedAmounts initialReserveTokens f =
     rbind (seed_remaining w manager assets) (\<lambda>metas.
     rbind (usdcFeeAccounts w pid (nr_reserve a) (uf_usdcMint f) (uf_feeQuoteSigner f) (uf_routing f)) (\<lambda>(feeAccounts, managerAtas).
     rbind (assetAta w (nr_reserveTokenMint a) manager (nr_reserveTokenProgram a) False) (\<lambda>managerAta.
       Inr \<lparr>call_program = pid, call_method = ''seedReserveUsdcFee'',
         call_args = [bn_list seedAmounts, BigArg initialReserveTokens, BigArg (uf_usdcFeeRaw f)],
         call_accounts =
           map (\<lambda>(n, k). (n, Some k))
             [(''protocolConfig'', nr_protocolConfig a), (''reserve'', nr_reserve a),
              (''reserveTokenMint'', nr_reserveTokenMint a), (''mintAuthority'', nr_mintAuthority a),
              (''managerReserveTokenAccount'', managerAta), (''manager'', manager),
              (''tvlAccrual'', find_pda w (TvlAccrual (nr_reserve a)) pid)] @
           feeAccounts @
           map (\<lambda>(n, k). (n, Some k))
             [(''managerUsdcAccount'', usdc_account w f manager), (''tokenProgram'', nr_reserveTokenProgram a),
              (''associatedTokenProgram'', ASSOCIATED_TOKEN_PROGRAM w), (''systemProgram'', SYSTEM_PROGRAM_ID w)],
         call_remaining = metas @ map (\<lambda>ata. meta ata True False) managerAtas\<rparr>)))"

section \<open>Management\<close>

definition buildUpdateMetadataInstruction :: "pubkey \<Rightarrow> pubkey \<Rightarrow> pubkey \<Rightarrow> pubkey \<Rightarrow> string \<Rightarrow> anchor_call" where
  "buildUpdateMetadataInstruction pid reserve signer delegate newMetadataUri =
     pcall pid ''updateMetadata'' [TextArg newMetadataUri]
       [(''reserve'', reserve), (''delegate'', delegate), (''signer'', signer)] []"

definition buildUpdateTargetsInstruction ::
  "web3 \<Rightarrow> pubkey \<Rightarrow> pubkey \<Rightarrow> pubkey \<Rightarrow> pubkey \<Rightarrow> pubkey list \<Rightarrow> int list \<Rightarrow> anchor_call" where
  "buildUpdateTargetsInstruction w pid reserve signer delegate assetMintsInOrder newTargetWeightsBps =
     pcall pid ''updateTargets'' [ListArg (map NumArg newTargetWeightsBps)]
       [(''reserve'', reserve), (''delegate'', delegate), (''signer'', signer)]
       (map (\<lambda>mint. meta (find_pda w (ReserveAsset reserve mint) pid) True False) assetMintsInOrder)"

definition buildAddReserveAssetActiveInstruction ::
  "web3 \<Rightarrow> pubkey \<Rightarrow> pubkey \<Rightarrow> pubkey \<Rightarrow> pubkey \<Rightarrow> pubkey \<Rightarrow> int \<Rightarrow> pubkey option \<Rightarrow> anchor_call" where
  "buildAddReserveAssetActiveInstruction w pid reserve signer delegate assetMint targetWeightBps assetTokenProgram =
     pcall pid ''addReserveAssetActive'' [NumArg targetWeightBps]
       [(''protocolConfig'', find_pda w ProtocolConfig pid), (''reserve'', reserve),
        (''reserveAsset'', find_pda w (ReserveAsset reserve assetMint) pid), (''assetMint'', assetMint),
        (''vault'', find_pda w (ReserveVault reserve assetMint) pid),
        (''vaultAuthority'', find_pda w (VaultAuthority reserve) pid), (''delegate'', delegate), (''signer'', signer),
        (''tokenProgram'', asset_program w assetTokenProgram), (''systemProgram'', SYSTEM_PROGRAM_ID w)] []"

definition buildFundNewReserveAssetInstruction ::
  "web3 \<Rightarrow> pubkey \<Rightarrow> pubkey \<Rightarrow> pubkey \<Rightarrow> pubkey \<Rightarrow> int \<Rightarrow> pubkey option \<Rightarrow> build_error + anchor_call" where
  "buildFundNewReserveAssetInstruction w pid reserve manager assetMint amountRaw assetTokenProgram =
     (let assetProgram = asset_program w assetTokenProgram in
      rbind (assetAta w assetMint manager assetProgram False) (\<lambda>managerTokenAccount.
        Inr (pcall pid ''fundNewReserveAsset'' [BigArg amountRaw]
          [(''reserve'', reserve), (''reserveAsset'', find_pda w (ReserveAsset reserve assetMint) pid),
           (''assetMint'', assetMint), (''vault'', find_pda w (ReserveVault reserve assetMint) pid),
           (''managerTokenAccount'', managerTokenAccount), (''manager'', manager), (''tokenProgram'', assetProgram)] [])))"

definition buildRemoveReserveAssetInstruction ::
  "web3 \<Rightarrow> pubkey \<Rightarrow> pubkey \<Rightarrow> pubkey \<Rightarrow> pubkey \<Rightarrow> pubkey \<Rightarrow> pubkey \<Rightarrow> pubkey option \<Rightarrow> anchor_call" where
  "buildRemoveReserveAssetInstruction w pid reserve reserveManager signer delegate assetMint assetTokenProgram =
     pcall pid ''removeReserveAsset'' []
       [(''reserve'', reserve), (''reserveAsset'', find_pda w (ReserveAsset reserve assetMint) pid),
        (''assetMint'', assetMint), (''vault'', find_pda w (ReserveVault reserve assetMint) pid),
        (''vaultAuthority'', find_pda w (VaultAuthority reserve) pid), (''manager'', reserveManager),
        (''delegate'', delegate), (''signer'', signer), (''tokenProgram'', asset_program w assetTokenProgram)] []"

definition buildAddDelegateInstruction ::
  "web3 \<Rightarrow> pubkey \<Rightarrow> pubkey \<Rightarrow> pubkey \<Rightarrow> pubkey \<Rightarrow> pubkey \<Rightarrow> int \<Rightarrow> bool \<Rightarrow> anchor_call" where
  "buildAddDelegateInstruction w pid reserve signer actingDelegate delegateWallet permissions restricted =
     pcall pid ''addDelegate'' [KeyArg delegateWallet, NumArg permissions, BoolArg restricted]
       [(''reserve'', reserve), (''delegateAccount'', find_pda w (Delegate reserve delegateWallet) pid),
        (''actingDelegate'', actingDelegate), (''signer'', signer), (''systemProgram'', SYSTEM_PROGRAM_ID w)] []"

definition buildUpdateDelegatePermissionsInstruction ::
  "web3 \<Rightarrow> pubkey \<Rightarrow> pubkey \<Rightarrow> pubkey \<Rightarrow> pubkey \<Rightarrow> pubkey \<Rightarrow> int \<Rightarrow> anchor_call" where
  "buildUpdateDelegatePermissionsInstruction w pid reserve signer actingDelegate delegateWallet newPermissions =
     pcall pid ''updateDelegatePermissions'' [NumArg newPermissions]
       [(''reserve'', reserve), (''delegateAccount'', find_pda w (Delegate reserve delegateWallet) pid),
        (''actingDelegate'', actingDelegate), (''signer'', signer)] []"

definition buildRemoveDelegateInstruction ::
  "web3 \<Rightarrow> pubkey \<Rightarrow> pubkey \<Rightarrow> pubkey \<Rightarrow> pubkey \<Rightarrow> pubkey \<Rightarrow> anchor_call" where
  "buildRemoveDelegateInstruction w pid reserve signer actingDelegate delegateWallet =
     pcall pid ''removeDelegate'' []
       [(''reserve'', reserve), (''delegateAccount'', find_pda w (Delegate reserve delegateWallet) pid),
        (''actingDelegate'', actingDelegate), (''signer'', signer)] []"

definition buildInitiateWindDownInstruction :: "pubkey \<Rightarrow> pubkey \<Rightarrow> pubkey \<Rightarrow> anchor_call" where
  "buildInitiateWindDownInstruction pid reserve manager =
     pcall pid ''initiateWindDown'' [] [(''reserve'', reserve), (''manager'', manager)] []"

definition buildCollectFeesInstruction ::
  "web3 \<Rightarrow> pubkey \<Rightarrow> (build_error + pubkey) \<Rightarrow> pubkey \<Rightarrow> pubkey \<Rightarrow> pubkey \<Rightarrow> pubkey \<Rightarrow> pubkey \<Rightarrow> build_error + anchor_call" where
  "buildCollectFeesInstruction w pid resolved reserve reserveTokenMint managerFeeDestination protocolFeeDestination payer =
     rbind resolved (\<lambda>reserveTokenProgram.
     rbind (assetAta w reserveTokenMint managerFeeDestination reserveTokenProgram False) (\<lambda>managerAta.
     rbind (assetAta w reserveTokenMint protocolFeeDestination reserveTokenProgram True) (\<lambda>protocolAta.
       Inr (pcall pid ''collectFees'' []
         [(''protocolConfig'', find_pda w ProtocolConfig pid), (''reserve'', reserve),
          (''reserveTokenMint'', reserveTokenMint), (''mintAuthority'', find_pda w (MintAuthority reserve) pid),
          (''managerFeeDestinationTokenAccount'', managerAta), (''managerFeeDestination'', managerFeeDestination),
          (''protocolFeeDestinationTokenAccount'', protocolAta), (''protocolFeeDestination'', protocolFeeDestination),
          (''payer'', payer), (''tokenProgram'', reserveTokenProgram),
          (''associatedTokenProgram'', ASSOCIATED_TOKEN_PROGRAM w), (''systemProgram'', SYSTEM_PROGRAM_ID w)] []))))"

definition buildCollectProtocolFeeInstruction ::
  "web3 \<Rightarrow> pubkey \<Rightarrow> (build_error + pubkey) \<Rightarrow> pubkey \<Rightarrow> pubkey \<Rightarrow> pubkey \<Rightarrow> pubkey \<Rightarrow> build_error + anchor_call" where
  "buildCollectProtocolFeeInstruction w pid resolved reserve reserveTokenMint protocolFeeDestination payer =
     rbind resolved (\<lambda>reserveTokenProgram.
     rbind (assetAta w reserveTokenMint protocolFeeDestination reserveTokenProgram True) (\<lambda>protocolAta.
       Inr (pcall pid ''collectProtocolFee'' []
         [(''protocolConfig'', find_pda w ProtocolConfig pid), (''reserve'', reserve),
          (''reserveTokenMint'', reserveTokenMint), (''mintAuthority'', find_pda w (MintAuthority reserve) pid),
          (''protocolFeeDestinationTokenAccount'', protocolAta), (''protocolFeeDestination'', protocolFeeDestination),
          (''payer'', payer), (''tokenProgram'', reserveTokenProgram),
          (''associatedTokenProgram'', ASSOCIATED_TOKEN_PROGRAM w), (''systemProgram'', SYSTEM_PROGRAM_ID w)] [])))"

definition buildCloseReserveInstruction ::
  "web3 \<Rightarrow> pubkey \<Rightarrow> pubkey \<Rightarrow> pubkey \<Rightarrow> pubkey \<Rightarrow> pubkey list \<Rightarrow> bool \<Rightarrow> anchor_call" where
  "buildCloseReserveInstruction w pid reserve reserveTokenMint manager assetMintsInOrder managerFeeRecipientsInitialized =
     pcall pid ''closeReserve'' []
       [(''reserve'', reserve), (''reserveTokenMint'', reserveTokenMint),
        (''vaultAuthority'', find_pda w (VaultAuthority reserve) pid),
        (''managerFeeRecipients'', if managerFeeRecipientsInitialized then find_pda w (ManagerFeeRecipients reserve) pid else pid),
        (''manager'', manager), (''tokenProgram'', TOKEN_PROGRAM_ID w)]
       (concat (map (\<lambda>mint. [meta (find_pda w (ReserveAsset reserve mint) pid) True False,
                             meta (find_pda w (ReserveVault reserve mint) pid) True False]) assetMintsInOrder))"

definition buildUpdateFeeRecipientsInstruction ::
  "web3 \<Rightarrow> pubkey \<Rightarrow> pubkey \<Rightarrow> pubkey \<Rightarrow> pubkey \<Rightarrow> recipient_input list \<Rightarrow> anchor_call" where
  "buildUpdateFeeRecipientsInstruction w pid reserve signer delegate recipients =
     pcall pid ''updateFeeRecipients'' [recipients_arg w recipients]
       [(''reserve'', reserve), (''managerFeeRecipients'', find_pda w (ManagerFeeRecipients reserve) pid),
        (''delegate'', delegate), (''signer'', signer)] []"

definition buildCollectManagerFeeShareInstruction ::
  "web3 \<Rightarrow> pubkey \<Rightarrow> (build_error + pubkey) \<Rightarrow> pubkey \<Rightarrow> pubkey \<Rightarrow> pubkey \<Rightarrow> bool \<Rightarrow> build_error + anchor_call" where
  \<comment> \<open>an explicit \<open>null\<close> account when the Reserve has no recipient list\<close>
  "buildCollectManagerFeeShareInstruction w pid resolved reserve reserveTokenMint recipient managerFeeRecipientsExists =
     rbind resolved (\<lambda>reserveTokenProgram.
     rbind (assetAta w reserveTokenMint recipient reserveTokenProgram False) (\<lambda>recipientTokenAccount.
       Inr \<lparr>call_program = pid, call_method = ''collectManagerFeeShare'', call_args = [],
         call_accounts =
           [(''reserve'', Some reserve), (''reserveTokenMint'', Some reserveTokenMint),
            (''mintAuthority'', Some (find_pda w (MintAuthority reserve) pid)),
            (''managerFeeRecipients'', if managerFeeRecipientsExists then Some (find_pda w (ManagerFeeRecipients reserve) pid) else None),
            (''recipient'', Some recipient), (''recipientTokenAccount'', Some recipientTokenAccount),
            (''tokenProgram'', Some reserveTokenProgram), (''associatedTokenProgram'', Some (ASSOCIATED_TOKEN_PROGRAM w)),
            (''systemProgram'', Some (SYSTEM_PROGRAM_ID w))],
         call_remaining = []\<rparr>))"

end
