(* ===== verification/Fee_Settlement.thy ===== *)
theory Fee_Settlement
  imports Management
begin

text \<open>
  How collected fees become USDC (\<open>feeSettlementInstructions.ts\<close>), the Token-2022
  transfer fee of the Reserve Tokens (\<open>transferFeeInstructions.ts\<close>) and the swaps that
  rebalance a live Reserve (\<open>rebalanceSwapInstructions.ts\<close>), all of \<open>packages/sdk/src\<close>.
\<close>

section \<open>Settlement\<close>

definition buildSetFeeSettlementKeeperInstruction :: "web3 \<Rightarrow> pubkey \<Rightarrow> pubkey \<Rightarrow> pubkey \<Rightarrow> anchor_call" where
  "buildSetFeeSettlementKeeperInstruction w pid authority newKeeper =
     pcall pid ''setFeeSettlementKeeper'' [KeyArg newKeeper]
       [(''protocolConfig'', find_pda w ProtocolConfig pid),
        (''settlementKeeperConfig'', find_pda w SettlementKeeperConfig pid),
        (''authority'', authority), (''systemProgram'', SYSTEM_PROGRAM_ID w)] []"

definition staging_metas :: "web3 \<Rightarrow> pubkey \<Rightarrow> zap_leg \<Rightarrow> build_error + account_meta list" where
  "staging_metas w settlementAuthority asset =
     (let program = leg_program w asset in
      rbind (assetAta w (ofBase58 w (zl_mint asset)) settlementAuthority program True) (\<lambda>stagingAta.
        Inr (leg_metas w asset stagingAta program)))"

definition buildRedeemFeeVaultSharesInstruction ::
  "web3 \<Rightarrow> pubkey \<Rightarrow> pubkey option \<Rightarrow> (build_error + pubkey) \<Rightarrow> pubkey \<Rightarrow> pubkey \<Rightarrow> pubkey \<Rightarrow> pubkey \<Rightarrow>
   zap_leg list \<Rightarrow> int \<Rightarrow> build_error + anchor_call" where
  "buildRedeemFeeVaultSharesInstruction w pid given resolved reserve reserveTokenMint vaultAuthority payer assets shares =
     rbind (reserve_token_program given resolved) (\<lambda>reserveTokenProgram.
     let feeVaultAuthority = find_pda w (FeeVaultAuthority reserve) pid;
         settlementAuthority = find_pda w (SettlementAuthority reserve) pid in
     rbind (assetAta w reserveTokenMint feeVaultAuthority reserveTokenProgram True) (\<lambda>feeVault.
     rbind (rmap (staging_metas w settlementAuthority) assets) (\<lambda>metas.
       Inr (pcall pid ''redeemFeeVaultShares'' [BigArg shares]
         [(''reserve'', reserve), (''reserveTokenMint'', reserveTokenMint),
          (''feeSettlement'', find_pda w (FeeSettlement reserve) pid), (''feeVault'', feeVault),
          (''feeVaultAuthority'', feeVaultAuthority), (''settlementAuthority'', settlementAuthority),
          (''vaultAuthority'', vaultAuthority), (''payer'', payer), (''tokenProgram'', reserveTokenProgram)]
         (concat metas)))))"

definition buildApproveSettlementSwapInstruction ::
  "web3 \<Rightarrow> pubkey \<Rightarrow> pubkey \<Rightarrow> pubkey \<Rightarrow> pubkey option \<Rightarrow> pubkey \<Rightarrow> int \<Rightarrow> build_error + anchor_call" where
  "buildApproveSettlementSwapInstruction w pid reserve assetMint assetTokenProgram keeper amount =
     (let assetProgram = asset_program w assetTokenProgram;
          settlementAuthority = find_pda w (SettlementAuthority reserve) pid in
      rbind (assetAta w assetMint settlementAuthority assetProgram True) (\<lambda>stagingAta.
        Inr (pcall pid ''approveSettlementSwap'' [BigArg amount]
          [(''settlementKeeperConfig'', find_pda w SettlementKeeperConfig pid), (''reserve'', reserve),
           (''assetMint'', assetMint), (''stagingAta'', stagingAta), (''settlementAuthority'', settlementAuthority),
           (''keeper'', keeper), (''tokenProgram'', assetProgram),
           (''associatedTokenProgram'', ASSOCIATED_TOKEN_PROGRAM w)] [])))"

definition usdc_recipients :: "web3 \<Rightarrow> pubkey \<Rightarrow> string list \<Rightarrow> pubkey option \<Rightarrow> build_error + pubkey list" where
  "usdc_recipients w usdcMint managerRecipients legacyManagerDestination =
     (if managerRecipients \<noteq> [] then
        Inr (map (\<lambda>r. associatedTokenAddress w usdcMint (ofBase58 w r) (TOKEN_PROGRAM_ID w)) managerRecipients)
      else case legacyManagerDestination of
          None \<Rightarrow> Inl LegacyDestinationRequired
        | Some d \<Rightarrow> Inr [associatedTokenAddress w usdcMint d (TOKEN_PROGRAM_ID w)])"

definition buildDistributeFeeUsdcInstruction ::
  "web3 \<Rightarrow> pubkey \<Rightarrow> pubkey \<Rightarrow> pubkey \<Rightarrow> pubkey \<Rightarrow> pubkey \<Rightarrow> string list \<Rightarrow> pubkey option \<Rightarrow> build_error + anchor_call" where
  "buildDistributeFeeUsdcInstruction w pid reserve usdcMint protocolFeeDestination payer managerRecipients legacy =
     rbind (usdc_recipients w usdcMint managerRecipients legacy) (\<lambda>atas.
     let settlementAuthority = find_pda w (SettlementAuthority reserve) pid in
       Inr (pcall pid ''distributeFeeUsdc'' []
         [(''protocolConfig'', find_pda w ProtocolConfig pid), (''reserve'', reserve),
          (''feeSettlement'', find_pda w (FeeSettlement reserve) pid), (''usdcMint'', usdcMint),
          (''usdcStagingAta'', associatedTokenAddress w usdcMint settlementAuthority (TOKEN_PROGRAM_ID w)),
          (''settlementAuthority'', settlementAuthority),
          (''protocolUsdcDestination'', associatedTokenAddress w usdcMint protocolFeeDestination (TOKEN_PROGRAM_ID w)),
          (''protocolFeeDestination'', protocolFeeDestination),
          (''managerFeeRecipients'', if managerRecipients \<noteq> [] then find_pda w (ManagerFeeRecipients reserve) pid else pid),
          (''payer'', payer), (''tokenProgram'', TOKEN_PROGRAM_ID w),
          (''associatedTokenProgram'', ASSOCIATED_TOKEN_PROGRAM w), (''systemProgram'', SYSTEM_PROGRAM_ID w)]
         (map (\<lambda>a. meta a True False) atas)))"

section \<open>The transfer fee\<close>

definition RESERVE_TOKEN_TRANSFER_FEE_LAUNCH_BPS :: int where "RESERVE_TOKEN_TRANSFER_FEE_LAUNCH_BPS = 15"
definition MAX_RESERVE_TOKEN_TRANSFER_FEE_BPS :: int where "MAX_RESERVE_TOKEN_TRANSFER_FEE_BPS = 25"
definition MAX_HARVEST_SOURCES_PER_TX :: nat where "MAX_HARVEST_SOURCES_PER_TX = 20"

fun isInteger :: "number \<Rightarrow> bool" where
  \<comment> \<open>\<open>Number.isInteger\<close>\<close>
  "isInteger (Fin a) \<longleftrightarrow> of_int \<lfloor>a\<rfloor> = a"
| "isInteger x \<longleftrightarrow> False"

definition buildUpdateTransferFeeInstruction ::
  "web3 \<Rightarrow> pubkey \<Rightarrow> pubkey \<Rightarrow> pubkey \<Rightarrow> number \<Rightarrow> build_error + anchor_call" where
  "buildUpdateTransferFeeInstruction w pid reserve authority newTransferFeeBps =
     (if \<not> isInteger newTransferFeeBps \<or> num_less newTransferFeeBps (Fin 0) \<or>
         num_less (Fin (of_int MAX_RESERVE_TOKEN_TRANSFER_FEE_BPS)) newTransferFeeBps
      then Inl (TransferFeeOutOfRange newTransferFeeBps)
      else Inr (pcall pid ''updateTransferFee''
        [NumArg (case newTransferFeeBps of Fin a \<Rightarrow> \<lfloor>a\<rfloor> | _ \<Rightarrow> 0)]
        [(''protocolConfig'', find_pda w ProtocolConfig pid), (''reserve'', reserve),
         (''reserveTokenMint'', find_pda w (ReserveTokenMint reserve) pid),
         (''transferFeeAuthority'', find_pda w TransferFeeAuthority pid), (''authority'', authority),
         (''tokenProgram'', TOKEN_2022_PROGRAM_ID w)] []))"

definition buildCollectTransferFeesInstruction ::
  "web3 \<Rightarrow> pubkey \<Rightarrow> pubkey \<Rightarrow> pubkey \<Rightarrow> pubkey \<Rightarrow> pubkey list \<Rightarrow> build_error + anchor_call" where
  "buildCollectTransferFeesInstruction w pid reserve treasury payer sources =
     (let reserveTokenMint = find_pda w (ReserveTokenMint reserve) pid in
      if length sources > MAX_HARVEST_SOURCES_PER_TX then Inl (TooManyHarvestSources (length sources))
      else Inr (pcall pid ''collectTransferFees'' []
        [(''protocolConfig'', find_pda w ProtocolConfig pid), (''reserve'', reserve),
         (''reserveTokenMint'', reserveTokenMint), (''transferFeeAuthority'', find_pda w TransferFeeAuthority pid),
         (''treasury'', treasury),
         (''treasuryTokenAccount'', associatedTokenAddress w reserveTokenMint treasury (TOKEN_2022_PROGRAM_ID w)),
         (''payer'', payer), (''tokenProgram'', TOKEN_2022_PROGRAM_ID w),
         (''associatedTokenProgram'', ASSOCIATED_TOKEN_PROGRAM w), (''systemProgram'', SYSTEM_PROGRAM_ID w)]
        (map (\<lambda>k. meta k True False) sources)))"

text \<open>What spl-token's \<open>getTransferFeeConfig\<close> returns: the older and the newer fee.\<close>

record transfer_fee_config =
  tf_olderBps :: int
  tf_newerBps :: int
  tf_newerEpoch :: int
  tf_withheldAmount :: int

record transfer_fee_info =
  ti_currentBps :: int
  ti_newerBps :: int
  ti_newerEpoch :: int
  ti_withheldOnMintRaw :: int

definition fetchReserveTokenTransferFee ::
  "web3 \<Rightarrow> (account \<Rightarrow> transfer_fee_config option) \<Rightarrow> account option \<Rightarrow> int \<Rightarrow> transfer_fee_info option" where
  "fetchReserveTokenTransferFee w getTransferFeeConfig info epoch =
     (case info of None \<Rightarrow> None | Some i \<Rightarrow>
        if acc_owner i \<noteq> TOKEN_2022_PROGRAM_ID w then None
        else case getTransferFeeConfig i of None \<Rightarrow> None | Some config \<Rightarrow>
          Some \<lparr>ti_currentBps = (if epoch \<ge> tf_newerEpoch config then tf_newerBps config else tf_olderBps config),
            ti_newerBps = tf_newerBps config, ti_newerEpoch = tf_newerEpoch config,
            ti_withheldOnMintRaw = tf_withheldAmount config\<rparr>)"

text \<open>
  \<open>withheld\<close> is spl-token's \<open>getTransferFeeAmount(unpackAccount(..))\<close>: it throws on what
  is no token account, and is \<open>None\<close> without the extension.
\<close>

definition withheld_of :: "(account \<Rightarrow> build_error + int option) \<Rightarrow> account \<Rightarrow> (pubkey \<times> int) list" where
  "withheld_of withheld a = (case withheld a of
      Inl _ \<Rightarrow> []
    | Inr r \<Rightarrow> let n = (case r of Some n \<Rightarrow> n | None \<Rightarrow> 0) in if n > 0 then [(acc_address a, n)] else [])"

definition findWithheldFeeAccounts ::
  "(account \<Rightarrow> build_error + int option) \<Rightarrow> account list \<Rightarrow> (pubkey \<times> int) list" where
  "findWithheldFeeAccounts withheld accounts =
     sort_by (\<lambda>x y. snd y > snd x) (concat (map (withheld_of withheld) accounts))"

section \<open>Rebalancing swaps\<close>

record swap_begin =
  sb_reserve :: pubkey
  sb_signer :: pubkey
  sb_delegate :: pubkey
  sb_mintSell :: pubkey
  sb_mintBuy :: pubkey
  sb_signerSellAccount :: pubkey
  sb_signerBuyAccount :: pubkey
  sb_tokenProgramSell :: "pubkey option"
  sb_feeQuoteSigner :: pubkey
  sb_amountIn :: int
  sb_minOut :: int

definition findRebalanceTicket :: "web3 \<Rightarrow> pubkey \<Rightarrow> pubkey \<Rightarrow> pubkey" where
  "findRebalanceTicket w reserve pid = find_pda w (RebalanceTicket reserve) pid"

definition buildRebalanceSwapBeginInstruction :: "web3 \<Rightarrow> pubkey \<Rightarrow> swap_begin \<Rightarrow> anchor_call" where
  "buildRebalanceSwapBeginInstruction w pid p =
     pcall pid ''rebalanceSwapBegin'' [BigArg (sb_amountIn p), BigArg (sb_minOut p)]
       [(''reserve'', sb_reserve p), (''delegate'', sb_delegate p), (''signer'', sb_signer p),
        (''reserveAssetSell'', find_pda w (ReserveAsset (sb_reserve p) (sb_mintSell p)) pid),
        (''vaultSell'', find_pda w (ReserveVault (sb_reserve p) (sb_mintSell p)) pid),
        (''mintSell'', sb_mintSell p), (''signerSellAccount'', sb_signerSellAccount p),
        (''reserveAssetBuy'', find_pda w (ReserveAsset (sb_reserve p) (sb_mintBuy p)) pid),
        (''vaultBuy'', find_pda w (ReserveVault (sb_reserve p) (sb_mintBuy p)) pid),
        (''mintBuy'', sb_mintBuy p), (''signerBuyAccount'', sb_signerBuyAccount p),
        (''vaultAuthority'', find_pda w (VaultAuthority (sb_reserve p)) pid),
        (''ticket'', findRebalanceTicket w (sb_reserve p) pid),
        (''settlementKeeperConfig'', find_pda w SettlementKeeperConfig pid),
        (''feeQuoteSigner'', sb_feeQuoteSigner p), (''instructionsSysvar'', INSTRUCTIONS_SYSVAR w),
        (''tokenProgramSell'', asset_program w (sb_tokenProgramSell p)), (''systemProgram'', SYSTEM_PROGRAM_ID w)] []"

record swap_end =
  se_reserve :: pubkey
  se_signer :: pubkey
  se_mintBuy :: pubkey
  se_signerBuyAccount :: pubkey
  se_tokenProgramBuy :: "pubkey option"

definition buildRebalanceSwapEndInstruction :: "web3 \<Rightarrow> pubkey \<Rightarrow> swap_end \<Rightarrow> anchor_call" where
  "buildRebalanceSwapEndInstruction w pid p =
     pcall pid ''rebalanceSwapEnd'' []
       [(''reserve'', se_reserve p), (''signer'', se_signer p), (''ticket'', findRebalanceTicket w (se_reserve p) pid),
        (''mintBuy'', se_mintBuy p), (''signerBuyAccount'', se_signerBuyAccount p),
        (''vaultBuy'', find_pda w (ReserveVault (se_reserve p) (se_mintBuy p)) pid),
        (''tokenProgramBuy'', asset_program w (se_tokenProgramBuy p))] []"

record compact_removal =
  rc_reserve :: pubkey
  rc_reserveManager :: pubkey
  rc_signer :: pubkey
  rc_delegate :: pubkey
  rc_assetMint :: pubkey
  rc_assetTokenProgram :: "pubkey option"
  rc_lastAssetMint :: "pubkey option"

definition buildRemoveReserveAssetCompactInstruction :: "web3 \<Rightarrow> pubkey \<Rightarrow> compact_removal \<Rightarrow> anchor_call" where
  "buildRemoveReserveAssetCompactInstruction w pid p =
     pcall pid ''removeReserveAssetCompact'' []
       [(''reserve'', rc_reserve p), (''reserveAsset'', find_pda w (ReserveAsset (rc_reserve p) (rc_assetMint p)) pid),
        (''assetMint'', rc_assetMint p), (''vault'', find_pda w (ReserveVault (rc_reserve p) (rc_assetMint p)) pid),
        (''lastReserveAsset'', case rc_lastAssetMint p of
            Some m \<Rightarrow> find_pda w (ReserveAsset (rc_reserve p) m) pid | None \<Rightarrow> pid),
        (''vaultAuthority'', find_pda w (VaultAuthority (rc_reserve p)) pid), (''manager'', rc_reserveManager p),
        (''delegate'', rc_delegate p), (''signer'', rc_signer p),
        (''tokenProgram'', asset_program w (rc_assetTokenProgram p))] []"

section \<open>Properties\<close>

lemma withheld_comparator: "comparator (\<lambda>x y. snd y > (snd x :: int))"
  by (auto simp: comparator_def)

lemma account_named_pcall [simp]:
  "account_named (pcall pid m args accounts rest) name = map_of accounts name"
  by (induction accounts) (auto simp: account_named_def pcall_def)

lemma pcall_simps [simp]:
  "call_args (pcall pid m args accounts rest) = args" "call_remaining (pcall pid m args accounts rest) = rest"
  "call_program (pcall pid m args accounts rest) = pid"
  by (simp_all add: pcall_def)


lemma nth_concat_blocks:
  assumes "\<forall>xs \<in> set xss. length xs = n" "i < length xss" "k < n"
  shows "concat xss ! (n * i + k) = xss ! i ! k"
  using assms
proof (induction xss arbitrary: i)
  case (Cons xs xss)
  then show ?case by (cases i) (auto simp: nth_append)
qed simp

lemma staging_metas_Inr [res_iff]:
  "staging_metas w authority leg = Inr ms \<longleftrightarrow>
   ms = leg_metas w leg (associatedTokenAddress w (ofBase58 w (zl_mint leg)) authority (leg_program w leg)) (leg_program w leg)"
  by (auto simp: staging_metas_def res_iff Let_def)

lemma redeem_stages:
  assumes "buildRedeemFeeVaultSharesInstruction w pid given resolved reserve rtm vaultAuthority payer assets shares = Inr c"
  shows "call_remaining c = concat (map (\<lambda>leg. leg_metas w leg (associatedTokenAddress w (ofBase58 w (zl_mint leg))
      (find_pda w (SettlementAuthority reserve) pid) (leg_program w leg)) (leg_program w leg)) assets)"
    "account_named c ''settlementAuthority'' = Some (find_pda w (SettlementAuthority reserve) pid)"
    "call_args c = [BigArg shares]"
proof -
  from assms obtain ms where ms: "rmap (staging_metas w (find_pda w (SettlementAuthority reserve) pid)) assets = Inr ms"
    and c: "call_remaining c = concat ms" "account_named c ''settlementAuthority'' = Some (find_pda w (SettlementAuthority reserve) pid)"
      "call_args c = [BigArg shares]"
    by (auto simp: buildRedeemFeeVaultSharesInstruction_def res_iff Let_def)
  have "ms = map (\<lambda>leg. leg_metas w leg (associatedTokenAddress w (ofBase58 w (zl_mint leg))
      (find_pda w (SettlementAuthority reserve) pid) (leg_program w leg)) (leg_program w leg)) assets"
    using rmap_all_Inr [of assets "staging_metas w (find_pda w (SettlementAuthority reserve) pid)"] ms
    by (simp add: staging_metas_Inr)
  with c show "call_remaining c = concat (map (\<lambda>leg. leg_metas w leg (associatedTokenAddress w (ofBase58 w (zl_mint leg))
      (find_pda w (SettlementAuthority reserve) pid) (leg_program w leg)) (leg_program w leg)) assets)" by simp
  show "account_named c ''settlementAuthority'' = Some (find_pda w (SettlementAuthority reserve) pid)"
    "call_args c = [BigArg shares]" by (fact c)+
qed

text \<open>
  The settlement pipeline hands over one account. The account that the redemption of
  fee shares pays a leg's asset into is the one whose spending the keeper is granted, for
  exactly the amount, and for the USDC leg it is the one the distribution pays out of; all
  three are owned by the Reserve's settlement authority.
\<close>

theorem settlement_pipeline_agrees:
  assumes "buildRedeemFeeVaultSharesInstruction w pid given resolved reserve rtm vaultAuthority payer assets shares = Inr redeem"
    and "i < length assets" "asset_program w program = leg_program w (assets ! i)"
    and "buildApproveSettlementSwapInstruction w pid reserve (ofBase58 w (zl_mint (assets ! i))) program keeper amount = Inr approve"
    and "buildDistributeFeeUsdcInstruction w pid reserve usdcMint treasury payer' recipients legacy = Inr distribute"
  shows "account_named approve ''stagingAta'' = Some (meta_key (call_remaining redeem ! (5 * i + 2))) \<and>
    isWritable (call_remaining redeem ! (5 * i + 2)) \<and> call_args approve = [BigArg amount] \<and>
    (ofBase58 w (zl_mint (assets ! i)) = usdcMint \<and> leg_program w (assets ! i) = TOKEN_PROGRAM_ID w \<longrightarrow>
      account_named distribute ''usdcStagingAta'' = account_named approve ''stagingAta'') \<and>
    account_named approve ''settlementAuthority'' = account_named redeem ''settlementAuthority'' \<and>
    account_named distribute ''settlementAuthority'' = account_named redeem ''settlementAuthority'' \<and>
    (recipients \<noteq> [] \<longrightarrow> length (call_remaining distribute) = length recipients)"
proof -
  let ?sa = "find_pda w (SettlementAuthority reserve) pid" and ?leg = "assets ! i"
  let ?ata = "associatedTokenAddress w (ofBase58 w (zl_mint ?leg)) ?sa (leg_program w ?leg)"
  note r = redeem_stages [OF assms(1)]
  have at: "call_remaining redeem ! (5 * i + 2) = leg_metas w ?leg ?ata (leg_program w ?leg) ! 2"
    unfolding r(1) using assms(2) by (subst nth_concat_blocks) auto
  have a: "account_named approve ''stagingAta'' = Some ?ata" "account_named approve ''settlementAuthority'' = Some ?sa"
    "call_args approve = [BigArg amount]"
    using assms(3,4) by (auto simp: buildApproveSettlementSwapInstruction_def res_iff Let_def)
  have d: "account_named distribute ''usdcStagingAta'' = Some (associatedTokenAddress w usdcMint ?sa (TOKEN_PROGRAM_ID w))"
    "account_named distribute ''settlementAuthority'' = Some ?sa"
    "recipients \<noteq> [] \<longrightarrow> length (call_remaining distribute) = length recipients"
    using assms(5) by (auto simp: buildDistributeFeeUsdcInstruction_def usdc_recipients_def res_iff Let_def)
  show ?thesis using at a d r(2) by (auto simp: leg_metas_def meta_def)
qed

theorem settlement_pipeline_agrees_witness:
  "\<exists>redeem approve distribute.
     buildRedeemFeeVaultSharesInstruction plain_web3 [3] (Some [2]) (Inl ReadFailed) [6] [7] [8] [1] [demo_leg] 5 = Inr redeem \<and>
     buildApproveSettlementSwapInstruction plain_web3 [3] [6] [65] None [1] 9 = Inr approve \<and>
     buildDistributeFeeUsdcInstruction plain_web3 [3] [6] [65] [4] [1] [''B''] None = Inr distribute \<and>
     account_named approve ''stagingAta'' = Some (meta_key (call_remaining redeem ! 2)) \<and>
     account_named distribute ''usdcStagingAta'' = account_named approve ''stagingAta''"
proof -
  have mint: "ofBase58 plain_web3 (zl_mint ([demo_leg] ! 0)) = [65]" by (simp add: plain_web3_def demo_leg_def)
  have prog: "asset_program plain_web3 None = leg_program plain_web3 ([demo_leg] ! 0)"
    "leg_program plain_web3 ([demo_leg] ! 0) = TOKEN_PROGRAM_ID plain_web3"
    by (simp_all add: asset_program_def leg_program_def resolveLegTokenProgram_def demo_leg_def)
  obtain r where r: "buildRedeemFeeVaultSharesInstruction plain_web3 [3] (Some [2]) (Inl ReadFailed) [6] [7] [8] [1] [demo_leg] 5 = Inr r"
    by (simp add: buildRedeemFeeVaultSharesInstruction_def reserve_token_program_def assetAta_def
        associated_address_def staging_metas_def Let_def)
  obtain a where a: "buildApproveSettlementSwapInstruction plain_web3 [3] [6] [65] None [1] 9 = Inr a"
    by (simp add: buildApproveSettlementSwapInstruction_def assetAta_def associated_address_def Let_def)
  obtain d where d: "buildDistributeFeeUsdcInstruction plain_web3 [3] [6] [65] [4] [1] [''B''] None = Inr d"
    by (simp add: buildDistributeFeeUsdcInstruction_def usdc_recipients_def Let_def)
  show ?thesis
    using settlement_pipeline_agrees [OF r _ prog(1) a [folded mint] d] r a d mint prog(2) by (simp add: numeral_2_eq_2)
qed

text \<open>
  The transfer-fee update is submitted exactly for the whole numbers of basis points
  from 0 to 25, with that number as its argument; any other number, fractions and NaN
  included, is refused before anything is built.
\<close>

theorem transfer_fee_guard_exact:
  "case buildUpdateTransferFeeInstruction w pid reserve authority bps of
     Inr c \<Rightarrow> (\<exists>n. 0 \<le> n \<and> n \<le> 25 \<and> bps = Fin (of_int n) \<and> call_args c = [NumArg n]) \<and>
       account_named c ''reserveTokenMint'' = Some (find_pda w (ReserveTokenMint reserve) pid)
   | Inl e \<Rightarrow> e = TransferFeeOutOfRange bps \<and> \<not> (\<exists>n :: int. 0 \<le> n \<and> n \<le> 25 \<and> bps = Fin (of_int n))"
proof (cases bps)
  case (Fin a)
  show ?thesis
  proof (cases "of_int \<lfloor>a\<rfloor> = a")
    case True
    then obtain n where a: "a = of_int n" by metis
    then show ?thesis
      by (auto simp: Fin a buildUpdateTransferFeeInstruction_def MAX_RESERVE_TOKEN_TRANSFER_FEE_BPS_def)
  next
    case False
    then have "\<not> (\<exists>n. a = of_int n)" by auto
    with False show ?thesis by (auto simp: Fin buildUpdateTransferFeeInstruction_def)
  qed
qed (simp_all add: buildUpdateTransferFeeInstruction_def)

text \<open>
  The accounts to harvest come largest first, every one holds something, and none that
  holds something is missing.
\<close>

lemma withheld_accounts_sorted:
  "sorted_wrt (\<lambda>x y. snd y \<le> snd x) (findWithheldFeeAccounts withheld accounts) \<and>
   set (findWithheldFeeAccounts withheld accounts) =
     {(acc_address a, n) | a n. a \<in> set accounts \<and> withheld a = Inr (Some n) \<and> 0 < n}"
proof -
  have "sorted_wrt (\<lambda>x y. \<not> snd y > snd x) (findWithheldFeeAccounts withheld accounts)"
    unfolding findWithheldFeeAccounts_def by (rule sorted_sort_by [OF withheld_comparator])
  moreover have "set (findWithheldFeeAccounts withheld accounts) =
     {(acc_address a, n) | a n. a \<in> set accounts \<and> withheld a = Inr (Some n) \<and> 0 < n}"
    by (force simp: findWithheldFeeAccounts_def withheld_of_def Let_def split: sum.splits option.splits if_splits)
  ultimately show ?thesis by (simp add: not_less)
qed

lemma close_remaining:
  "map meta_key (call_remaining (buildCloseReserveInstruction w pid reserve rtm manager mints b)) =
   concat (map (\<lambda>m. [find_pda w (ReserveAsset reserve m) pid, find_pda w (ReserveVault reserve m) pid]) mints)"
  by (induction mints) (simp_all add: buildCloseReserveInstruction_def meta_def)

lemma asset_accounts_distinct:
  assumes "collision_free w pid" "length reserve = 32" "\<forall>m \<in> set mints. length m = 32" "distinct mints"
  shows "distinct (concat (map (\<lambda>m. [find_pda w (ReserveAsset reserve m) pid, find_pda w (ReserveVault reserve m) pid]) mints))"
  using assms(3,4) by (induction mints) (auto simp: find_pda_inject [OF assms(1)] assms(2))

lemma seed_metas_keys:
  "seed_metas w manager a = Inr xs \<Longrightarrow> meta_key (xs ! 0) = aa_reserveAsset a \<and> meta_key (xs ! 1) = aa_vault a"
  by (auto simp: seed_metas_def res_iff Let_def meta_def)

lemma seed_remaining_keys:
  assumes "seed_remaining w manager assets = Inr metas" "i < length assets"
  shows "meta_key (metas ! (5 * i)) = aa_reserveAsset (assets ! i)" "meta_key (metas ! (5 * i + 1)) = aa_vault (assets ! i)"
proof -
  from assms(1) obtain ms where ms: "rmap (seed_metas w manager) assets = Inr ms" and m: "metas = concat ms"
    by (auto simp: seed_remaining_def res_iff)
  have each: "list_all2 (\<lambda>a xs. seed_metas w manager a = Inr xs) assets ms" by (rule rmap_Inr_list_all2 [OF ms])
  have "seed_metas w manager (assets ! i) = Inr (ms ! i)" using each assms(2) by (simp add: list_all2_conv_all_nth)
  moreover have len: "\<forall>xs \<in> set ms. length xs = 5"
    using each by (induction rule: list_all2_induct) (auto simp: seed_metas_def res_iff Let_def)
  moreover have "i < length ms" using each assms(2) by (simp add: list_all2_lengthD)
  ultimately show "meta_key (metas ! (5 * i)) = aa_reserveAsset (assets ! i)"
    "meta_key (metas ! (5 * i + 1)) = aa_vault (assets ! i)"
    using nth_concat_blocks [OF len, of i 0] nth_concat_blocks [OF len, of i 1] seed_metas_keys
    by (simp_all add: m)
qed

text \<open>
  From creation to closing the transactions name the same accounts. The addresses
  derived for a new Reserve's assets are those the seed instruction deposits into and those
  the closing instruction passes, in the same order; and, the address hash being free of
  collisions, no two of the accounts that closing passes are the same, which the program
  would otherwise reject.
\<close>

theorem lifecycle_accounts_agree:
  assumes "collision_free w pid" "length reserve = 32" "\<forall>m \<in> set mints. length m = 32" "distinct mints"
    and "assets = map (\<lambda>m. deriveReserveAssetAddresses w reserve m pid (programs m)) mints"
    and "buildSeedReserveInstruction w pid a assets manager seeds initial = Inr seed"
  shows "map meta_key (call_remaining (buildCloseReserveInstruction w pid reserve rtm manager mints b)) =
      concat (map (\<lambda>x. [aa_reserveAsset x, aa_vault x]) assets) \<and>
    distinct (map meta_key (call_remaining (buildCloseReserveInstruction w pid reserve rtm manager mints b))) \<and>
    map meta_key (call_remaining (buildUpdateTargetsInstruction w pid reserve manager delegate mints weights)) =
      map aa_reserveAsset assets \<and>
    (\<forall>i < length mints. meta_key (call_remaining seed ! (5 * i)) = aa_reserveAsset (assets ! i) \<and>
      meta_key (call_remaining seed ! (5 * i + 1)) = aa_vault (assets ! i))"
proof -
  from assms(6) obtain metas where metas: "seed_remaining w manager assets = Inr metas" "call_remaining seed = metas"
    by (auto simp: buildSeedReserveInstruction_def res_iff)
  have "concat (map (\<lambda>x. [aa_reserveAsset x, aa_vault x]) assets) =
      concat (map (\<lambda>m. [find_pda w (ReserveAsset reserve m) pid, find_pda w (ReserveVault reserve m) pid]) mints)"
    by (simp add: assms(5) deriveReserveAssetAddresses_def o_def)
  moreover have "map meta_key (call_remaining (buildUpdateTargetsInstruction w pid reserve manager delegate mints weights)) =
      map aa_reserveAsset assets"
    by (simp add: buildUpdateTargetsInstruction_def assms(5) deriveReserveAssetAddresses_def meta_def)
  ultimately show ?thesis
    using seed_remaining_keys [OF metas(1)] metas(2) asset_accounts_distinct [OF assms(1-4)]
    by (simp add: close_remaining assms(5))
qed

definition demo_mints :: "pubkey list" where
  "demo_mints = [replicate 32 1, replicate 32 2]"

theorem lifecycle_accounts_agree_witness:
  "distinct (map meta_key (call_remaining (buildCloseReserveInstruction plain_web3 [3] (replicate 32 6) [7] [1] demo_mints True)))"
proof -
  let ?r = "replicate 32 6" and ?w = plain_web3
  define assets where "assets = map (\<lambda>m. deriveReserveAssetAddresses ?w ?r m [3] None) demo_mints"
  have free: "collision_free ?w [3]" by (simp add: collision_free_def plain_web3_def)
  have "\<exists>seed. buildSeedReserveInstruction ?w [3] (deriveNewReserveAddresses ?w [3] 0) assets [1] [5, 6] 7 = Inr seed"
    by (simp add: buildSeedReserveInstruction_def seed_remaining_def seed_metas_def assets_def demo_mints_def
        assetAta_def associated_address_def plain_web3_def Let_def)
  then obtain seed where
    seed: "buildSeedReserveInstruction ?w [3] (deriveNewReserveAddresses ?w [3] 0) assets [1] [5, 6] 7 = Inr seed" ..
  have mints: "\<forall>m \<in> set demo_mints. length m = 32" "distinct demo_mints" by (simp_all add: demo_mints_def)
  show ?thesis
    using lifecycle_accounts_agree [OF free length_replicate mints assets_def seed, of "[7]" True "[2]" "[5000, 5000]"]
    by (elim conjE)
qed

end
