(* ===== verification/Rebalance.thy ===== *)
theory Rebalance
  imports Fee_Settlement
begin

text \<open>
  The DevNet pool (\<open>ammPda.ts\<close>, \<open>ammInstructions.ts\<close>) and the rebalancing through it
  (\<open>rebalanceExecutionInstructions.ts\<close>, all under \<open>packages/sdk/src\<close>): the addresses and
  calls of the pool program, the call that executes one leg, and the planner that turns
  target weights into legs. The planner's dollar values are binary64 numbers and its loop
  is \<open>for (;;)\<close>, a partial function until it is shown to return.
\<close>

section \<open>The pool program\<close>

definition SSR_DEVNET_AMM_PROGRAM_ID :: "web3 \<Rightarrow> pubkey" where
  "SSR_DEVNET_AMM_PROGRAM_ID w = ofBase58 w ''AJbXGWSU1x9LtJW7uRKJCwS3JZYqXwqHXpX6erY7dS6c''"

definition findAmmConfig :: "web3 \<Rightarrow> pubkey \<Rightarrow> pubkey" where
  "findAmmConfig w pid = findProgramAddressSync w [buffer_of ''amm_config''] pid"

definition findAmmPool :: "web3 \<Rightarrow> pubkey \<Rightarrow> pubkey \<Rightarrow> pubkey \<Rightarrow> pubkey" where
  "findAmmPool w mintA mintB pid = findProgramAddressSync w [buffer_of ''amm_pool'', mintA, mintB] pid"

definition findAmmVaultAuthority :: "web3 \<Rightarrow> pubkey \<Rightarrow> pubkey \<Rightarrow> pubkey" where
  "findAmmVaultAuthority w pool pid = findProgramAddressSync w [buffer_of ''amm_vault_authority'', pool] pid"

definition findAmmVault :: "web3 \<Rightarrow> pubkey \<Rightarrow> pubkey \<Rightarrow> pubkey \<Rightarrow> pubkey" where
  "findAmmVault w pool mint pid = findProgramAddressSync w [buffer_of ''amm_vault'', pool, mint] pid"

definition buildInitializeAmmConfigInstruction :: "web3 \<Rightarrow> pubkey \<Rightarrow> pubkey \<Rightarrow> pubkey \<Rightarrow> int \<Rightarrow> anchor_call" where
  "buildInitializeAmmConfigInstruction w pid authority hubMint defaultFeeBps =
     pcall pid ''initializeAmmConfig'' [KeyArg hubMint, NumArg defaultFeeBps]
       [(''ammConfig'', findAmmConfig w (SSR_DEVNET_AMM_PROGRAM_ID w)), (''authority'', authority),
        (''systemProgram'', SYSTEM_PROGRAM_ID w)] []"

text \<open>The accounts of a pool: config, pool, the two mints and the two vaults.\<close>

definition pool_accounts :: "web3 \<Rightarrow> pubkey \<Rightarrow> pubkey \<Rightarrow> (string \<times> pubkey) list" where
  "pool_accounts w mintA mintB =
     (let amm = SSR_DEVNET_AMM_PROGRAM_ID w; pool = findAmmPool w mintA mintB amm in
      [(''ammConfig'', findAmmConfig w amm), (''pool'', pool), (''mintA'', mintA), (''mintB'', mintB),
       (''vaultA'', findAmmVault w pool mintA amm), (''vaultB'', findAmmVault w pool mintB amm)])"

definition pool_authority :: "web3 \<Rightarrow> pubkey \<Rightarrow> pubkey \<Rightarrow> (string \<times> pubkey) list" where
  "pool_authority w mintA mintB =
     (let amm = SSR_DEVNET_AMM_PROGRAM_ID w in
      [(''vaultAuthority'', findAmmVaultAuthority w (findAmmPool w mintA mintB amm) amm)])"

definition buildCreatePoolInstruction :: "web3 \<Rightarrow> pubkey \<Rightarrow> pubkey \<Rightarrow> pubkey \<Rightarrow> pubkey \<Rightarrow> int \<Rightarrow> anchor_call" where
  "buildCreatePoolInstruction w pid authority mintA mintB feeBps =
     pcall pid ''createPool'' [NumArg feeBps]
       (pool_accounts w mintA mintB @ pool_authority w mintA mintB @
        [(''authority'', authority), (''tokenProgram'', TOKEN_PROGRAM_ID w), (''systemProgram'', SYSTEM_PROGRAM_ID w)]) []"

definition owner_accounts :: "web3 \<Rightarrow> string \<Rightarrow> string \<Rightarrow> pubkey \<Rightarrow> pubkey \<Rightarrow> pubkey \<Rightarrow> build_error + (string \<times> pubkey) list" where
  "owner_accounts w nameA nameB mintA mintB owner =
     rbind (assetAta w mintA owner (TOKEN_PROGRAM_ID w) False) (\<lambda>a.
     rbind (assetAta w mintB owner (TOKEN_PROGRAM_ID w) False) (\<lambda>b. Inr [(nameA, a), (nameB, b)]))"

definition buildAddLiquidityInstruction ::
  "web3 \<Rightarrow> pubkey \<Rightarrow> pubkey \<Rightarrow> pubkey \<Rightarrow> pubkey \<Rightarrow> int \<Rightarrow> int \<Rightarrow> build_error + anchor_call" where
  "buildAddLiquidityInstruction w pid authority mintA mintB amountA amountB =
     rbind (owner_accounts w ''authorityTokenA'' ''authorityTokenB'' mintA mintB authority) (\<lambda>own.
       Inr (pcall pid ''addLiquidity'' [BigArg amountA, BigArg amountB]
         (pool_accounts w mintA mintB @ own @ [(''authority'', authority), (''tokenProgram'', TOKEN_PROGRAM_ID w)]) []))"

definition buildRemoveLiquidityInstruction ::
  "web3 \<Rightarrow> pubkey \<Rightarrow> pubkey \<Rightarrow> pubkey \<Rightarrow> pubkey \<Rightarrow> int \<Rightarrow> int \<Rightarrow> build_error + anchor_call" where
  "buildRemoveLiquidityInstruction w pid authority mintA mintB amountA amountB =
     rbind (owner_accounts w ''authorityTokenA'' ''authorityTokenB'' mintA mintB authority) (\<lambda>own.
       Inr (pcall pid ''removeLiquidity'' [BigArg amountA, BigArg amountB]
         (pool_accounts w mintA mintB @ pool_authority w mintA mintB @ own @
          [(''authority'', authority), (''tokenProgram'', TOKEN_PROGRAM_ID w)]) []))"

definition trader_account :: "web3 \<Rightarrow> pubkey option \<Rightarrow> pubkey \<Rightarrow> pubkey \<Rightarrow> build_error + pubkey" where
  \<comment> \<open>\<open>params.traderTokenA ?? getAssociatedTokenAddressSync(mintA, trader)\<close>\<close>
  "trader_account w given mint trader =
     (case given of Some a \<Rightarrow> Inr a | None \<Rightarrow> assetAta w mint trader (TOKEN_PROGRAM_ID w) False)"

definition buildSwapInstruction ::
  "web3 \<Rightarrow> pubkey \<Rightarrow> pubkey \<Rightarrow> pubkey \<Rightarrow> pubkey \<Rightarrow> int \<Rightarrow> int \<Rightarrow> bool \<Rightarrow> pubkey option \<Rightarrow> pubkey option \<Rightarrow> build_error + anchor_call" where
  "buildSwapInstruction w pid trader mintA mintB amountIn minimumAmountOut aToB traderTokenA traderTokenB =
     rbind (trader_account w traderTokenA mintA trader) (\<lambda>a.
     rbind (trader_account w traderTokenB mintB trader) (\<lambda>b.
       Inr (pcall pid ''swap'' [BigArg amountIn, BigArg minimumAmountOut, BoolArg aToB]
         (pool_accounts w mintA mintB @ pool_authority w mintA mintB @
          [(''traderTokenA'', a), (''traderTokenB'', b), (''trader'', trader), (''tokenProgram'', TOKEN_PROGRAM_ID w)]) [])))"

definition buildPauseAmmInstruction :: "web3 \<Rightarrow> pubkey \<Rightarrow> pubkey \<Rightarrow> anchor_call" where
  "buildPauseAmmInstruction w pid authority =
     pcall pid ''pauseAmm'' [] [(''ammConfig'', findAmmConfig w (SSR_DEVNET_AMM_PROGRAM_ID w)), (''authority'', authority)] []"

definition buildUnpauseAmmInstruction :: "web3 \<Rightarrow> pubkey \<Rightarrow> pubkey \<Rightarrow> anchor_call" where
  "buildUnpauseAmmInstruction w pid authority =
     pcall pid ''unpauseAmm'' [] [(''ammConfig'', findAmmConfig w (SSR_DEVNET_AMM_PROGRAM_ID w)), (''authority'', authority)] []"

definition buildExecuteRebalanceLegInstruction ::
  "web3 \<Rightarrow> pubkey \<Rightarrow> pubkey \<Rightarrow> pubkey \<Rightarrow> pubkey \<Rightarrow> pubkey \<Rightarrow> pubkey \<Rightarrow> int \<Rightarrow> int \<Rightarrow> pubkey \<Rightarrow> anchor_call" where
  "buildExecuteRebalanceLegInstruction w pid reserve signer delegate mintSell mintBuy amountIn minimumAmountOut amm =
     (let pool = findAmmPool w mintSell mintBuy amm in
      pcall pid ''executeRebalanceLeg'' [BigArg amountIn, BigArg minimumAmountOut]
        [(''reserve'', reserve), (''delegate'', delegate), (''signer'', signer),
         (''reserveAssetSell'', find_pda w (ReserveAsset reserve mintSell) pid),
         (''reserveVaultSell'', find_pda w (ReserveVault reserve mintSell) pid), (''mintSell'', mintSell),
         (''reserveAssetBuy'', find_pda w (ReserveAsset reserve mintBuy) pid),
         (''reserveVaultBuy'', find_pda w (ReserveVault reserve mintBuy) pid), (''mintBuy'', mintBuy),
         (''vaultAuthority'', find_pda w (VaultAuthority reserve) pid), (''ammProgram'', amm),
         (''ammConfig'', findAmmConfig w amm), (''ammPool'', pool),
         (''ammVaultA'', findAmmVault w pool mintSell amm), (''ammVaultB'', findAmmVault w pool mintBuy amm),
         (''ammVaultAuthority'', findAmmVaultAuthority w pool amm), (''tokenProgram'', TOKEN_PROGRAM_ID w)] [])"

section \<open>The planner\<close>

record plan_asset =
  pa_mint :: string
  pa_vaultBalanceRaw :: int
  pa_decimals :: nat

record rebalance_plan_leg =
  pl_mintSell :: string
  pl_mintBuy :: string
  pl_usdValue :: number

definition asset_usd :: "(string \<times> number) list \<Rightarrow> plan_asset \<Rightarrow> build_error + number" where
  "asset_usd testPricesUsd a = (case dget testPricesUsd (pa_mint a) of
      None \<Rightarrow> Inl (NoTestPrice (pa_mint a))
    | Some price \<Rightarrow> Inr (num_mul (num_div (num_of_int (pa_vaultBalanceRaw a)) (pow10 (pa_decimals a))) price))"

text \<open>
  The inner \<open>for\<close>: the first index of the largest and of the smallest working deviation;
  \<open>None\<close> is the index -1.
\<close>

definition pick :: "(number \<Rightarrow> number \<Rightarrow> bool) \<Rightarrow> number list \<Rightarrow> nat option \<Rightarrow> nat \<Rightarrow> nat option" where
  "pick better working idx i = (case idx of
      None \<Rightarrow> Some i
    | Some j \<Rightarrow> if better (working ! i) (working ! j) then Some i else Some j)"

definition sell_index :: "number list \<Rightarrow> nat option" where
  "sell_index working = foldl (pick (\<lambda>x y. num_less y x) working) None [0..<length working]"

definition buy_index :: "number list \<Rightarrow> nat option" where
  "buy_index working = foldl (pick num_less working) None [0..<length working]"

definition leg_of :: "number list \<Rightarrow> number \<Rightarrow> (nat \<times> nat \<times> number) option" where
  \<comment> \<open>the pair and amount of the next leg, or \<open>break\<close>\<close>
  "leg_of working toleranceUsd = (case (sell_index working, buy_index working) of
      (Some s, Some b) \<Rightarrow>
        if s = b then None
        else if num_le (working ! s) toleranceUsd \<or> num_le (num_neg toleranceUsd) (working ! b) then None
        else Some (s, b, num_min (working ! s) (num_neg (working ! b)))
    | _ \<Rightarrow> None)"

definition settle_leg :: "number list \<Rightarrow> nat \<times> nat \<times> number \<Rightarrow> number list" where
  "settle_leg working leg = (case leg of (s, b, usd) \<Rightarrow>
     let w1 = working[s := num_sub (working ! s) usd] in w1[b := num_add (w1 ! b) usd])"

partial_function (option) rebalance_loop ::
  "plan_asset list \<Rightarrow> number \<Rightarrow> number list \<Rightarrow> rebalance_plan_leg list \<Rightarrow> rebalance_plan_leg list option" where
  "rebalance_loop assets toleranceUsd working legs =
     (case leg_of working toleranceUsd of
        None \<Rightarrow> Some legs
      | Some l \<Rightarrow> rebalance_loop assets toleranceUsd (settle_leg working l)
          (legs @ [\<lparr>pl_mintSell = pa_mint (assets ! fst l), pl_mintBuy = pa_mint (assets ! fst (snd l)),
                    pl_usdValue = snd (snd l)\<rparr>]))"

definition deviations :: "number list \<Rightarrow> int list \<Rightarrow> number list" where
  "deviations currentUsd targetWeightsBps =
     (let totalUsd = foldl num_add (Fin 0) currentUsd in
      map2 (\<lambda>usd bps. num_sub usd (num_div (num_mul totalUsd (Fin (of_int bps))) (Fin 10000))) currentUsd targetWeightsBps)"

definition computeRebalancePlan ::
  "plan_asset list \<Rightarrow> int list \<Rightarrow> (string \<times> number) list \<Rightarrow> number \<Rightarrow> build_error + rebalance_plan_leg list option" where
  "computeRebalancePlan assets targetWeightsBps testPricesUsd toleranceUsd =
     (if length assets \<noteq> length targetWeightsBps then Inl PlanLengthMismatch
      else rbind (rmap (asset_usd testPricesUsd) assets) (\<lambda>currentUsd.
        Inr (rebalance_loop assets toleranceUsd (deviations currentUsd targetWeightsBps) [])))"


section \<open>Properties\<close>

text \<open>Neither comparison holds of a NaN, so a NaN is only picked when it comes first.\<close>

lemma num_less_NaN [simp]: "\<not> num_less NaN x" "\<not> num_less x NaN"
  by (cases x; simp)+

lemma pick_range:
  assumes "\<And>x. \<not> better NaN x"
  shows "(foldl (pick better working) None [0..<n] = None \<longrightarrow> n = 0) \<and>
    (\<forall>s. foldl (pick better working) None [0..<n] = Some s \<longrightarrow> s < n \<and> (working ! s = NaN \<longrightarrow> s = 0))"
proof (induction n)
  case (Suc n)
  show ?case
  proof (cases "foldl (pick better working) None [0..<n]")
    case None
    then have "n = 0" using Suc.IH [THEN conjunct1] by blast
    then show ?thesis by (simp add: pick_def)
  next
    case (Some j)
    then have j: "j < n" "working ! j = NaN \<longrightarrow> j = 0" using Suc.IH [THEN conjunct2] by blast+
    have step: "foldl (pick better working) None [0..<Suc n] =
        (if better (working ! n) (working ! j) then Some n else Some j)" by (simp add: Some pick_def)
    show ?thesis unfolding step using j assms by auto
  qed
qed simp

lemma pick_nan_first:
  assumes "\<And>x. \<not> better x NaN" "working ! 0 = NaN"
  shows "foldl (pick better working) None [0..<Suc n] = Some 0"
  by (induction n) (use assms in \<open>auto simp: pick_def\<close>)

lemma index_props:
  "sell_index working = Some s \<Longrightarrow> s < length working \<and> (working ! s = NaN \<longrightarrow> s = 0)"
  "buy_index working = Some b \<Longrightarrow> b < length working \<and> (working ! b = NaN \<longrightarrow> b = 0)"
  using pick_range [of "\<lambda>x y. num_less y x" working "length working"] pick_range [of num_less working "length working"]
  by (simp_all add: sell_index_def buy_index_def)

lemma index_of_nan:
  assumes "working \<noteq> []" "working ! 0 = NaN"
  shows "sell_index working = Some 0" "buy_index working = Some 0"
proof -
  obtain n where n: "length working = Suc n" using assms(1) by (cases working) auto
  show "sell_index working = Some 0" "buy_index working = Some 0"
    unfolding sell_index_def buy_index_def n by (rule pick_nan_first; use assms in simp)+
qed

text \<open>An open deviation is one that a leg may still act on.\<close>

definition live :: "number \<Rightarrow> bool" where
  "live x \<longleftrightarrow> x \<noteq> Fin 0 \<and> x \<noteq> NaN"

lemma leg_of_Some:
  assumes "leg_of working tol = Some (s, b, usd)" "num_le (Fin 0) tol"
  shows "s < length working" "b < length working" "s \<noteq> b" "live (working ! s)" "live (working ! b)"
    "num_less tol usd" "\<not> live (num_sub (working ! s) usd) \<or> \<not> live (num_add (working ! b) usd)"
proof -
  from assms(1) have idx: "sell_index working = Some s" "buy_index working = Some b" "s \<noteq> b"
    and big: "\<not> num_le (working ! s) tol" "\<not> num_le (num_neg tol) (working ! b)"
    and usd: "usd = num_min (working ! s) (num_neg (working ! b))"
    by (auto simp: leg_of_def split: option.splits if_splits)
  show "s < length working" "b < length working" "s \<noteq> b"
    using index_props(1) [OF idx(1)] index_props(2) [OF idx(2)] idx(3) by simp_all
  then have "working ! 0 \<noteq> NaN" using index_of_nan [of working] idx by fastforce
  then have nan: "working ! s \<noteq> NaN" "working ! b \<noteq> NaN"
    using index_props(1) [OF idx(1)] index_props(2) [OF idx(2)] by force+
  obtain t where t: "tol = Fin t" "0 \<le> t"
    using assms(2) big(1) nan(1) by (cases tol; cases "working ! s") (auto simp: num_le_def num_eq_def)
  show "live (working ! s)" "live (working ! b)" "num_less tol usd"
    "\<not> live (num_sub (working ! s) usd) \<or> \<not> live (num_add (working ! b) usd)"
    using nan big t unfolding usd
    by (cases "working ! s"; cases "working ! b";
        auto simp: live_def num_le_def num_eq_def num_min_def num_sub_def)+
qed

lemma settle_leg_live:
  assumes "leg_of working tol = Some l" "num_le (Fin 0) tol"
  shows "length (settle_leg working l) = length working"
    "card {i. i < length working \<and> live (settle_leg working l ! i)} < card {i. i < length working \<and> live (working ! i)}"
proof -
  obtain s b usd where l: "l = (s, b, usd)" by (metis prod_cases3)
  note p = leg_of_Some [OF assms(1) [unfolded l] assms(2)]
  show "length (settle_leg working l) = length working" by (simp add: settle_leg_def l Let_def)
  have new: "settle_leg working l ! i = (if i = b then num_add (working ! b) usd
      else if i = s then num_sub (working ! s) usd else working ! i)" if "i < length working" for i
    using that p(1-3) by (simp add: settle_leg_def l Let_def nth_list_update)
  have "{i. i < length working \<and> live (settle_leg working l ! i)} \<subset> {i. i < length working \<and> live (working ! i)}"
  proof
    show "{i. i < length working \<and> live (settle_leg working l ! i)} \<subseteq> {i. i < length working \<and> live (working ! i)}"
      using new p(4,5) by (auto split: if_splits)
    have "\<exists>i < length working. live (working ! i) \<and> \<not> live (settle_leg working l ! i)"
      using p(7) new [OF p(1)] new [OF p(2)] p(1-5) by metis
    then show "{i. i < length working \<and> live (settle_leg working l ! i)} \<noteq> {i. i < length working \<and> live (working ! i)}"
      by blast
  qed
  then show "card {i. i < length working \<and> live (settle_leg working l ! i)} < card {i. i < length working \<and> live (working ! i)}"
    by (intro psubset_card_mono) simp_all
qed

definition sound_leg :: "plan_asset list \<Rightarrow> number \<Rightarrow> rebalance_plan_leg \<Rightarrow> bool" where
  "sound_leg assets tol leg \<longleftrightarrow> num_less tol (pl_usdValue leg) \<and>
     (\<exists>s b. s < length assets \<and> b < length assets \<and> s \<noteq> b \<and>
        pl_mintSell leg = pa_mint (assets ! s) \<and> pl_mintBuy leg = pa_mint (assets ! b))"

lemma rebalance_loop_returns:
  assumes "num_le (Fin 0) tol" "length working = length assets"
  shows "\<exists>more. rebalance_loop assets tol working legs = Some (legs @ more) \<and>
    length more \<le> card {i. i < length working \<and> live (working ! i)} \<and> (\<forall>leg \<in> set more. sound_leg assets tol leg)"
  using assms(2)
proof (induction "card {i. i < length working \<and> live (working ! i)}" arbitrary: working legs rule: less_induct)
  case less
  show ?case
  proof (cases "leg_of working tol")
    case None
    then show ?thesis by (simp add: rebalance_loop.simps [of assets tol working legs])
  next
    case (Some l)
    obtain s b usd where l: "l = (s, b, usd)" by (metis prod_cases3)
    let ?leg = "\<lparr>pl_mintSell = pa_mint (assets ! s), pl_mintBuy = pa_mint (assets ! b), pl_usdValue = usd\<rparr>"
    note p = leg_of_Some [OF Some [unfolded l] assms(1)] and q = settle_leg_live [OF Some assms(1)]
    from less.hyps [of "settle_leg working l" "legs @ [?leg]"] q less.prems obtain more where
      more: "rebalance_loop assets tol (settle_leg working l) (legs @ [?leg]) = Some ((legs @ [?leg]) @ more)"
        "length more \<le> card {i. i < length working \<and> live (settle_leg working l ! i)}"
        "\<forall>leg \<in> set more. sound_leg assets tol leg" by auto
    have "sound_leg assets tol ?leg" using p less.prems by (auto simp: sound_leg_def)
    with more q(2) Some show ?thesis
      by (intro exI [of _ "?leg # more"]) (simp add: rebalance_loop.simps [of assets tol working legs] l)
  qed
qed

text \<open>
  C25: Planning a rebalance always returns. Whatever the balances, weights and prices, with
  rounding, infinities and NaN included, and with any tolerance that is not negative, the
  unbounded loop ends after at most one leg per asset; every leg moves value from one asset
  to a different one, and moves more than the tolerance.
\<close>

theorem rebalance_plan_returns:
  assumes "computeRebalancePlan assets targetWeightsBps prices tol = Inr r" "num_le (Fin 0) tol"
  shows "\<exists>legs. r = Some legs \<and> length legs \<le> length assets \<and> (\<forall>leg \<in> set legs. sound_leg assets tol leg)"
proof -
  from assms(1) obtain usd where usd: "rmap (asset_usd prices) assets = Inr usd" "length assets = length targetWeightsBps"
    and r: "r = rebalance_loop assets tol (deviations usd targetWeightsBps) []"
    by (auto simp: computeRebalancePlan_def res_iff split: if_splits)
  let ?w = "deviations usd targetWeightsBps"
  have len: "length ?w = length assets" using usd rmap_Inr_length by (fastforce simp: deviations_def Let_def)
  from rebalance_loop_returns [OF assms(2) len, of "[]"] obtain legs where
    legs: "r = Some legs" "length legs \<le> card {i. i < length ?w \<and> live (?w ! i)}" "\<forall>leg \<in> set legs. sound_leg assets tol leg"
    unfolding r by auto
  have "card {i. i < length ?w \<and> live (?w ! i)} \<le> card {i. i < length ?w}" by (intro card_mono) auto
  with legs len show ?thesis by auto
qed

definition demo_plan_assets :: "plan_asset list" where
  "demo_plan_assets = [\<lparr>pa_mint = ''A'', pa_vaultBalanceRaw = 30, pa_decimals = 0\<rparr>,
     \<lparr>pa_mint = ''B'', pa_vaultBalanceRaw = 10, pa_decimals = 0\<rparr>]"

theorem rebalance_plan_returns_witness:
  "computeRebalancePlan demo_plan_assets [5000, 5000] [(''A'', Fin 1), (''B'', Fin 1)] (Fin 1) =
     Inr (Some [\<lparr>pl_mintSell = ''A'', pl_mintBuy = ''B'', pl_usdValue = Fin 10\<rparr>]) \<and> length demo_plan_assets = 2 \<and>
   sound_leg demo_plan_assets (Fin 1) \<lparr>pl_mintSell = ''A'', pl_mintBuy = ''B'', pl_usdValue = Fin 10\<rparr>"
proof -
  have run: "computeRebalancePlan demo_plan_assets [5000, 5000] [(''A'', Fin 1), (''B'', Fin 1)] (Fin 1) =
     Inr (Some [\<lparr>pl_mintSell = ''A'', pl_mintBuy = ''B'', pl_usdValue = Fin 10\<rparr>])"
  proof -
    have neg: "round64 (- 10) = Fin (- 10)" using round64_int [of "- 10"] by simp
    have dev: "deviations [Fin 30, Fin 10] [5000, 5000] = [Fin 10, Fin (- 10)]"
      by (simp add: deviations_def num_sub_def round64_numeral neg)
    have first: "leg_of [Fin 10, Fin (- 10)] (Fin 1) = Some (0, Suc 0, Fin 10)"
      by (simp add: leg_of_def sell_index_def buy_index_def pick_def num_le_def num_eq_def num_min_def)
    have last: "leg_of [Fin 0, Fin 0] (Fin 1) = None"
      by (simp add: leg_of_def sell_index_def buy_index_def pick_def)
    have settle: "settle_leg [Fin 10, Fin (- 10)] (0, Suc 0, Fin 10) = [Fin 0, Fin 0]"
      by (simp add: settle_leg_def num_sub_def)
    have "rebalance_loop demo_plan_assets (Fin 1) [Fin 10, Fin (- 10)] [] =
        Some [\<lparr>pl_mintSell = ''A'', pl_mintBuy = ''B'', pl_usdValue = Fin 10\<rparr>]"
      by (simp add: rebalance_loop.simps [of _ _ "[Fin 10, Fin (- 10)]"] rebalance_loop.simps [of _ _ "[Fin 0, Fin 0]"]
          first last settle demo_plan_assets_def)
    then show ?thesis
      by (simp add: computeRebalancePlan_def asset_usd_def demo_plan_assets_def num_of_int_def pow10_def
          round64_numeral round64_one dev)
  qed
  have "num_le (Fin 0) (Fin 1)" by (simp add: num_le_def)
  from rebalance_plan_returns [OF run this] run show ?thesis by (auto simp: demo_plan_assets_def)
qed

end
