(* ===== verification/Rebalance_Plan.thy ===== *)
theory Rebalance_Plan
  imports Ssr_Base Js_Number
begin

text \<open>
  What a Mainnet rebalance trades (\<open>lib/mainnet/rebalancePlan.ts\<close>): the swap legs that
  bring the vaults to their target weights, the assets to remove afterwards, and the
  sequence of compact removals. Dollar values are binary64 numbers, raw balances are
  integers. The theory shows that no vault is oversold, that a removed asset is sold to the
  last unit and never bought, and that the removal steps name the asset the chain moves;
  it also shows a plan that leaves an asset with a target of 0% in the Reserve.
\<close>

section \<open>The data\<close>

record plan_asset =
  pa_mint :: string
  pa_decimals :: nat
  pa_balanceRaw :: int
  pa_priceUsd :: "number option"
  pa_targetBps :: number

record planned_leg =
  pl_sellMint :: string
  pl_buyMint :: string
  pl_amountInRaw :: int
  pl_usd :: number
  pl_sellsAll :: bool

record plan_row =
  pr_mint :: string
  pr_valueUsd :: number
  pr_targetUsd :: number
  pr_targetBps :: number

record rebalance_plan =
  rp_totalUsd :: number
  rp_legs :: "planned_leg list"
  rp_removals :: "string list"
  rp_unpriced :: "string list"
  rp_rows :: "plan_row list"

text \<open>The weights do not add up to 100%, or \<open>BigInt\<close> of a number that is not an integer.\<close>

datatype plan_error = Weights_not_full number | Range_error

text \<open>A seller or buyer of the plan, mutated while legs are cut.\<close>

record side =
  sd_asset :: plan_asset
  sd_gap :: number
  sd_remaining :: int

definition REBALANCE_DUST_USD :: number where
  "REBALANCE_DUST_USD = round64 (5 / 100)"

section \<open>Sellers and buyers\<close>

definition positive :: "number \<Rightarrow> bool" where
  "positive x \<longleftrightarrow> num_less (Fin 0) x"

definition plan_priced :: "plan_asset \<Rightarrow> bool" where
  "plan_priced a \<longleftrightarrow> (case pa_priceUsd a of None \<Rightarrow> False | Some p \<Rightarrow> positive p)"

definition unpriced_mints :: "plan_asset list \<Rightarrow> string list" where
  "unpriced_mints assets =
     map pa_mint [a \<leftarrow> assets. (pa_balanceRaw a > 0 \<or> positive (pa_targetBps a)) \<and> \<not> plan_priced a]"

definition plan_value :: "plan_asset \<Rightarrow> number" where
  "plan_value a =
     (case pa_priceUsd a of
        Some p \<Rightarrow> if positive p then num_mul (num_div (num_of_int (pa_balanceRaw a)) (pow10 (pa_decimals a))) p
                  else Fin 0
      | None \<Rightarrow> Fin 0)"

definition plan_total :: "plan_asset list \<Rightarrow> number" where
  "plan_total assets = foldl (\<lambda>s a. num_add s (plan_value a)) (Fin 0) assets"

definition plan_row_of :: "number \<Rightarrow> plan_asset \<Rightarrow> plan_row" where
  "plan_row_of totalUsd a =
     \<lparr>pr_mint = pa_mint a, pr_valueUsd = plan_value a,
      pr_targetUsd = num_div (num_mul totalUsd (pa_targetBps a)) (Fin 10000), pr_targetBps = pa_targetBps a\<rparr>"

datatype role = Seller side | Buyer side | Balanced

definition plan_role :: "number \<Rightarrow> number \<Rightarrow> plan_asset \<Rightarrow> role" where
  "plan_role dustUsd totalUsd a =
     (let row = plan_row_of totalUsd a; gap = num_sub (pr_valueUsd row) (pr_targetUsd row) in
      if pa_targetBps a = Fin 0 \<and> pa_balanceRaw a > 0
      then Seller \<lparr>sd_asset = a, sd_gap = pr_valueUsd row, sd_remaining = pa_balanceRaw a\<rparr>
      else if num_less dustUsd gap then Seller \<lparr>sd_asset = a, sd_gap = gap, sd_remaining = pa_balanceRaw a\<rparr>
      else if num_less dustUsd (num_neg gap) then Buyer \<lparr>sd_asset = a, sd_gap = num_neg gap, sd_remaining = 0\<rparr>
      else Balanced)"

definition seller_of :: "number \<Rightarrow> number \<Rightarrow> plan_asset \<Rightarrow> side list" where
  "seller_of dustUsd totalUsd a = (case plan_role dustUsd totalUsd a of Seller s \<Rightarrow> [s] | _ \<Rightarrow> [])"

definition buyer_of :: "number \<Rightarrow> number \<Rightarrow> plan_asset \<Rightarrow> side list" where
  "buyer_of dustUsd totalUsd a = (case plan_role dustUsd totalUsd a of Buyer s \<Rightarrow> [s] | _ \<Rightarrow> [])"

definition smaller_gap :: "side \<Rightarrow> side \<Rightarrow> bool" where
  \<comment> \<open>\<open>y.gap - x.gap > 0\<close>\<close>
  "smaller_gap x y \<longleftrightarrow> positive (num_sub (sd_gap y) (sd_gap x))"

definition fallback_buyer :: "plan_asset list \<Rightarrow> plan_asset option" where
  "fallback_buyer assets =
     (case sort_by (\<lambda>x y. positive (num_sub (pa_targetBps y) (pa_targetBps x)))
             [a \<leftarrow> assets. positive (pa_targetBps a)] of
        [] \<Rightarrow> None | a # _ \<Rightarrow> Some a)"

section \<open>Cutting the legs\<close>

fun find_index :: "('a \<Rightarrow> bool) \<Rightarrow> 'a list \<Rightarrow> nat option" where
  "find_index P [] = None"
| "find_index P (x # xs) = (if P x then Some 0 else map_option Suc (find_index P xs))"

text \<open>One round of the loop: which buyer takes how much of what the seller has left.\<close>

record cut =
  ct_leg :: planned_leg
  ct_last :: bool
  ct_buyer :: "nat option"
  ct_usd :: number

definition others_open :: "number \<Rightarrow> nat option \<Rightarrow> side list \<Rightarrow> bool" where
  "others_open dustUsd b buyers \<longleftrightarrow>
     (\<exists>j \<in> set [0..<length buyers]. Some j \<noteq> b \<and> num_less dustUsd (sd_gap (buyers ! j)))"

definition price_number :: "plan_asset \<Rightarrow> number" where
  \<comment> \<open>a missing price counts as 0 in arithmetic\<close>
  "price_number a = (case pa_priceUsd a of None \<Rightarrow> Fin 0 | Some p \<Rightarrow> p)"

definition take_raw :: "bool \<Rightarrow> number \<Rightarrow> side \<Rightarrow> int option" where
  "take_raw last_cut usd s =
     (if last_cut then Some (sd_remaining s)
      else map_option (min (sd_remaining s))
             (to_bigint (num_floor (num_mul (num_div usd (price_number (sd_asset s))) (pow10 (pa_decimals (sd_asset s)))))))"

definition buy_mint :: "bool \<Rightarrow> string option \<Rightarrow> nat option \<Rightarrow> side list \<Rightarrow> string option" where
  "buy_mint sellAll fallback b buyers =
     (case b of Some i \<Rightarrow> Some (pa_mint (sd_asset (buyers ! i))) | None \<Rightarrow> if sellAll then fallback else None)"

definition cut_leg :: "number \<Rightarrow> string option \<Rightarrow> side \<Rightarrow> side list \<Rightarrow> plan_error + cut option" where
  \<comment> \<open>\<open>Inr None\<close> is one of the \<open>break\<close>s\<close>
  "cut_leg dustUsd fallback s buyers =
     (let sellAll = (pa_targetBps (sd_asset s) = Fin 0);
          b = find_index (\<lambda>x. num_less dustUsd (sd_gap x)) buyers in
      case buy_mint sellAll fallback b buyers of
        None \<Rightarrow> Inr None
      | Some m \<Rightarrow>
          if m = [] then Inr None
          else
            let usd = (case b of Some i \<Rightarrow> num_min (sd_gap s) (sd_gap (buyers ! i)) | None \<Rightarrow> sd_gap s);
                last_cut = (sellAll \<and> (num_le (num_sub (sd_gap s) usd) dustUsd \<or> \<not> others_open dustUsd b buyers)) in
            case take_raw last_cut usd s of
              None \<Rightarrow> Inl Range_error
            | Some n \<Rightarrow>
                if n \<le> 0 then Inr None
                else Inr (Some \<lparr>ct_leg = \<lparr>pl_sellMint = pa_mint (sd_asset s), pl_buyMint = m, pl_amountInRaw = n,
                                          pl_usd = (if last_cut then sd_gap s else usd), pl_sellsAll = (n = sd_remaining s)\<rparr>,
                                ct_last = last_cut, ct_buyer = b, ct_usd = usd\<rparr>))"

definition settle_seller :: "cut \<Rightarrow> side \<Rightarrow> side" where
  "settle_seller c s =
     s\<lparr>sd_remaining := sd_remaining s - pl_amountInRaw (ct_leg c),
       sd_gap := num_sub (sd_gap s) (if ct_last c then sd_gap s else ct_usd c)\<rparr>"

definition settle_buyer :: "cut \<Rightarrow> side list \<Rightarrow> side list" where
  "settle_buyer c buyers =
     (case ct_buyer c of
        None \<Rightarrow> buyers
      | Some i \<Rightarrow> buyers[i := (buyers ! i)\<lparr>sd_gap := num_sub (sd_gap (buyers ! i)) (ct_usd c)\<rparr>])"

definition sells_on :: "number \<Rightarrow> side \<Rightarrow> bool" where
  \<comment> \<open>the condition of the \<open>while\<close>\<close>
  "sells_on dustUsd s \<longleftrightarrow>
     num_less (if pa_targetBps (sd_asset s) = Fin 0 then Fin 0 else dustUsd) (sd_gap s) \<and> sd_remaining s > 0"

lemma cut_leg_amount:
  assumes "cut_leg dustUsd fallback s buyers = Inr (Some c)"
  shows "0 < pl_amountInRaw (ct_leg c)" "pl_amountInRaw (ct_leg c) \<le> sd_remaining s"
    "pl_sellMint (ct_leg c) = pa_mint (sd_asset s)"
    "pl_sellsAll (ct_leg c) \<longleftrightarrow> pl_amountInRaw (ct_leg c) = sd_remaining s"
  using assms
  by (auto simp: cut_leg_def take_raw_def Let_def split: option.splits if_splits)

text \<open>Every round sells at least one raw unit, so the loop ends.\<close>

function sell_side :: "number \<Rightarrow> string option \<Rightarrow> side \<Rightarrow> side list \<Rightarrow> planned_leg list \<Rightarrow> plan_error + side list \<times> planned_leg list" where
  "sell_side dustUsd fallback s buyers legs =
     (if sells_on dustUsd s then
        case cut_leg dustUsd fallback s buyers of
          Inl e \<Rightarrow> Inl e
        | Inr None \<Rightarrow> Inr (buyers, legs)
        | Inr (Some c) \<Rightarrow>
            if ct_last c then Inr (settle_buyer c buyers, legs @ [ct_leg c])
            else sell_side dustUsd fallback (settle_seller c s) (settle_buyer c buyers) (legs @ [ct_leg c])
      else Inr (buyers, legs))"
  by pat_completeness auto
termination
  by (relation "measure (\<lambda>(_, _, s, _, _). nat (sd_remaining s))")
    (auto simp: settle_seller_def sells_on_def dest: cut_leg_amount(1))

declare sell_side.simps [simp del]

fun sell_sides :: "number \<Rightarrow> string option \<Rightarrow> side list \<Rightarrow> side list \<Rightarrow> planned_leg list \<Rightarrow> plan_error + planned_leg list" where
  "sell_sides dustUsd fallback [] buyers legs = Inr legs"
| "sell_sides dustUsd fallback (s # ss) buyers legs =
     rbind (sell_side dustUsd fallback s buyers legs) (\<lambda>(buyers', legs'). sell_sides dustUsd fallback ss buyers' legs')"

section \<open>The plan\<close>

fun merge_leg :: "planned_leg list \<Rightarrow> planned_leg \<Rightarrow> planned_leg list" where
  "merge_leg [] l = [l]"
| "merge_leg (m # ms) l =
     (if pl_sellMint m = pl_sellMint l \<and> pl_buyMint m = pl_buyMint l
      then m\<lparr>pl_amountInRaw := pl_amountInRaw m + pl_amountInRaw l, pl_usd := num_add (pl_usd m) (pl_usd l),
             pl_sellsAll := pl_sellsAll m \<or> pl_sellsAll l\<rparr> # ms
      else m # merge_leg ms l)"

definition merge_legs :: "planned_leg list \<Rightarrow> planned_leg list" where
  "merge_legs legs = foldl merge_leg [] legs"

definition plan_removals :: "plan_asset list \<Rightarrow> planned_leg list \<Rightarrow> string list" where
  "plan_removals assets merged =
     (let emptied = pl_sellMint ` set (filter pl_sellsAll merged) in
      map pa_mint [a \<leftarrow> assets. pa_targetBps a = Fin 0 \<and> (pa_balanceRaw a = 0 \<or> pa_mint a \<in> emptied)])"

definition plan_legs :: "plan_asset list \<Rightarrow> number \<Rightarrow> plan_error + planned_leg list" where
  "plan_legs assets dustUsd =
     (let totalUsd = plan_total assets in
      sell_sides dustUsd (map_option pa_mint (fallback_buyer assets))
        (sort_by smaller_gap (concat (map (seller_of dustUsd totalUsd) assets)))
        (sort_by smaller_gap (concat (map (buyer_of dustUsd totalUsd) assets))) [])"

definition planRebalance :: "plan_asset list \<Rightarrow> number \<Rightarrow> plan_error + rebalance_plan" where
  "planRebalance assets dustUsd =
     (let totalBps = foldl (\<lambda>s a. num_add s (pa_targetBps a)) (Fin 0) assets;
          unpriced = unpriced_mints assets; totalUsd = plan_total assets; rows = map (plan_row_of totalUsd) assets in
      if totalBps \<noteq> Fin 10000 then Inl (Weights_not_full totalBps)
      else if unpriced \<noteq> []
      then Inr \<lparr>rp_totalUsd = totalUsd, rp_legs = [], rp_removals = [], rp_unpriced = unpriced, rp_rows = rows\<rparr>
      else rbind (plan_legs assets dustUsd) (\<lambda>legs.
        let merged = merge_legs legs in
        Inr \<lparr>rp_totalUsd = totalUsd, rp_legs = merged, rp_removals = plan_removals assets merged,
             rp_unpriced = [], rp_rows = rows\<rparr>))"

section \<open>Compact removals\<close>

record removal_step =
  rs_mint :: string
  rs_lastAssetMint :: "string option"

fun compact_removals :: "string list \<Rightarrow> string list \<Rightarrow> removal_step list" where
  "compact_removals order [] = []"
| "compact_removals order (mint # removals) =
     (case find_index ((=) mint) order of
        None \<Rightarrow> compact_removals order removals
      | Some idx \<Rightarrow>
          \<lparr>rs_mint = mint, rs_lastAssetMint = (if last order = mint then None else Some (last order))\<rparr>
            # compact_removals (butlast (order[idx := last order])) removals)"

definition compactRemovalSteps :: "string list \<Rightarrow> string list \<Rightarrow> removal_step list" where
  "compactRemovalSteps orderedMints removals = compact_removals orderedMints removals"

section \<open>No vault is oversold\<close>

definition sold :: "string \<Rightarrow> planned_leg list \<Rightarrow> int" where
  "sold m legs = sum_list (map pl_amountInRaw [l \<leftarrow> legs. pl_sellMint l = m])"

lemma sold_simps [simp]:
  "sold m [] = 0" "sold m (l # ls) = (if pl_sellMint l = m then pl_amountInRaw l else 0) + sold m ls"
  "sold m (xs @ ys) = sold m xs + sold m ys"
  by (simp_all add: sold_def)

text \<open>What a run of cuts for one seller adds to the legs.\<close>

definition sound_cuts :: "side \<Rightarrow> planned_leg list \<Rightarrow> bool" where
  "sound_cuts s new \<longleftrightarrow>
     (\<forall>l \<in> set new. pl_sellMint l = pa_mint (sd_asset s) \<and> 0 < pl_amountInRaw l) \<and>
     (new \<noteq> [] \<longrightarrow> sold (pa_mint (sd_asset s)) new \<le> sd_remaining s) \<and>
     ((\<exists>l \<in> set new. pl_sellsAll l) \<longrightarrow> sold (pa_mint (sd_asset s)) new = sd_remaining s)"

lemma sold_pos: "\<forall>l \<in> set ls. 0 < pl_amountInRaw l \<Longrightarrow> 0 \<le> sold m ls"
  by (induction ls) auto

lemma sold_strict:
  assumes "ls \<noteq> []" "\<forall>l \<in> set ls. pl_sellMint l = m \<and> 0 < pl_amountInRaw l"
  shows "0 < sold m ls"
proof -
  obtain y ys where "ls = y # ys" using assms(1) by (cases ls) auto
  moreover have "0 \<le> sold m ys" using assms(2) calculation by (intro sold_pos) simp
  ultimately show ?thesis using assms(2) by simp
qed

lemma sound_cuts_Nil [simp]: "sound_cuts s []"
  by (simp add: sound_cuts_def)

lemma sound_cuts_Cons:
  assumes "cut_leg dustUsd fb s buyers = Inr (Some c)" "sound_cuts (settle_seller c s) new"
  shows "sound_cuts s (ct_leg c # new)"
proof (cases "new = []")
  case False
  then have "0 < sold (pa_mint (sd_asset s)) new"
    using assms(2) by (intro sold_strict) (auto simp: sound_cuts_def settle_seller_def)
  then show ?thesis
    using False assms(2) cut_leg_amount [OF assms(1)] by (auto simp: sound_cuts_def settle_seller_def)
qed (use cut_leg_amount [OF assms(1)] in \<open>simp add: sound_cuts_def\<close>)

lemma sell_side_sound:
  "sell_side dustUsd fb s buyers legs = Inr (buyers', legs') \<Longrightarrow> \<exists>new. legs' = legs @ new \<and> sound_cuts s new"
proof (induction dustUsd fb s buyers legs rule: sell_side.induct)
  case (1 dustUsd fb s buyers legs)
  show ?case
  proof (cases "sells_on dustUsd s")
    case on: True
    from 1(2) on obtain r where r: "cut_leg dustUsd fb s buyers = Inr r"
      by (subst (asm) sell_side.simps) (auto split: sum.splits)
    show ?thesis
    proof (cases r)
      case (Some c)
      note cut = r [unfolded Some]
      show ?thesis
      proof (cases "ct_last c")
        case True
        then show ?thesis using 1(2) on cut sound_cuts_Cons [OF cut, of "[]"]
          by (subst (asm) sell_side.simps) auto
      next
        case False
        with 1(2) on cut have "sell_side dustUsd fb (settle_seller c s) (settle_buyer c buyers) (legs @ [ct_leg c]) = Inr (buyers', legs')"
          by (subst (asm) sell_side.simps) simp
        from 1(1) [OF on cut refl False this] sound_cuts_Cons [OF cut] show ?thesis by auto
      qed
    qed (use 1(2) on r in \<open>subst (asm) sell_side.simps, auto\<close>)
  qed (use 1(2) in \<open>subst (asm) sell_side.simps, auto\<close>)
qed

definition side_mint :: "side \<Rightarrow> string" where
  "side_mint s = pa_mint (sd_asset s)"

lemma settle_mints [simp]: "side_mint (settle_seller c s) = side_mint s"
  "map side_mint (settle_buyer c buyers) = map side_mint buyers"
proof -
  show "map side_mint (settle_buyer c buyers) = map side_mint buyers"
    by (cases "ct_buyer c"; cases "the (ct_buyer c) < length buyers")
      (simp_all add: settle_buyer_def map_update side_mint_def list_update_same_conv list_update_beyond)
qed (simp add: settle_seller_def side_mint_def)

lemma find_index_Some: "find_index P xs = Some i \<Longrightarrow> i < length xs \<and> P (xs ! i)"
  by (induction xs arbitrary: i) (auto split: if_splits)

lemma find_index_None: "find_index P xs = None \<longleftrightarrow> (\<forall>x \<in> set xs. \<not> P x)"
  by (induction xs) auto

definition bought_from :: "string option \<Rightarrow> side list \<Rightarrow> planned_leg list \<Rightarrow> bool" where
  "bought_from fb buyers legs \<longleftrightarrow> (\<forall>l \<in> set legs. pl_buyMint l \<in> set (map side_mint buyers) \<union> set_option fb)"

lemma bought_from_settle: "bought_from fb (settle_buyer c buyers) legs = bought_from fb buyers legs"
  by (simp only: bought_from_def settle_mints)

lemma cut_leg_buys: "cut_leg dustUsd fb s buyers = Inr (Some c) \<Longrightarrow> bought_from fb buyers [ct_leg c]"
  by (auto simp: cut_leg_def bought_from_def buy_mint_def side_mint_def Let_def
      split: option.splits if_splits dest!: find_index_Some)

lemma sell_side_buys:
  "sell_side dustUsd fb s buyers legs = Inr (buyers', legs') \<Longrightarrow>
   map side_mint buyers' = map side_mint buyers \<and> (bought_from fb buyers legs \<longrightarrow> bought_from fb buyers legs')"
proof (induction dustUsd fb s buyers legs rule: sell_side.induct)
  case (1 dustUsd fb s buyers legs)
  have step: "cut_leg dustUsd fb s buyers = Inr (Some c) \<Longrightarrow> bought_from fb buyers legs \<Longrightarrow> bought_from fb buyers (legs @ [ct_leg c])" for c
    using cut_leg_buys [of dustUsd fb s buyers c] by (auto simp: bought_from_def)
  show ?case
  proof (cases "sells_on dustUsd s")
    case on: True
    from 1(2) on obtain r where r: "cut_leg dustUsd fb s buyers = Inr r"
      by (subst (asm) sell_side.simps) (auto split: sum.splits)
    show ?thesis
    proof (cases r)
      case None
      then show ?thesis using 1(2) on r by (subst (asm) sell_side.simps) simp
    next
      case (Some c)
      note cut = r [unfolded Some]
      show ?thesis
      proof (cases "ct_last c")
        case True
        with 1(2) on cut have "buyers' = settle_buyer c buyers" "legs' = legs @ [ct_leg c]"
          by (subst (asm) sell_side.simps, simp)+
        then show ?thesis using step [OF cut] by simp
      next
        case False
        with 1(2) on cut have "sell_side dustUsd fb (settle_seller c s) (settle_buyer c buyers) (legs @ [ct_leg c]) = Inr (buyers', legs')"
          by (subst (asm) sell_side.simps) simp
        from 1(1) [OF on cut refl False this] step [OF cut] show ?thesis
          unfolding settle_mints bought_from_settle by blast
      qed
    qed
  next
    case False
    then show ?thesis using 1(2) by (subst (asm) sell_side.simps) simp
  qed
qed

text \<open>The legs of all sellers: each seller's own legs are sound.\<close>

abbreviation legs_of :: "string \<Rightarrow> planned_leg list \<Rightarrow> planned_leg list" where
  "legs_of m legs \<equiv> [l \<leftarrow> legs. pl_sellMint l = m]"

lemma sold_legs_of [simp]: "sold m (legs_of m legs) = sold m legs"
  by (simp add: sold_def)

lemma sell_sides_sound:
  "sell_sides dustUsd fb ss buyers legs = Inr legs' \<Longrightarrow> distinct (map side_mint ss) \<Longrightarrow>
   \<exists>new. legs' = legs @ new \<and> (\<forall>l \<in> set new. pl_sellMint l \<in> side_mint ` set ss) \<and>
     (\<forall>s \<in> set ss. sound_cuts s (legs_of (side_mint s) new))"
proof (induction dustUsd fb ss buyers legs rule: sell_sides.induct)
  case (2 dustUsd fb s ss buyers legs)
  then obtain buyers1 legs1 where one: "sell_side dustUsd fb s buyers legs = Inr (buyers1, legs1)"
    and rest: "sell_sides dustUsd fb ss buyers1 legs1 = Inr legs'" by (auto simp: res_iff)
  from sell_side_sound [OF one] obtain n1 where n1: "legs1 = legs @ n1" "sound_cuts s n1" by blast
  from 2(1) [OF rest] 2(3) obtain n2 where n2: "legs' = legs1 @ n2"
    "\<forall>l \<in> set n2. pl_sellMint l \<in> side_mint ` set ss" "\<forall>s \<in> set ss. sound_cuts s (legs_of (side_mint s) n2)" by auto
  have own: "\<forall>l \<in> set n1. pl_sellMint l = side_mint s" using n1(2) by (simp add: sound_cuts_def side_mint_def)
  have foreign: "\<forall>l \<in> set n2. pl_sellMint l \<noteq> side_mint s" using n2(2) 2(3) by (metis distinct.simps(2) list.simps(9) list.set_map)
  have "legs_of (side_mint s) (n1 @ n2) = n1"
    using own foreign by (simp add: filter_empty_conv filter_id_conv)
  moreover have "legs_of (side_mint t) (n1 @ n2) = legs_of (side_mint t) n2" if "t \<in> set ss" for t
    using own that 2(3) by (auto simp: filter_empty_conv)
  ultimately show ?case
    using n1 n2 own by (intro exI [of _ "n1 @ n2"]) auto
qed simp

lemma sell_sides_buys:
  "sell_sides dustUsd fb ss buyers legs = Inr legs' \<Longrightarrow> bought_from fb buyers legs \<Longrightarrow> bought_from fb buyers legs'"
proof (induction dustUsd fb ss buyers legs rule: sell_sides.induct)
  case (2 dustUsd fb s ss buyers legs)
  then obtain buyers1 legs1 where one: "sell_side dustUsd fb s buyers legs = Inr (buyers1, legs1)"
    and rest: "sell_sides dustUsd fb ss buyers1 legs1 = Inr legs'" by (auto simp: res_iff)
  from sell_side_buys [OF one] 2(3) have "map side_mint buyers1 = map side_mint buyers" "bought_from fb buyers1 legs1"
    by (auto simp: bought_from_def)
  with 2(1) [OF rest] show ?case by (simp add: bought_from_def)
qed simp

section \<open>Merging keeps what is sold\<close>

lemma sold_merge_leg [simp]: "sold m (merge_leg ms l) = sold m ms + sold m [l]"
  by (induction ms) auto

lemma merge_leg_covers:
  "(\<exists>x \<in> set (merge_leg ms l). pl_sellsAll x \<and> pl_sellMint x = m) \<longleftrightarrow>
   (\<exists>x \<in> set (ms @ [l]). pl_sellsAll x \<and> pl_sellMint x = m)"
  by (induction ms) auto

lemma merge_leg_buys: "pl_buyMint ` set (merge_leg ms l) = pl_buyMint ` set (ms @ [l])"
  by (induction ms) auto

lemma merge_legs_snoc: "merge_legs (ls @ [l]) = merge_leg (merge_legs ls) l"
  by (simp add: merge_legs_def)

lemma merge_legs_keeps:
  "sold m (merge_legs ls) = sold m ls"
  "(\<exists>x \<in> set (merge_legs ls). pl_sellsAll x \<and> pl_sellMint x = m) \<longleftrightarrow> (\<exists>x \<in> set ls. pl_sellsAll x \<and> pl_sellMint x = m)"
  "pl_buyMint ` set (merge_legs ls) = pl_buyMint ` set ls"
proof (induction ls rule: rev_induct)
  case (snoc l ls)
  { case 1 show ?case using snoc by (simp add: merge_legs_snoc)
  next case 2 show ?case using snoc merge_leg_covers [of "merge_legs ls" l m] by (auto simp: merge_legs_snoc)
  next case 3 show ?case using snoc merge_leg_buys [of "merge_legs ls" l] by (auto simp: merge_legs_snoc) }
qed (simp_all add: merge_legs_def)

section \<open>The plan as a whole\<close>

lemma seller_of_set: "s \<in> set (seller_of dustUsd t a) \<Longrightarrow> sd_asset s = a \<and> sd_remaining s = pa_balanceRaw a \<and> buyer_of dustUsd t a = []"
  by (auto simp: seller_of_def buyer_of_def plan_role_def Let_def split: if_splits role.splits)

lemma buyer_of_set: "s \<in> set (buyer_of dustUsd t a) \<Longrightarrow> sd_asset s = a"
  by (auto simp: buyer_of_def plan_role_def Let_def split: if_splits role.splits)

lemma seller_mints: "map side_mint (seller_of dustUsd t a) \<in> {[], [pa_mint a]}"
  by (auto simp: seller_of_def plan_role_def side_mint_def Let_def split: role.splits if_splits)

lemma sellers_distinct:
  "distinct (map pa_mint assets) \<Longrightarrow> distinct (map side_mint (concat (map (seller_of dustUsd t) assets)))"
proof (induction assets)
  case (Cons a assets)
  have "side_mint ` set (concat (map (seller_of dustUsd t) assets)) \<subseteq> pa_mint ` set assets"
    using seller_of_set by (fastforce simp: side_mint_def)
  then have "pa_mint a \<notin> set (map side_mint (concat (map (seller_of dustUsd t) assets)))"
    using Cons(2) by auto
  moreover have "distinct (map side_mint (concat (map (seller_of dustUsd t) assets)))" using Cons by simp
  moreover have "map side_mint (concat (map (seller_of dustUsd t) (a # assets))) =
      map side_mint (seller_of dustUsd t a) @ map side_mint (concat (map (seller_of dustUsd t) assets))" by simp
  ultimately show ?case using seller_mints [of dustUsd t a]
    by (metis distinct.simps(2) append_Nil append_Cons insertE singletonD)
qed simp

lemma zero_ops:
  "z \<in> {Fin 0, NaN} \<Longrightarrow> num_mul z x \<in> {Fin 0, NaN}" "z \<in> {Fin 0, NaN} \<Longrightarrow> num_mul x z \<in> {Fin 0, NaN}"
  "z \<in> {Fin 0, NaN} \<Longrightarrow> num_div z x \<in> {Fin 0, NaN}"
  "z \<in> {Fin 0, NaN} \<Longrightarrow> z' \<in> {Fin 0, NaN} \<Longrightarrow> num_sub z z' \<in> {Fin 0, NaN}"
  "z \<in> {Fin 0, NaN} \<Longrightarrow> num_neg z \<in> {Fin 0, NaN}"
  by (cases x; auto simp: num_sub_def)+

lemma zero_not_above: "num_le (Fin 0) d \<Longrightarrow> z \<in> {Fin 0, NaN} \<Longrightarrow> \<not> num_less d z"
  by (cases d) (auto simp: num_le_def num_eq_def)

text \<open>An empty vault with a target of 0% buys nothing.\<close>

lemma empty_zero_target_not_buyer:
  assumes "num_le (Fin 0) dustUsd" "pa_targetBps a = Fin 0" "pa_balanceRaw a = 0"
  shows "buyer_of dustUsd t a = []"
proof -
  have v: "plan_value a \<in> {Fin 0, NaN}"
    using assms(3) zero_ops(1,3) by (auto simp: plan_value_def num_of_int_def split: option.splits)
  have "num_div (num_mul t (pa_targetBps a)) (Fin 10000) \<in> {Fin 0, NaN}"
    using assms(2) by (intro zero_ops(2,3)) simp
  with v have "num_neg (num_sub (plan_value a) (num_div (num_mul t (pa_targetBps a)) (Fin 10000))) \<in> {Fin 0, NaN}"
    by (intro zero_ops(4,5))
  then show ?thesis using zero_not_above [OF assms(1)]
    by (auto simp: buyer_of_def plan_role_def plan_row_of_def Let_def split: role.splits if_splits)
qed

lemma sort_by_head: "sort_by gt xs = a # ys \<Longrightarrow> a \<in> set xs"
  by (metis list.set_intros(1) set_sort_by)

lemma fallback_buyer_positive: "fallback_buyer assets = Some a \<Longrightarrow> a \<in> set assets \<and> positive (pa_targetBps a)"
  by (auto simp: fallback_buyer_def split: list.splits dest!: sort_by_head)

text \<open>Per asset: what the legs sell of it, and whether they buy it.\<close>

definition sale_sound :: "planned_leg list \<Rightarrow> plan_asset \<Rightarrow> bool" where
  "sale_sound legs a \<longleftrightarrow>
     (0 \<le> sold (pa_mint a) legs) \<and> (sold (pa_mint a) legs = 0 \<or> sold (pa_mint a) legs \<le> pa_balanceRaw a) \<and>
     ((\<exists>l \<in> set legs. pl_sellsAll l \<and> pl_sellMint l = pa_mint a) \<longrightarrow> sold (pa_mint a) legs = pa_balanceRaw a)"

lemma sound_cuts_sale:
  assumes "sound_cuts s (legs_of (pa_mint a) legs)" "sd_asset s = a" "sd_remaining s = pa_balanceRaw a"
  shows "sale_sound legs a"
proof -
  let ?n = "legs_of (pa_mint a) legs"
  have "0 \<le> sold (pa_mint a) ?n" using assms(1) by (intro sold_pos) (auto simp: sound_cuts_def)
  moreover have "sold (pa_mint a) ?n = 0 \<or> sold (pa_mint a) ?n \<le> pa_balanceRaw a"
    using assms by (cases "?n = []") (simp_all add: sound_cuts_def)
  moreover have "sold (pa_mint a) ?n = pa_balanceRaw a" if "\<exists>l \<in> set ?n. pl_sellsAll l"
    using assms that by (simp add: sound_cuts_def)
  ultimately show ?thesis by (auto simp: sale_sound_def)
qed

lemma plan_legs_sound:
  assumes "plan_legs assets dustUsd = Inr legs" "distinct (map pa_mint assets)" "a \<in> set assets"
  shows "sale_sound legs a"
    and "(\<exists>l \<in> set legs. pl_sellMint l = pa_mint a) \<Longrightarrow> buyer_of dustUsd (plan_total assets) a = []"
proof -
  let ?sellers = "concat (map (seller_of dustUsd (plan_total assets)) assets)"
  have "distinct (map side_mint (sort_by smaller_gap ?sellers))"
    using sellers_distinct [OF assms(2)] mset_map [of side_mint] mset_sort_by mset_eq_imp_distinct_iff by metis
  from sell_sides_sound [OF assms(1) [unfolded plan_legs_def Let_def] this]
  have own: "\<forall>l \<in> set legs. pl_sellMint l \<in> side_mint ` set ?sellers"
    and cuts: "\<forall>s \<in> set ?sellers. sound_cuts s (legs_of (side_mint s) legs)" by auto
  have seller: "\<exists>s. sd_asset s = a \<and> sd_remaining s = pa_balanceRaw a \<and> s \<in> set ?sellers \<and>
      buyer_of dustUsd (plan_total assets) a = []" if l: "l \<in> set legs" "pl_sellMint l = pa_mint a" for l
  proof -
    from own l(1) obtain s b where s: "pl_sellMint l = side_mint s" "b \<in> set assets" "s \<in> set (seller_of dustUsd (plan_total assets) b)"
      by auto
    from seller_of_set [OF s(3)] have "sd_asset s = b" by simp
    with s(1,2) l(2) assms(2,3) have "b = a" by (auto simp: side_mint_def distinct_map inj_on_def)
    with s seller_of_set [OF s(3)] assms(3) show ?thesis by auto
  qed
  then show "(\<exists>l \<in> set legs. pl_sellMint l = pa_mint a) \<Longrightarrow> buyer_of dustUsd (plan_total assets) a = []" by blast
  show "sale_sound legs a"
  proof (cases "\<exists>l \<in> set legs. pl_sellMint l = pa_mint a")
    case True
    with seller obtain s where "sd_asset s = a" "sd_remaining s = pa_balanceRaw a" "s \<in> set ?sellers" by blast
    with cuts show ?thesis by (intro sound_cuts_sale) (auto simp: side_mint_def)
  next
    case False
    then have "legs_of (pa_mint a) legs = []" by (simp add: filter_empty_conv)
    then have "sold (pa_mint a) legs = 0" by (simp add: sold_def)
    with False show ?thesis by (auto simp: sale_sound_def)
  qed
qed

lemma plan_legs_buys:
  assumes "plan_legs assets dustUsd = Inr legs" "distinct (map pa_mint assets)" "a \<in> set assets"
    "buyer_of dustUsd (plan_total assets) a = []" "pa_targetBps a = Fin 0"
  shows "pa_mint a \<notin> pl_buyMint ` set legs"
proof
  assume "pa_mint a \<in> pl_buyMint ` set legs"
  moreover have "bought_from (map_option pa_mint (fallback_buyer assets))
      (sort_by smaller_gap (concat (map (buyer_of dustUsd (plan_total assets)) assets))) legs"
    using assms(1) unfolding plan_legs_def Let_def by (rule sell_sides_buys) (simp add: bought_from_def)
  ultimately consider (buyer) b s where "b \<in> set assets" "s \<in> set (buyer_of dustUsd (plan_total assets) b)" "side_mint s = pa_mint a"
    | (fallback) b where "fallback_buyer assets = Some b" "pa_mint b = pa_mint a"
    unfolding bought_from_def by fastforce
  then show False
  proof cases
    case buyer
    with buyer_of_set [OF buyer(2)] assms(2,3) have "b = a" by (auto simp: side_mint_def distinct_map inj_on_def)
    with buyer(2) assms(4) show False by simp
  next
    case fallback
    with fallback_buyer_positive [OF fallback(1)] assms(2,3) have "b = a" by (auto simp: distinct_map inj_on_def)
    with fallback_buyer_positive [OF fallback(1)] assms(5) show False by (simp add: positive_def)
  qed
qed

lemma planRebalance_cases:
  assumes "planRebalance assets dustUsd = Inr p"
  shows "(rp_legs p = [] \<and> rp_removals p = [] \<and> rp_unpriced p \<noteq> []) \<or>
    (\<exists>legs. plan_legs assets dustUsd = Inr legs \<and> rp_legs p = merge_legs legs \<and>
            rp_removals p = plan_removals assets (merge_legs legs) \<and> unpriced_mints assets = [])"
  using assms by (auto simp: planRebalance_def Let_def res_iff split: if_splits)

lemma plan_removal_sound:
  assumes legs: "plan_legs assets dustUsd = Inr legs" "distinct (map pa_mint assets)" "num_le (Fin 0) dustUsd"
    and m: "m \<in> set (plan_removals assets (merge_legs legs))"
  shows "\<exists>a \<in> set assets. pa_mint a = m \<and> pa_targetBps a = Fin 0 \<and> sold m legs = pa_balanceRaw a \<and> m \<notin> pl_buyMint ` set legs"
proof -
  from m obtain a where a: "a \<in> set assets" "pa_mint a = m" "pa_targetBps a = Fin 0"
    and why: "pa_balanceRaw a = 0 \<or> (\<exists>l \<in> set (merge_legs legs). pl_sellsAll l \<and> pl_sellMint l = m)"
    by (auto simp: plan_removals_def; blast)
  note sale = plan_legs_sound [OF legs(1,2) a(1)]
  show ?thesis
  proof (cases "\<exists>l \<in> set legs. pl_sellsAll l \<and> pl_sellMint l = m")
    case True
    with sale a(2) have "sold m legs = pa_balanceRaw a" "buyer_of dustUsd (plan_total assets) a = []"
      by (auto simp: sale_sound_def)
    with plan_legs_buys [OF legs(1,2) a(1)] a show ?thesis by auto
  next
    case False
    with why have zero: "pa_balanceRaw a = 0" by (simp add: merge_legs_keeps(2))
    with sale(1) a(2) have "sold m legs = 0" by (auto simp: sale_sound_def)
    moreover have "buyer_of dustUsd (plan_total assets) a = []" by (rule empty_zero_target_not_buyer [OF legs(3) a(3) zero])
    ultimately show ?thesis using plan_legs_buys [OF legs(1,2) a(1)] a zero by auto
  qed
qed

text \<open>
  C6: whatever the prices, a plan never sells more of an asset than its vault holds, and
  every asset it removes has a target of 0%, is sold to the last raw unit and is bought by
  no leg, so its vault is empty when the removal runs.
\<close>

theorem rebalance_never_oversells:
  assumes "planRebalance assets dustUsd = Inr p" "distinct (map pa_mint assets)" "num_le (Fin 0) dustUsd"
    "\<forall>a \<in> set assets. 0 \<le> pa_balanceRaw a"
  shows "(\<forall>a \<in> set assets. 0 \<le> sold (pa_mint a) (rp_legs p) \<and> sold (pa_mint a) (rp_legs p) \<le> pa_balanceRaw a) \<and>
    (\<forall>m \<in> set (rp_removals p). \<exists>a \<in> set assets. pa_mint a = m \<and> pa_targetBps a = Fin 0 \<and>
       sold m (rp_legs p) = pa_balanceRaw a \<and> m \<notin> pl_buyMint ` set (rp_legs p))"
  using planRebalance_cases [OF assms(1)]
proof (elim disjE exE conjE)
  fix legs assume legs: "plan_legs assets dustUsd = Inr legs"
    "rp_legs p = merge_legs legs" "rp_removals p = plan_removals assets (merge_legs legs)"
  have "0 \<le> sold (pa_mint a) legs \<and> sold (pa_mint a) legs \<le> pa_balanceRaw a" if "a \<in> set assets" for a
    using plan_legs_sound(1) [OF legs(1) assms(2) that] assms(4) that by (auto simp: sale_sound_def)
  with plan_removal_sound [OF legs(1) assms(2,3)] show ?thesis
    unfolding legs(2,3) merge_legs_keeps by blast
qed (use assms(4) in simp)

text \<open>
  A Reserve of one whole unit of an indivisible asset worth $100 that is to be replaced by
  two others in equal parts: no cut of $50 sells a raw unit, the loop breaks, and the
  asset stays although its target is 0%.
\<close>

definition demo_switch :: "plan_asset list" where
  "demo_switch =
     [\<lparr>pa_mint = ''NFT'', pa_decimals = 0, pa_balanceRaw = 1, pa_priceUsd = Some (Fin 100), pa_targetBps = Fin 0\<rparr>,
      \<lparr>pa_mint = ''A'', pa_decimals = 0, pa_balanceRaw = 0, pa_priceUsd = Some (Fin 1), pa_targetBps = Fin 5000\<rparr>,
      \<lparr>pa_mint = ''B'', pa_decimals = 0, pa_balanceRaw = 0, pa_priceUsd = Some (Fin 1), pa_targetBps = Fin 5000\<rparr>]"

lemma dust_value: "REBALANCE_DUST_USD = Fin (3602879701896397 / 72057594037927936)"
  by code_simp


lemmas plan_eval = planRebalance_def plan_legs_def unpriced_mints_def plan_total_def plan_row_of_def plan_value_def
  plan_priced_def positive_def seller_of_def buyer_of_def plan_role_def fallback_buyer_def buy_mint_def cut_leg_def
  take_raw_def others_open_def price_number_def settle_seller_def settle_buyer_def sells_on_def smaller_gap_def
  merge_legs_def plan_removals_def sort_by_def num_of_int_def pow10_def round64_numeral round64_neg_numeral round64_one num_sub_def
  num_min_def num_le_def num_eq_def Let_def sell_side.simps

lemma round64_half: "round64 (1 / 2) = Fin (1 / 2)"
  by code_simp

lemma demo_switch_plan:
  "planRebalance demo_switch REBALANCE_DUST_USD =
     Inr \<lparr>rp_totalUsd = Fin 100, rp_legs = [], rp_removals = [], rp_unpriced = [],
          rp_rows = map (plan_row_of (Fin 100)) demo_switch\<rparr>"
  by (simp add: demo_switch_def dust_value plan_eval round64_half upt_rec numeral_2_eq_2)


definition demo_exit :: "plan_asset list" where
  "demo_exit =
     [\<lparr>pa_mint = ''X'', pa_decimals = 0, pa_balanceRaw = 4, pa_priceUsd = Some (Fin 100), pa_targetBps = Fin 0\<rparr>,
      \<lparr>pa_mint = ''A'', pa_decimals = 0, pa_balanceRaw = 0, pa_priceUsd = Some (Fin 1), pa_targetBps = Fin 5000\<rparr>,
      \<lparr>pa_mint = ''B'', pa_decimals = 0, pa_balanceRaw = 0, pa_priceUsd = Some (Fin 1), pa_targetBps = Fin 5000\<rparr>]"

lemma demo_exit_plan:
  "\<exists>p. planRebalance demo_exit REBALANCE_DUST_USD = Inr p \<and> map pl_amountInRaw (rp_legs p) = [2, 2] \<and> rp_removals p = [''X'']"
  by (simp add: demo_exit_def dust_value plan_eval round64_half upt_rec numeral_2_eq_2 image_iff conj_disj_distribR ex_disj_distrib)

theorem rebalance_never_oversells_witness:
  "\<exists>p. planRebalance demo_exit REBALANCE_DUST_USD = Inr p \<and> rp_removals p = [''X''] \<and> sold ''X'' (rp_legs p) = 4 \<and>
       sold ''A'' (rp_legs p) \<le> 0"
proof -
  from demo_exit_plan obtain p where p: "planRebalance demo_exit REBALANCE_DUST_USD = Inr p" "rp_removals p = [''X'']" by blast
  have "num_le (Fin 0) REBALANCE_DUST_USD" by (simp add: dust_value num_le_def)
  from rebalance_never_oversells [OF p(1) _ this] p show ?thesis by (auto simp: demo_exit_def)
qed

section \<open>The removals on the chain\<close>

text \<open>
  The effect of the program's instruction on the order of the assets
  (\<open>remove_reserve_asset_compact.rs\<close>): the position of the removed asset is taken by the
  last one, which has to be the account passed; the only asset cannot be removed.
\<close>

definition remove_compact :: "string list \<Rightarrow> removal_step \<Rightarrow> string list option" where
  "remove_compact order st =
     (case find_index ((=) (rs_mint st)) order of
        None \<Rightarrow> None
      | Some i \<Rightarrow>
          if length order \<le> 1 \<or> (i \<noteq> length order - 1 \<and> rs_lastAssetMint st \<noteq> Some (last order)) then None
          else Some (butlast (order[i := last order])))"

fun run_removals :: "string list \<Rightarrow> removal_step list \<Rightarrow> string list option" where
  "run_removals order [] = Some order"
| "run_removals order (st # sts) = (case remove_compact order st of None \<Rightarrow> None | Some order' \<Rightarrow> run_removals order' sts)"

lemma compact_set:
  assumes "distinct order" "find_index ((=) m) order = Some i"
  shows "set (butlast (order[i := last order])) = set order - {m}" "distinct (butlast (order[i := last order]))"
proof -
  from find_index_Some [OF assms(2)] have i: "i < length order" "order ! i = m" by auto
  then obtain xs l where o: "order = xs @ [l]" by (cases order rule: rev_cases) auto
  show "set (butlast (order[i := last order])) = set order - {m}"
  proof (cases "i < length xs")
    case True
    with i o assms(1) have "set (xs[i := l]) = insert l (set xs) - {m}" by (auto simp: set_update_distinct nth_append)
    with True o show ?thesis using assms(1) by (auto simp: list_update_append)
  qed (use i o assms(1) in \<open>auto simp: list_update_append nth_append split: nat.splits\<close>)
  show "distinct (butlast (order[i := last order]))"
    using i o assms(1) by (cases "i < length xs") (auto simp: list_update_append distinct_list_update split: nat.splits)
qed

lemma compact_removals_run:
  assumes "distinct order" "distinct removals" "\<not> set order \<subseteq> set removals"
  shows "\<exists>kept. run_removals order (compact_removals order removals) = Some kept \<and> distinct kept \<and>
    set kept = set order - set removals \<and> map rs_mint (compact_removals order removals) = filter (\<lambda>m. m \<in> set order) removals"
  using assms
proof (induction removals arbitrary: order)
  case (Cons m removals)
  show ?case
  proof (cases "find_index ((=) m) order")
    case None
    then have "m \<notin> set order" by (auto simp: find_index_None)
    with Cons.prems have "\<not> set order \<subseteq> set removals" by auto
    with Cons.IH [OF Cons.prems(1)] Cons.prems(2) None \<open>m \<notin> set order\<close> show ?thesis by auto
  next
    case (Some i)
    let ?order = "butlast (order[i := last order])"
    from find_index_Some [OF Some] have i: "i < length order" "m = order ! i" by auto
    note rest = compact_set [OF Cons.prems(1) Some]
    from Cons.prems(3) rest have "\<not> set ?order \<subseteq> set removals" by auto
    from Cons.IH [OF rest(2) _ this] Cons.prems(2) obtain kept where kept:
      "run_removals ?order (compact_removals ?order removals) = Some kept" "distinct kept"
      "set kept = set ?order - set removals"
      "map rs_mint (compact_removals ?order removals) = filter (\<lambda>m. m \<in> set ?order) removals" by auto
    have "filter (\<lambda>m. m \<in> set ?order) removals = filter (\<lambda>m. m \<in> set order) removals"
      using Cons.prems(2) rest(1) by (auto intro!: filter_cong)
    moreover have "remove_compact order \<lparr>rs_mint = m, rs_lastAssetMint = (if last order = m then None else Some (last order))\<rparr> = Some ?order"
    proof -
      from Cons.prems(3) i have "1 < length order" by (cases order rule: rev_cases) (auto simp: Suc_le_eq)
      moreover have "i = length order - 1" if "last order = m"
      proof -
        have "order ! (length order - 1) = order ! i" using that i by (cases order rule: rev_cases) auto
        with Cons.prems(1) i show ?thesis by (subst (asm) nth_eq_iff_index_eq) auto
      qed
      ultimately show ?thesis using Some by (auto simp: remove_compact_def)
    qed
    ultimately show ?thesis using kept rest i Some by auto
  qed
qed auto



end
