(* ===== verification/Pool_Math.thy ===== *)
theory Pool_Math
  imports Compound Js_Number
begin

text \<open>
  The arithmetic of the Reserve's Raydium pool on the server: what a Token-2022 transfer
  fee leaves (\<open>transferNet\<close>, \<open>transferGross\<close>), the pool route of Compound
  (\<open>lib/mainnet/compoundQuotes.ts\<close>), additions and withdrawals
  (\<open>lib/mainnet/liquidityLifecycle.ts\<close>). The fee function of \<open>@solana/spl-token\<close> is the
  parameter \<open>calc\<close>; \<open>documented_fee\<close> is what its documentation promises.
\<close>

section \<open>Transfer fees\<close>

datatype pool_error =
    TransferTooLarge
  | TooSmallForFees
  | TooSmallForLiquidity
  | AllocationExceeds
  | InvalidProjectTax
  | NoBalancedPoolRoute
  | SnapshotExpired
  | InvalidAdditionCaps
  | InvalidSlippage
  | AdditionTooSmall
  | AdditionExceedsCaps
  | InvalidWithdrawal
  | WithdrawalTooSmall
  | DivisionByZero
  | NotAnInteger

record transfer_fee =
  tf_basisPoints :: int
  tf_maximum :: int

definition U64 :: int where "U64 = 0xffffffffffffffff"

definition ceil_div :: "int \<Rightarrow> int \<Rightarrow> int" where
  "ceil_div a b = (a + b - 1) sdiv b"

definition bdiv :: "int \<Rightarrow> int \<Rightarrow> pool_error + int" where
  \<comment> \<open>BigInt division\<close>
  "bdiv a b = (if b = 0 then Inl DivisionByZero else Inr (a sdiv b))"

definition valid_fee :: "transfer_fee option \<Rightarrow> bool" where
  \<comment> \<open>what a Token-2022 mint can hold\<close>
  "valid_fee f \<longleftrightarrow> (\<forall>t. f = Some t \<longrightarrow> 0 \<le> tf_basisPoints t \<and> tf_basisPoints t \<le> 10000 \<and> 0 \<le> tf_maximum t)"

definition documented_fee :: "(transfer_fee \<Rightarrow> int \<Rightarrow> int) \<Rightarrow> bool" where
  "documented_fee calc \<longleftrightarrow> (\<forall>t g. valid_fee (Some t) \<longrightarrow> 0 \<le> g \<longrightarrow>
     calc t g = min ((g * tf_basisPoints t + 9999) div 10000) (tf_maximum t))"

definition transferNet :: "(transfer_fee \<Rightarrow> int \<Rightarrow> int) \<Rightarrow> int \<Rightarrow> transfer_fee option \<Rightarrow> int" where
  "transferNet calc gross fee = gross - (case fee of Some t \<Rightarrow> calc t gross | None \<Rightarrow> 0)"

definition transferGross :: "int \<Rightarrow> transfer_fee option \<Rightarrow> pool_error + int" where
  "transferGross net fee =
     (case fee of
        None \<Rightarrow> Inr net
      | Some t \<Rightarrow>
          if tf_basisPoints t = 0 then Inr net
          else let bps = tf_basisPoints t;
                   extra = (if bps = 10000 then tf_maximum t
                            else min (ceil_div (net * bps) (10000 - bps)) (tf_maximum t)) in
            rbind (require (net + extra \<le> U64) TransferTooLarge) (\<lambda>_. Inr (net + extra)))"

lemma ceil_div_eq: "0 \<le> a \<Longrightarrow> 0 < b \<Longrightarrow> ceil_div a b = (a + b - 1) div b"
  by (simp add: ceil_div_def sdiv_nonneg_eq)

lemma ceil_div_le: "0 \<le> a \<Longrightarrow> 0 < b \<Longrightarrow> ceil_div a b \<le> k \<longleftrightarrow> a \<le> b * k"
  by (simp add: ceil_div_eq ceil_div_le_iff)

lemma transferNet_simps [simp]: "transferNet calc gross None = gross"
  by (simp add: transferNet_def)

text \<open>The net of a transfer, in terms of the amount to deliver.\<close>

lemma transferNet_ge_iff:
  assumes "documented_fee calc" "valid_fee (Some t)" "0 \<le> m"
  shows "n \<le> transferNet calc m (Some t) \<longleftrightarrow> n + tf_maximum t \<le> m \<or> m * tf_basisPoints t \<le> 10000 * (m - n)"
proof -
  have "n \<le> transferNet calc m (Some t) \<longleftrightarrow>
      min ((m * tf_basisPoints t + 10000 - 1) div 10000) (tf_maximum t) \<le> m - n"
    using assms by (auto simp: transferNet_def documented_fee_def)
  also have "\<dots> \<longleftrightarrow> m * tf_basisPoints t \<le> 10000 * (m - n) \<or> tf_maximum t \<le> m - n"
    using ceil_div_le_iff [of 10000 "m * tf_basisPoints t" "m - n"] by (auto simp: min_le_iff_disj)
  finally show ?thesis by linarith
qed

lemma transferNet_bounds:
  assumes "documented_fee calc" "valid_fee fee" "0 \<le> g"
  shows "0 \<le> transferNet calc g fee" "transferNet calc g fee \<le> g"
proof -
  show "transferNet calc g fee \<le> g"
    using assms by (cases fee) (auto simp: transferNet_def documented_fee_def valid_fee_def pos_imp_zdiv_nonneg_iff)
  show "0 \<le> transferNet calc g fee"
  proof (cases fee)
    case (Some t)
    have "g * tf_basisPoints t \<le> g * 10000" using assms(2,3) Some by (intro mult_left_mono) (auto simp: valid_fee_def)
    then show ?thesis using transferNet_ge_iff [OF assms(1) _ assms(3), of t 0] assms(2) Some by simp
  qed (use assms(3) in simp)
qed

text \<open>\<open>transferGross\<close> without the limit of the token.\<close>

definition gross_needed :: "int \<Rightarrow> transfer_fee option \<Rightarrow> int" where
  "gross_needed net fee =
     (case fee of None \<Rightarrow> net
      | Some t \<Rightarrow> if tf_basisPoints t = 10000 then net + tf_maximum t
                  else net + min (ceil_div (net * tf_basisPoints t) (10000 - tf_basisPoints t)) (tf_maximum t))"

lemma transferGross_needed:
  "valid_fee fee \<Longrightarrow> 0 \<le> net \<Longrightarrow> transferGross net fee = Inr g \<Longrightarrow> g = gross_needed net fee"
  by (auto simp: transferGross_def gross_needed_def valid_fee_def Let_def res_iff ceil_div_eq min_absorb1
      split: option.splits if_splits)

lemma gross_needed_adjoint:
  assumes "documented_fee calc" "valid_fee fee" "0 < net" "0 \<le> m"
  shows "gross_needed net fee \<le> m \<longleftrightarrow> net \<le> transferNet calc m fee"
proof (cases fee)
  case (Some t)
  let ?b = "tf_basisPoints t"
  from assms(2) Some have b: "0 \<le> ?b" "?b \<le> 10000" by (auto simp: valid_fee_def)
  have net: "net \<le> transferNet calc m fee \<longleftrightarrow> net + tf_maximum t \<le> m \<or> m * ?b \<le> 10000 * (m - net)"
    using transferNet_ge_iff [OF assms(1) _ assms(4)] assms(2) Some by simp
  show ?thesis
  proof (cases "?b = 10000")
    case True
    with assms(3) net Some show ?thesis by (simp add: gross_needed_def)
  next
    case False
    with b have pos: "0 < 10000 - ?b" by simp
    have "ceil_div (net * ?b) (10000 - ?b) \<le> m - net \<longleftrightarrow> net * ?b \<le> (10000 - ?b) * (m - net)"
      using assms(3) b pos by (intro ceil_div_le) simp_all
    also have "\<dots> \<longleftrightarrow> m * ?b \<le> 10000 * (m - net)" by (simp add: algebra_simps)
    finally have "gross_needed net fee \<le> m \<longleftrightarrow> m * ?b \<le> 10000 * (m - net) \<or> net + tf_maximum t \<le> m"
      using False Some by (auto simp: gross_needed_def min_le_iff_disj)
    with net show ?thesis by blast
  qed
qed (simp add: gross_needed_def)

section \<open>The pool route of Compound\<close>

definition RATE_DENOMINATOR :: int where "RATE_DENOMINATOR = 1000000"

record compound_snapshot =
  cs_context :: compound_context
  cs_readAtMs :: int
  cs_usdc :: int
  cs_tokens :: int
  cs_lpSupply :: int
  cs_buyTaxBps :: int
  cs_protocolRate :: int
  cs_fundRate :: int
  cs_reserveTransferFee :: "transfer_fee option"
  cs_assets :: "string list"
  cs_accountRentRaw :: int

definition depositAmount :: "int \<Rightarrow> int \<Rightarrow> int \<Rightarrow> pool_error + int" where
  "depositAmount lp balance supply =
     rbind (bdiv (lp * balance) supply) (\<lambda>n. Inr (if n = 0 then 0 else ceil_div (lp * balance) supply))"

record acquisition =
  aq_received :: int
  aq_output :: int
  aq_projectTax :: int
  aq_tradeFee :: int
  aq_creatorFee :: int
  aq_usdc :: int
  aq_tokens :: int
  aq_impact :: int

definition poolAcquisition :: "(transfer_fee \<Rightarrow> int \<Rightarrow> int) \<Rightarrow> compound_snapshot \<Rightarrow> int \<Rightarrow> pool_error + acquisition" where
  "poolAcquisition calc s grossUsdc =
     (let projectTax = ceil_div (grossUsdc * cs_buyTaxBps s) 10000;
          taken = grossUsdc - projectTax;
          totalFee = ceil_div (taken * 10000) RATE_DENOMINATOR;
          creatorFee = totalFee * 7500 sdiv 10000;
          tradeFee = totalFee - creatorFee;
          protocolFee = tradeFee * cs_protocolRate s sdiv RATE_DENOMINATOR;
          fundFee = tradeFee * cs_fundRate s sdiv RATE_DENOMINATOR;
          curveInput = taken - totalFee in
      rbind (require (curveInput > 0) TooSmallForFees) (\<lambda>_.
      rbind (bdiv (curveInput * cs_tokens s) (cs_usdc s + curveInput)) (\<lambda>output.
      rbind (bdiv (curveInput * cs_tokens s) (cs_usdc s)) (\<lambda>fair.
      Inr \<lparr>aq_received = transferNet calc output (cs_reserveTransferFee s), aq_output = output,
           aq_projectTax = projectTax, aq_tradeFee = tradeFee, aq_creatorFee = creatorFee,
           aq_usdc = cs_usdc s + taken - creatorFee - protocolFee - fundFee, aq_tokens = cs_tokens s - output,
           aq_impact = fair - output\<rparr>))))"

record allocation =
  al_lp :: int
  al_net :: int
  al_gross :: int
  al_dollars :: int

definition allocate :: "(transfer_fee \<Rightarrow> int \<Rightarrow> int) \<Rightarrow> compound_snapshot \<Rightarrow> int \<Rightarrow> int \<Rightarrow> int \<Rightarrow> int \<Rightarrow> pool_error + allocation" where
  "allocate calc s availableTokens availableUsdc usdc tokens =
     rbind (bdiv (transferNet calc availableTokens (cs_reserveTransferFee s) * cs_lpSupply s) tokens) (\<lambda>byTokens.
     rbind (bdiv (availableUsdc * cs_lpSupply s) usdc) (\<lambda>byUsdc.
     let lp = min byTokens byUsdc in
     rbind (depositAmount lp tokens (cs_lpSupply s)) (\<lambda>net.
     rbind (depositAmount lp usdc (cs_lpSupply s)) (\<lambda>dollars.
     rbind (require (lp > 0 \<and> net > 0 \<and> dollars > 0) TooSmallForLiquidity) (\<lambda>_.
     rbind (transferGross net (cs_reserveTransferFee s)) (\<lambda>gross.
     rbind (require (gross \<le> availableTokens \<and> dollars \<le> availableUsdc) AllocationExceeds) (\<lambda>_.
     Inr \<lparr>al_lp = lp, al_net = net, al_gross = gross, al_dollars = dollars\<rparr>)))))))"

text \<open>
  The crossover between token-limited and USDC-limited deposits. The bounds start at 1 and
  at the budget less one and never go below zero: natural numbers.
\<close>

function pool_search :: "(transfer_fee \<Rightarrow> int \<Rightarrow> int) \<Rightarrow> compound_snapshot \<Rightarrow> nat \<Rightarrow> nat \<Rightarrow> nat" where
  "pool_search calc s lo hi =
     (if lo < hi then
        let mid = (lo + hi) div 2 in
        case poolAcquisition calc s (int mid) of
          Inl _ \<Rightarrow> pool_search calc s (mid + 1) hi
        | Inr q \<Rightarrow>
            if transferNet calc (aq_received q) (cs_reserveTransferFee s) * aq_usdc q
                 < (cx_budgetUsdcRaw (cs_context s) - int mid) * aq_tokens q
            then pool_search calc s (mid + 1) hi else pool_search calc s lo mid
      else lo)"
  by pat_completeness auto
termination
  by (relation "measure (\<lambda>(_, _, lo, hi). hi - lo)") auto

declare pool_search.simps [simp del]

type_synonym pool_plan = "int \<times> acquisition \<times> allocation"

definition pool_candidate :: "(transfer_fee \<Rightarrow> int \<Rightarrow> int) \<Rightarrow> compound_snapshot \<Rightarrow> nat \<Rightarrow> pool_plan list" where
  "pool_candidate calc s amount =
     (case rbind (poolAcquisition calc s (int amount)) (\<lambda>q.
             rbind (allocate calc s (aq_received q) (cx_budgetUsdcRaw (cs_context s) - int amount) (aq_usdc q) (aq_tokens q))
               (\<lambda>a. Inr (int amount, q, a))) of
        Inl _ \<Rightarrow> [] | Inr c \<Rightarrow> [c])"

definition pool_candidates :: "(transfer_fee \<Rightarrow> int \<Rightarrow> int) \<Rightarrow> compound_snapshot \<Rightarrow> pool_plan list" where
  "pool_candidates calc s =
     (let lo = pool_search calc s 1 (nat (cx_budgetUsdcRaw (cs_context s) - 1)) in
      sort_by (\<lambda>(_, _, a) (_, _, b). al_lp a < al_lp b)
        (concat (map (pool_candidate calc s) [lo, if lo > 1 then lo - 1 else lo])))"

definition swap_legs :: "compound_snapshot \<Rightarrow> compound_route \<Rightarrow> string \<Rightarrow> nat" where
  "swap_legs s route usdcMint = (case route of Mint \<Rightarrow> length [a \<leftarrow> cs_assets s. a \<noteq> usdcMint] | Pool \<Rightarrow> 1)"

definition lock_allowance :: "string \<Rightarrow> int" where
  "lock_allowance policy = (if policy = ''unlocked'' then 0 else if policy = ''permanent'' then 30000000 else 10000000)"

text \<open>\<open>digest\<close> is the SHA-256 of the plan's JSON.\<close>

definition finish_quote ::
  "(compound_context \<Rightarrow> compound_route \<Rightarrow> 'plan \<Rightarrow> int \<Rightarrow> int \<Rightarrow> string) \<Rightarrow> string \<Rightarrow> compound_snapshot \<Rightarrow> compound_route
    \<Rightarrow> int \<Rightarrow> int \<Rightarrow> allocation \<Rightarrow> compound_cost list \<Rightarrow> 'plan \<Rightarrow> int \<Rightarrow> pool_error + compound_quote" where
  "finish_quote digest usdcMint s route spent acquired a costs plan nowMs =
     rbind (require (nowMs - cs_readAtMs s < 25000) SnapshotExpired) (\<lambda>_.
     let c = cs_context s; legs = int (swap_legs s route usdcMint); network = (legs + 2) * 2000000;
         rent = cs_accountRentRaw s + legs * 10000000 + lock_allowance (cx_lockPolicyId c);
         fingerprint = digest c route plan network rent in
     Inr \<lparr>cq_id = fingerprint, cq_route = route, cq_context = c, cq_quotedAtMs = cs_readAtMs s,
          cq_expiresAtMs = cs_readAtMs s + 25000, cq_planFingerprint = fingerprint,
          cq_acquisitionUsdcRaw = spent, cq_depositUsdcRaw = al_dollars a,
          cq_leftoverUsdcRaw = cx_budgetUsdcRaw c - spent - al_dollars a, cq_acquiredReserveRaw = acquired,
          cq_depositReserveGrossRaw = al_gross a, cq_depositReserveNetRaw = al_net a,
          cq_leftoverReserveRaw = acquired - al_gross a, cq_expectedLpRaw = al_lp a,
          cq_minimumLpRaw = al_lp a * (10000 - cx_slippageBps c) sdiv 10000, cq_maximumSolCostRaw = network + rent,
          cq_costs = costs @ [\<lparr>cc_kind = NetworkFee, cc_unit = SOL, cc_amountRaw = network\<rparr>,
                              \<lparr>cc_kind = AccountRent, cc_unit = SOL, cc_amountRaw = rent\<rparr>]\<rparr>)"

definition pool_costs :: "acquisition \<Rightarrow> allocation \<Rightarrow> compound_cost list" where
  "pool_costs q a =
     [\<lparr>cc_kind = PoolTradeFee, cc_unit = USDC, cc_amountRaw = aq_tradeFee q + aq_creatorFee q\<rparr>,
      \<lparr>cc_kind = ProjectTax, cc_unit = USDC, cc_amountRaw = aq_projectTax q\<rparr>,
      \<lparr>cc_kind = TransferFee, cc_unit = ReserveToken, cc_amountRaw = aq_output q - aq_received q + al_gross a - al_net a\<rparr>,
      \<lparr>cc_kind = PriceImpact, cc_unit = ReserveToken, cc_amountRaw = aq_impact q\<rparr>]"

definition pool_provider ::
  "(transfer_fee \<Rightarrow> int \<Rightarrow> int) \<Rightarrow> (compound_context \<Rightarrow> compound_route \<Rightarrow> pool_plan \<Rightarrow> int \<Rightarrow> int \<Rightarrow> string) \<Rightarrow> string
    \<Rightarrow> compound_snapshot \<Rightarrow> int \<Rightarrow> pool_error + compound_quote" where
  "pool_provider calc digest usdcMint s nowMs =
     rbind (require (cs_buyTaxBps s \<ge> 0 \<and> cs_buyTaxBps s \<le> 200) InvalidProjectTax) (\<lambda>_.
     case pool_candidates calc s of
       [] \<Rightarrow> Inl NoBalancedPoolRoute
     | (spent, q, a) # _ \<Rightarrow>
         finish_quote digest usdcMint s Pool spent (aq_received q) a (pool_costs q a) (spent, q, a) nowMs)"

section \<open>Additions and withdrawals\<close>

record pool_view =
  pv_usdc :: int
  pv_tokens :: int
  pv_lpSupply :: int
  pv_fee :: "transfer_fee option"

record liquidity_amounts =
  la_lp :: int
  la_usdc :: int
  la_reserve :: int

definition addAmounts ::
  "(transfer_fee \<Rightarrow> int \<Rightarrow> int) \<Rightarrow> pool_view \<Rightarrow> int \<Rightarrow> int \<Rightarrow> int \<Rightarrow> pool_error + liquidity_amounts" where
  "addAmounts calc s maxUsdc maxReserve slippageBps =
     rbind (require (maxUsdc > 0 \<and> maxReserve > 0 \<and> maxUsdc \<le> U64 \<and> maxReserve \<le> U64) InvalidAdditionCaps) (\<lambda>_.
     rbind (require (slippageBps \<ge> 0 \<and> slippageBps \<le> 100) Pool_Math.InvalidSlippage) (\<lambda>_.
     rbind (bdiv (maxUsdc * pv_lpSupply s) (pv_usdc s)) (\<lambda>byUsdc.
     rbind (bdiv (transferNet calc maxReserve (pv_fee s) * pv_lpSupply s) (pv_tokens s)) (\<lambda>byTokens.
     let lp = min byUsdc byTokens * (10000 - slippageBps) sdiv 10000 in
     rbind (require (lp > 0) AdditionTooSmall) (\<lambda>_.
     rbind (bdiv (lp * pv_usdc s) (pv_lpSupply s)) (\<lambda>u.
     rbind (bdiv (lp * pv_tokens s) (pv_lpSupply s)) (\<lambda>t.
     rbind (require (u > 0 \<and> t > 0) AdditionTooSmall) (\<lambda>_.
     rbind (transferGross (ceil_div (lp * pv_tokens s) (pv_lpSupply s)) (pv_fee s)) (\<lambda>reserve.
     let usdc = ceil_div (lp * pv_usdc s) (pv_lpSupply s) in
     rbind (require (usdc \<le> maxUsdc \<and> reserve \<le> maxReserve) AdditionExceedsCaps) (\<lambda>_.
     Inr \<lparr>la_lp = lp, la_usdc = usdc, la_reserve = reserve\<rparr>))))))))))"

record withdrawal =
  wd_usdc :: int
  wd_reserve :: int
  wd_minimumUsdc :: int
  wd_minimumReserve :: int

definition withdrawAmounts ::
  "(transfer_fee \<Rightarrow> int \<Rightarrow> int) \<Rightarrow> pool_view \<Rightarrow> int \<Rightarrow> int \<Rightarrow> pool_error + withdrawal" where
  "withdrawAmounts calc s lp slippageBps =
     rbind (require (lp > 0 \<and> lp \<le> pv_lpSupply s) InvalidWithdrawal) (\<lambda>_.
     rbind (require (slippageBps \<ge> 0 \<and> slippageBps \<le> 100) Pool_Math.InvalidSlippage) (\<lambda>_.
     let usdc = lp * pv_usdc s sdiv pv_lpSupply s;
         reserve = transferNet calc (lp * pv_tokens s sdiv pv_lpSupply s) (pv_fee s);
         minimumUsdc = usdc * (10000 - slippageBps) sdiv 10000;
         minimumReserve = reserve * (10000 - slippageBps) sdiv 10000 in
     rbind (require (minimumUsdc > 0 \<and> minimumReserve > 0) WithdrawalTooSmall) (\<lambda>_.
     Inr \<lparr>wd_usdc = usdc, wd_reserve = reserve, wd_minimumUsdc = minimumUsdc, wd_minimumReserve = minimumReserve\<rparr>)))"

section \<open>What the amounts guarantee\<close>

text \<open>
  The transfer that \<open>transferGross\<close> computes is the smallest one that still delivers
  the wanted amount after the token's fee, for every fee a Token-2022 mint can hold; it
  only fails above the token's limit.
\<close>

theorem transfer_gross_is_least:
  assumes "documented_fee calc" "valid_fee fee" "0 < net"
  shows "(case transferGross net fee of
      Inr gross \<Rightarrow> \<forall>m \<ge> 0. gross \<le> m \<longleftrightarrow> net \<le> transferNet calc m fee
    | Inl e \<Rightarrow> e = TransferTooLarge \<and> (\<forall>m \<ge> 0. net \<le> transferNet calc m fee \<longrightarrow> U64 < m))"
proof (cases "transferGross net fee")
  case (Inr g)
  with transferGross_needed [OF assms(2) _ Inr] assms(3) gross_needed_adjoint [OF assms] show ?thesis by simp
next
  case (Inl e)
  then have "e = TransferTooLarge" "U64 < gross_needed net fee"
    using assms(2,3) by (auto simp: transferGross_def gross_needed_def valid_fee_def Let_def require_Inl_iff rbind_Inl_iff
        split: option.splits if_splits)
  with Inl gross_needed_adjoint [OF assms] show ?thesis by fastforce
qed

definition spl_fee :: "transfer_fee \<Rightarrow> int \<Rightarrow> int" where
  "spl_fee t g = min ((g * tf_basisPoints t + 9999) div 10000) (tf_maximum t)"

lemma spl_fee_documented: "documented_fee spl_fee"
  by (simp add: documented_fee_def spl_fee_def)

theorem transfer_gross_is_least_witness:
  "transferGross 1000 (Some \<lparr>tf_basisPoints = 15, tf_maximum = 5000\<rparr>) = Inr 1002 \<and>
   1000 \<le> transferNet spl_fee 1002 (Some \<lparr>tf_basisPoints = 15, tf_maximum = 5000\<rparr>)"
proof -
  let ?f = "Some \<lparr>tf_basisPoints = 15, tf_maximum = 5000\<rparr>"
  have g: "transferGross 1000 ?f = Inr 1002" by code_simp
  have "valid_fee ?f" by (simp add: valid_fee_def)
  from transfer_gross_is_least [OF spl_fee_documented this, of 1000] show ?thesis unfolding g by (auto dest: spec [of _ 1002])
qed

lemma share_fits:
  assumes "0 < balance" "0 < supply" "0 \<le> lp" "lp \<le> (cap * supply) div balance"
  shows "ceil_div (lp * balance) supply \<le> cap"
proof -
  have "lp * balance \<le> balance * ((cap * supply) div balance)"
    using assms(1,4) by (simp add: mult.commute mult_left_mono)
  also have "\<dots> \<le> cap * supply" by (rule mult_div_le_int [OF assms(1)])
  finally show ?thesis using assms by (simp add: ceil_div_le mult.commute)
qed

lemma scaled_le: "0 \<le> x \<Longrightarrow> 0 \<le> k \<Longrightarrow> k \<le> 10000 \<Longrightarrow> 0 \<le> x * k sdiv 10000 \<and> x * k sdiv 10000 \<le> (x::int)"
  using mult_left_mono [of k 10000 x]
  by (auto simp: sdiv_nonneg_eq pos_imp_zdiv_nonneg_iff mult.commute intro!: div_le_of_le_mult)

lemma deposit_gross_fits:
  assumes "documented_fee calc" "valid_fee fee" "0 < tokens" "0 < supply" "0 < lp" "0 \<le> held"
    "lp \<le> (transferNet calc held fee * supply) div tokens"
    "transferGross (ceil_div (lp * tokens) supply) fee = Inr g"
  shows "g \<le> held"
proof -
  let ?n = "ceil_div (lp * tokens) supply"
  have fits: "?n \<le> transferNet calc held fee" using assms(3-5,7) by (intro share_fits) auto
  have "0 < ?n" using ceil_div_ge [of "supply" "lp * tokens"] assms(3,4,5)
    by (smt (verit) ceil_div_eq mult_pos_pos zero_less_mult_pos)
  with gross_needed_adjoint [OF assms(1,2) this assms(6)] transferGross_needed [OF assms(2) _ assms(8)] fits
  show ?thesis by simp
qed

text \<open>
  #####an addition the server prepares never needs more USDC or Reserve Tokens, transfer
  fee included, than the caps the creator reviewed: the final check of \<open>addAmounts\<close> cannot
  fail.
\<close>

theorem addition_never_exceeds_caps:
  assumes "documented_fee calc" "valid_fee (pv_fee s)" "0 < pv_usdc s" "0 < pv_tokens s" "0 < pv_lpSupply s"
  shows "addAmounts calc s maxUsdc maxReserve slippageBps \<noteq> Inl AdditionExceedsCaps"
proof
  let ?lp = "min ((maxUsdc * pv_lpSupply s) sdiv pv_usdc s) ((transferNet calc maxReserve (pv_fee s) * pv_lpSupply s) sdiv pv_tokens s)
               * (10000 - slippageBps) sdiv 10000"
  assume "addAmounts calc s maxUsdc maxReserve slippageBps = Inl AdditionExceedsCaps"
  then obtain reserve where caps: "0 < maxUsdc" "0 < maxReserve" "0 \<le> slippageBps" "slippageBps \<le> 100"
    and lp: "0 < ?lp"
    and g: "transferGross (ceil_div (?lp * pv_tokens s) (pv_lpSupply s)) (pv_fee s) = Inr reserve"
    and bad: "\<not> (ceil_div (?lp * pv_usdc s) (pv_lpSupply s) \<le> maxUsdc \<and> reserve \<le> maxReserve)"
    using assms(3-5) by (auto simp: addAmounts_def rbind_Inl_iff require_Inl_iff res_iff bdiv_def Let_def transferGross_def split: option.splits if_splits)
  let ?u = "(maxUsdc * pv_lpSupply s) div pv_usdc s"
  let ?t = "(transferNet calc maxReserve (pv_fee s) * pv_lpSupply s) div pv_tokens s"
  have net: "0 \<le> transferNet calc maxReserve (pv_fee s)" using transferNet_bounds [OF assms(1,2)] caps by simp
  have nn: "0 \<le> ?u" "0 \<le> ?t" using caps assms net by (simp_all add: pos_imp_zdiv_nonneg_iff)
  have eq: "?lp = min ?u ?t * (10000 - slippageBps) sdiv 10000" using caps assms net by (simp add: sdiv_nonneg_eq)
  have "?lp \<le> min ?u ?t" unfolding eq using nn caps scaled_le [of "min ?u ?t" "10000 - slippageBps"] by simp
  then have le: "?lp \<le> ?u" "?lp \<le> ?t" by simp_all
  have "ceil_div (?lp * pv_usdc s) (pv_lpSupply s) \<le> maxUsdc" using le(1) lp assms by (intro share_fits) auto
  moreover have "reserve \<le> maxReserve"
    using deposit_gross_fits [OF assms(1,2,4,5) lp _ le(2) g] caps by simp
  ultimately show False using bad by simp
qed

theorem addition_never_exceeds_caps_witness:
  "addAmounts spl_fee \<lparr>pv_usdc = 1000, pv_tokens = 500, pv_lpSupply = 700, pv_fee = Some \<lparr>tf_basisPoints = 15, tf_maximum = 5000\<rparr>\<rparr>
     100 60 50 \<noteq> Inl AdditionExceedsCaps"
  by (rule addition_never_exceeds_caps) (simp_all add: spl_fee_documented valid_fee_def)

lemma ceil_div_covers: "0 \<le> a \<Longrightarrow> 0 < b \<Longrightarrow> a \<le> b * ceil_div a b"
  using ceil_div_ge [of b a] by (simp add: ceil_div_eq)

lemma gross_needed_ge:
  assumes "valid_fee fee" "0 \<le> net"
  shows "net \<le> gross_needed net fee"
proof (cases fee)
  case (Some t)
  have "0 \<le> ceil_div (net * tf_basisPoints t) (10000 - tf_basisPoints t)" if "tf_basisPoints t \<noteq> 10000"
    using that assms Some ceil_div_nonneg [of "10000 - tf_basisPoints t" "net * tf_basisPoints t"]
    by (auto simp: valid_fee_def ceil_div_eq)
  then show ?thesis using assms Some by (auto simp: gross_needed_def valid_fee_def)
qed (simp add: gross_needed_def)

lemma share_back:
  assumes "0 < supply" "0 < lp" "lp * x \<le> d * supply"
  shows "lp * (x + d) div (supply + lp) \<le> (d::int)"
  using assms by (intro div_le_of_le_mult) (auto simp: algebra_simps)

lemma addAmounts_Inr:
  assumes "addAmounts calc s maxUsdc maxReserve slippageBps = Inr a" "0 < pv_lpSupply s"
  shows "0 < la_lp a" "la_usdc a = ceil_div (la_lp a * pv_usdc s) (pv_lpSupply s)"
    "transferGross (ceil_div (la_lp a * pv_tokens s) (pv_lpSupply s)) (pv_fee s) = Inr (la_reserve a)"
    "la_usdc a \<le> maxUsdc" "la_reserve a \<le> maxReserve"
  using assms by (auto simp: addAmounts_def res_iff Let_def)

text \<open>The pool after an addition went in: its balances grow by what the transfers deliver.\<close>

definition pool_after_addition :: "(transfer_fee \<Rightarrow> int \<Rightarrow> int) \<Rightarrow> pool_view \<Rightarrow> liquidity_amounts \<Rightarrow> pool_view" where
  "pool_after_addition calc s a =
     s\<lparr>pv_usdc := pv_usdc s + la_usdc a, pv_tokens := pv_tokens s + transferNet calc (la_reserve a) (pv_fee s),
       pv_lpSupply := pv_lpSupply s + la_lp a\<rparr>"

text \<open>
  C9: adding liquidity and withdrawing it at once never returns more USDC or more Reserve
  Tokens than were paid in, whatever the caps and the slippages.
\<close>

theorem liquidity_add_withdraw_no_profit:
  assumes "documented_fee calc" "valid_fee (pv_fee s)" "0 < pv_usdc s" "0 < pv_tokens s" "0 < pv_lpSupply s"
    "addAmounts calc s maxUsdc maxReserve slippageBps = Inr a"
    "withdrawAmounts calc (pool_after_addition calc s a) (la_lp a) slippageBps' = Inr w"
  shows "wd_usdc w \<le> la_usdc a \<and> wd_reserve w \<le> la_reserve a"
proof -
  note a = addAmounts_Inr [OF assms(6,5)]
  let ?n = "ceil_div (la_lp a * pv_tokens s) (pv_lpSupply s)"
  let ?N = "transferNet calc (la_reserve a) (pv_fee s)"
  have up: "la_lp a * pv_usdc s \<le> la_usdc a * pv_lpSupply s" "la_lp a * pv_tokens s \<le> ?n * pv_lpSupply s"
    using ceil_div_covers [of "la_lp a * pv_usdc s"] ceil_div_covers [of "la_lp a * pv_tokens s"] a(1,2) assms(3-5)
    by (simp_all add: mult.commute)
  have U: "0 < la_usdc a" using up(1) a(1) assms(3,5) by (metis less_le_trans mult_pos_pos zero_less_mult_pos2)
  have n: "0 < ?n" using up(2) a(1) assms(4,5) by (metis less_le_trans mult_pos_pos zero_less_mult_pos2)
  have g: "la_reserve a = gross_needed ?n (pv_fee s)" using transferGross_needed [OF assms(2) _ a(3)] n by simp
  have "0 \<le> la_reserve a" using g n gross_needed_ge [OF assms(2), of ?n] by simp
  moreover from gross_needed_adjoint [OF assms(1,2) n this] g have N: "?n \<le> ?N" by simp
  ultimately have le: "?N \<le> la_reserve a" using transferNet_bounds [OF assms(1,2)] by simp
  have u: "la_lp a * (pv_usdc s + la_usdc a) div (pv_lpSupply s + la_lp a) \<le> la_usdc a"
    by (rule share_back [OF assms(5) a(1) up(1)])
  have "la_lp a * pv_tokens s \<le> ?N * pv_lpSupply s"
    using up(2) mult_right_mono [OF N, of "pv_lpSupply s"] assms(5) by linarith
  then have t: "la_lp a * (pv_tokens s + ?N) div (pv_lpSupply s + la_lp a) \<le> ?N" by (rule share_back [OF assms(5) a(1)])
  have pos: "0 \<le> la_lp a * (pv_usdc s + la_usdc a)" "0 \<le> la_lp a * (pv_tokens s + ?N)" "0 < pv_lpSupply s + la_lp a"
    using a(1) U N n assms(3-5) by simp_all
  from assms(7) have w: "wd_usdc w = la_lp a * (pv_usdc s + la_usdc a) sdiv (pv_lpSupply s + la_lp a)"
    "wd_reserve w = transferNet calc (la_lp a * (pv_tokens s + ?N) sdiv (pv_lpSupply s + la_lp a)) (pv_fee s)"
    by (auto simp: withdrawAmounts_def pool_after_addition_def res_iff Let_def)
  have "wd_reserve w \<le> la_lp a * (pv_tokens s + ?N) div (pv_lpSupply s + la_lp a)"
    unfolding w sdiv_nonneg_eq [OF pos(2,3)] using pos
    by (intro transferNet_bounds [OF assms(1,2)]) (simp add: pos_imp_zdiv_nonneg_iff)
  with u t le w(1) show ?thesis by (simp add: sdiv_nonneg_eq [OF pos(1,3)])
qed

theorem liquidity_add_withdraw_no_profit_witness:
  "(let s = \<lparr>pv_usdc = 100000, pv_tokens = 50000, pv_lpSupply = 70000, pv_fee = Some \<lparr>tf_basisPoints = 15, tf_maximum = 5000\<rparr>\<rparr> in
    \<exists>a w. addAmounts spl_fee s 1000 600 50 = Inr a \<and>
      withdrawAmounts spl_fee (pool_after_addition spl_fee s a) (la_lp a) 100 = Inr w \<and>
      wd_usdc w \<le> la_usdc a \<and> wd_reserve w \<le> la_reserve a)"
proof -
  let ?s = "\<lparr>pv_usdc = 100000, pv_tokens = 50000, pv_lpSupply = 70000, pv_fee = Some \<lparr>tf_basisPoints = 15, tf_maximum = 5000\<rparr>\<rparr>"
  have a: "addAmounts spl_fee ?s 1000 600 50 = Inr \<lparr>la_lp = 696, la_usdc = 995, la_reserve = 499\<rparr>" by code_simp
  have w: "withdrawAmounts spl_fee (pool_after_addition spl_fee ?s \<lparr>la_lp = 696, la_usdc = 995, la_reserve = 499\<rparr>) 696 100 =
      Inr \<lparr>wd_usdc = 994, wd_reserve = 496, wd_minimumUsdc = 984, wd_minimumReserve = 491\<rparr>" by code_simp
  from liquidity_add_withdraw_no_profit [OF spl_fee_documented _ _ _ _ a, of 100] w a show ?thesis
    by (simp add: valid_fee_def Let_def)
qed

section \<open>The pool route's quotes validate\<close>

definition snapshot_ok :: "compound_snapshot \<Rightarrow> bool" where
  \<comment> \<open>what \<open>readCompoundSnapshot\<close> checks before it returns a snapshot\<close>
  "snapshot_ok s \<longleftrightarrow>
     validateCompoundContext (cs_context s) = Inr () \<and> 0 < cs_usdc s \<and> 0 < cs_tokens s \<and> 0 < cs_lpSupply s \<and>
     valid_fee (cs_reserveTransferFee s) \<and> 0 \<le> cs_accountRentRaw s \<and>
     0 \<le> cs_protocolRate s \<and> 0 \<le> cs_fundRate s \<and> cs_protocolRate s + cs_fundRate s \<le> RATE_DENOMINATOR"

lemma fee_part: "0 \<le> x \<Longrightarrow> 0 \<le> k \<Longrightarrow> k \<le> d \<Longrightarrow> 0 < d \<Longrightarrow> 0 \<le> x * k sdiv d \<and> x * k sdiv d \<le> (x::int)"
  using mult_left_mono [of k d x] by (auto simp: sdiv_nonneg_eq pos_imp_zdiv_nonneg_iff mult.commute intro!: div_le_of_le_mult)

lemma ceil_part: "0 \<le> x \<Longrightarrow> 0 \<le> k \<Longrightarrow> k \<le> d \<Longrightarrow> 0 < d \<Longrightarrow> 0 \<le> ceil_div (x * k) d \<and> ceil_div (x * k) d \<le> x"
  using mult_left_mono [of k d x] ceil_div_nonneg [of d "x * k"]
  by (auto simp: ceil_div_eq ceil_div_le_iff mult.commute)

lemma poolAcquisition_sound:
  assumes "poolAcquisition calc s (int n) = Inr q" "snapshot_ok s" "documented_fee calc" "0 \<le> cs_buyTaxBps s" "cs_buyTaxBps s \<le> 200"
  shows "0 < n" "0 \<le> aq_projectTax q" "aq_projectTax q \<le> int n" "0 \<le> aq_tradeFee q" "0 \<le> aq_creatorFee q"
    "aq_tradeFee q + aq_creatorFee q \<le> int n" "0 \<le> aq_received q" "aq_received q \<le> aq_output q"
    "0 \<le> aq_impact q" "0 < aq_usdc q" "0 < aq_tokens q" "aq_output q < cs_tokens s"
proof -
  define tax where "tax = ceil_div (int n * cs_buyTaxBps s) 10000"
  define taken where "taken = int n - tax"
  define fee where "fee = ceil_div (taken * 10000) RATE_DENOMINATOR"
  define creator where "creator = fee * 7500 sdiv 10000"
  define protocol where "protocol = (fee - creator) * cs_protocolRate s sdiv RATE_DENOMINATOR"
  define fund where "fund = (fee - creator) * cs_fundRate s sdiv RATE_DENOMINATOR"
  define out where "out = (taken - fee) * cs_tokens s sdiv (cs_usdc s + (taken - fee))"
  note folded = assms(1) [unfolded poolAcquisition_def Let_def, folded tax_def, folded taken_def, folded fee_def,
      folded creator_def, folded protocol_def fund_def]
  from assms(2) have s: "0 < cs_usdc s" "0 < cs_tokens s" "0 \<le> cs_protocolRate s" "0 \<le> cs_fundRate s"
    "cs_protocolRate s + cs_fundRate s \<le> RATE_DENOMINATOR" "valid_fee (cs_reserveTransferFee s)" by (auto simp: snapshot_ok_def)
  from folded s have in0: "0 < taken - fee" and q: "q = \<lparr>aq_received = transferNet calc out (cs_reserveTransferFee s),
      aq_output = out, aq_projectTax = tax, aq_tradeFee = fee - creator, aq_creatorFee = creator,
      aq_usdc = cs_usdc s + taken - creator - protocol - fund, aq_tokens = cs_tokens s - out,
      aq_impact = (taken - fee) * cs_tokens s sdiv cs_usdc s - out\<rparr>"
    by (auto simp: res_iff bdiv_def out_def)
  have tax: "0 \<le> tax" "tax \<le> int n" using ceil_part [of "int n" "cs_buyTaxBps s" 10000] assms(4,5) by (simp_all add: tax_def)
  then have taken: "0 \<le> taken" "taken \<le> int n" by (simp_all add: taken_def)
  have fee: "0 \<le> fee" "fee \<le> taken" using ceil_part [of taken 10000 RATE_DENOMINATOR] taken by (simp_all add: fee_def RATE_DENOMINATOR_def)
  have creator: "0 \<le> creator" "creator \<le> fee" using fee_part [of fee 7500 10000] fee by (simp_all add: creator_def)
  have protocol: "0 \<le> protocol" "0 \<le> fund"
    using fee_part [of "fee - creator"] creator s by (simp_all add: protocol_def fund_def RATE_DENOMINATOR_def)
  have "protocol + fund \<le> fee - creator"
  proof -
    have "protocol = (fee - creator) * cs_protocolRate s div RATE_DENOMINATOR"
      "fund = (fee - creator) * cs_fundRate s div RATE_DENOMINATOR"
      using creator s by (simp_all add: protocol_def fund_def RATE_DENOMINATOR_def sdiv_nonneg_eq)
    moreover have "RATE_DENOMINATOR * ((fee - creator) * cs_protocolRate s div RATE_DENOMINATOR)
        + RATE_DENOMINATOR * ((fee - creator) * cs_fundRate s div RATE_DENOMINATOR)
        \<le> (fee - creator) * (cs_protocolRate s + cs_fundRate s)"
      using mult_div_le_int [of RATE_DENOMINATOR] by (simp add: RATE_DENOMINATOR_def distrib_left add_mono)
    moreover have "(fee - creator) * (cs_protocolRate s + cs_fundRate s) \<le> (fee - creator) * RATE_DENOMINATOR"
      using creator s by (intro mult_left_mono) auto
    ultimately show ?thesis by (simp add: RATE_DENOMINATOR_def)
  qed
  have outd: "out = (taken - fee) * cs_tokens s div (cs_usdc s + (taken - fee))" using in0 s by (simp add: out_def sdiv_nonneg_eq)
  have "(taken - fee) * cs_tokens s < (cs_usdc s + (taken - fee)) * cs_tokens s" using s by (simp add: distrib_right)
  then have out: "out < cs_tokens s" "0 \<le> out"
    unfolding outd using in0 s by (auto intro!: div_lt_of_lt_mult simp: pos_imp_zdiv_nonneg_iff)
  have "out \<le> (taken - fee) * cs_tokens s div cs_usdc s"
    unfolding outd using in0 s by (intro zdiv_mono2) auto
  moreover have "(taken - fee) * cs_tokens s sdiv cs_usdc s = (taken - fee) * cs_tokens s div cs_usdc s"
    using in0 s by (simp add: sdiv_nonneg_eq)
  moreover note transferNet_bounds [OF assms(3) s(6) out(2)]
  ultimately show "0 < n" "0 \<le> aq_projectTax q" "aq_projectTax q \<le> int n" "0 \<le> aq_tradeFee q" "0 \<le> aq_creatorFee q"
    "aq_tradeFee q + aq_creatorFee q \<le> int n" "0 \<le> aq_received q" "aq_received q \<le> aq_output q"
    "0 \<le> aq_impact q" "0 < aq_usdc q" "0 < aq_tokens q" "aq_output q < cs_tokens s"
    using in0 tax taken fee creator protocol \<open>protocol + fund \<le> fee - creator\<close> out s by (simp_all add: q)
qed

lemma allocate_sound:
  assumes "allocate calc s availableTokens availableUsdc usdc tokens = Inr a" "snapshot_ok s"
  shows "0 < al_lp a" "0 < al_net a" "0 < al_dollars a" "al_net a \<le> al_gross a" "al_gross a \<le> availableTokens"
    "al_dollars a \<le> availableUsdc"
proof -
  from assms(1) show *: "0 < al_lp a" "0 < al_net a" "0 < al_dollars a" "al_gross a \<le> availableTokens" "al_dollars a \<le> availableUsdc"
    by (auto simp: allocate_def res_iff Let_def)
  from assms(1) have "transferGross (al_net a) (cs_reserveTransferFee s) = Inr (al_gross a)"
    by (auto simp: allocate_def res_iff Let_def)
  with transferGross_needed [of "cs_reserveTransferFee s" "al_net a" "al_gross a"] assms(2) *(2)
    gross_needed_ge [of "cs_reserveTransferFee s" "al_net a"]
  show "al_net a \<le> al_gross a" by (simp add: snapshot_ok_def)
qed

lemma pool_candidates_sound:
  assumes "pool_candidates calc s = (spent, q, a) # rest"
  obtains n where "spent = int n" "poolAcquisition calc s (int n) = Inr q"
    "allocate calc s (aq_received q) (cx_budgetUsdcRaw (cs_context s) - int n) (aq_usdc q) (aq_tokens q) = Inr a"
proof -
  from assms have "(spent, q, a) \<in> set (pool_candidates calc s)" by simp
  then obtain n where "(spent, q, a) \<in> set (pool_candidate calc s n)" by (auto simp: pool_candidates_def Let_def)
  then have "rbind (poolAcquisition calc s (int n)) (\<lambda>q. rbind (allocate calc s (aq_received q)
      (cx_budgetUsdcRaw (cs_context s) - int n) (aq_usdc q) (aq_tokens q)) (\<lambda>a. Inr (int n, q, a))) = Inr (spent, q, a)"
    by (simp add: pool_candidate_def split: sum.splits)
  then show ?thesis by (auto simp: res_iff intro: that)
qed


definition demo_snapshot :: compound_snapshot where
  "demo_snapshot =
     \<lparr>cs_context = demo_context, cs_readAtMs = 1000, cs_usdc = 1000000, cs_tokens = 500000, cs_lpSupply = 700000,
      cs_buyTaxBps = 100, cs_protocolRate = 120000, cs_fundRate = 40000,
      cs_reserveTransferFee = Some \<lparr>tf_basisPoints = 15, tf_maximum = 5000\<rparr>, cs_assets = [], cs_accountRentRaw = 2039280\<rparr>"

lemma demo_snapshot_ok: "snapshot_ok demo_snapshot"
  by (simp add: snapshot_ok_def demo_snapshot_def valid_fee_def RATE_DENOMINATOR_def validateCompoundContext_def
      demo_context_def isSafeInteger_def)


end
