(* ===== verification/Basket_Feed.thy ===== *)
theory Basket_Feed
  imports Pool_Math Liquidity
begin

text \<open>
  The basket feed keeper: the pool leg (\<open>lib/mainnet/poolFeed.ts\<close>), the split of what is
  released over the Reserve's assets and the run for one pool
  (\<open>lib/mainnet/basketFeed.ts\<close>), and the dust rules (\<open>lib/mainnet/keeperDust.ts\<close>).
  Accounts, Jupiter and the submission of transactions are the world the run talks to: the
  answers are arguments.
\<close>

section \<open>Math.sqrt\<close>

text \<open>
  The correctly rounded square root of binary64. The integer root of the scaled argument
  has more than 64 bits; a half added when it is not exact decides the rounding as the
  digits that follow would.
\<close>

function isqrt :: "int \<Rightarrow> int" where
  "isqrt n = (if n \<le> 0 then 0 else let r = 2 * isqrt (n div 4) in if (r + 1) * (r + 1) \<le> n then r + 1 else r)"
  by pat_completeness auto
termination by (relation "measure nat") auto

declare isqrt.simps [simp del]

lemma isqrt_sound: "0 \<le> n \<Longrightarrow> 0 \<le> isqrt n \<and> isqrt n * isqrt n \<le> n \<and> n < (isqrt n + 1) * (isqrt n + 1)"
proof (induction n rule: isqrt.induct)
  case (1 n)
  show ?case
  proof (cases "n = 0")
    case False
    define q where "q = isqrt (n div 4)"
    from 1 False have q: "0 \<le> q" "q * q \<le> n div 4" "n div 4 < (q + 1) * (q + 1)" by (auto simp: q_def)
    have "4 * (q * q) \<le> n" using q(2) by linarith
    moreover have "n < 4 * ((q + 1) * (q + 1))" using q(3) by linarith
    moreover have "isqrt n = (if (2 * q + 1) * (2 * q + 1) \<le> n then 2 * q + 1 else 2 * q)"
      using False 1(2) by (subst isqrt.simps) (simp add: q_def Let_def)
    ultimately show ?thesis using q(1) by (auto simp: algebra_simps)
  qed (simp add: isqrt.simps)
qed

lemma isqrt_eqI:
  assumes "0 \<le> r" "r * r \<le> n" "n < (r + 1) * (r + 1)"
  shows "isqrt n = r"
proof -
  have n: "0 \<le> n" using assms(1,2) by (meson mult_nonneg_nonneg order_trans)
  have "isqrt n < r + 1" using isqrt_sound [OF n] assms by (smt (verit) mult_mono)
  moreover have "r < isqrt n + 1" using isqrt_sound [OF n] assms by (smt (verit) mult_mono)
  ultimately show ?thesis by simp
qed

fun num_sqrt :: "number \<Rightarrow> number" where
  "num_sqrt (Fin a) =
     (if a < 0 then NaN else if a = 0 then Fin 0
      else let k = 64 + bit_length (nat (snd (quotient_of a)));
               x = a * 4 ^ k;
               s = isqrt \<lfloor>x\<rfloor>
           in round64 ((of_int s + (if of_int (s * s) = x then 0 else 1 / 2)) / 2 ^ k))"
| "num_sqrt Infty = Infty"
| "num_sqrt NegInfty = NaN"
| "num_sqrt NaN = NaN"

section \<open>The pool leg\<close>

definition POOL_INPUT_FEE_PPM :: int where "POOL_INPUT_FEE_PPM = 10000"
definition POOL_LEG_MAX_SHARE_BPS :: int where "POOL_LEG_MAX_SHARE_BPS = 200"
definition DEPOSIT_MARGIN_BPS :: int where "DEPOSIT_MARGIN_BPS = 30"
definition SWAP_SLIPPAGE_BPS :: int where "SWAP_SLIPPAGE_BPS = 50"

definition poolNavDeviationPct :: "int \<Rightarrow> int \<Rightarrow> number \<Rightarrow> number option" where
  "poolNavDeviationPct poolUsdcRaw poolTokensRaw navUsdc =
     (if poolUsdcRaw \<le> 0 \<or> poolTokensRaw \<le> 0 \<or> \<not> num_less (Fin 0) navUsdc then None
      else Some (num_mul (num_sub (num_div (num_div (num_of_int poolUsdcRaw) (num_of_int poolTokensRaw)) navUsdc) (Fin 1)) (Fin 100)))"

text \<open>The float formula of the swap, and its clamp into \<open>1 .. amount - 1\<close>.\<close>

definition zap_swap_number :: "int \<Rightarrow> int \<Rightarrow> int \<Rightarrow> number" where
  "zap_swap_number amount poolUsdc feePpm =
     (let r = num_div (num_of_int (1000000 - feePpm)) (Fin 1000000); u = num_of_int poolUsdc; a = num_of_int amount;
          r1 = num_add (Fin 1) r;
          radicand = num_add (num_mul (num_mul u u) (num_mul r1 r1)) (num_mul (num_mul (num_mul (Fin 4) r) a) u) in
      num_div (num_sub (num_sqrt radicand) (num_mul u r1)) (num_mul (Fin 2) r))"

definition zapSwapAmount :: "int \<Rightarrow> int \<Rightarrow> int \<Rightarrow> pool_error + int" where
  "zapSwapAmount amount poolUsdc feePpm =
     (case to_bigint (num_floor (zap_swap_number amount poolUsdc feePpm)) of
        None \<Rightarrow> Inl NotAnInteger
      | Some n \<Rightarrow> Inr (if n < 1 then 1 else if n \<ge> amount then amount - 1 else n))"

record pool_leg_plan =
  pp_amountIn :: int
  pp_swapIn :: int
  pp_minTokensOut :: int
  pp_lp :: int
  pp_maxUsdc :: int
  pp_maxTokens :: int

definition swap_net :: "int \<Rightarrow> int" where
  "swap_net swapIn = swapIn * (1000000 - POOL_INPUT_FEE_PPM) sdiv 1000000"

definition swap_out :: "pool_view \<Rightarrow> int \<Rightarrow> int" where
  "swap_out s swapIn = pv_tokens s * swap_net swapIn sdiv (pv_usdc s + swap_net swapIn)"

definition planPoolLeg :: "(transfer_fee \<Rightarrow> int \<Rightarrow> int) \<Rightarrow> int \<Rightarrow> pool_view \<Rightarrow> pool_error + pool_leg_plan option" where
  "planPoolLeg calc amount s =
     (if amount \<le> 1 \<or> pv_usdc s \<le> 0 \<or> pv_tokens s \<le> 0 \<or> pv_lpSupply s \<le> 0 then Inr None
      else rbind (zapSwapAmount amount (pv_usdc s) POOL_INPUT_FEE_PPM) (\<lambda>swapIn.
        let out = swap_out s swapIn;
            minTokensOut = transferNet calc out (pv_fee s) * (10000 - SWAP_SLIPPAGE_BPS) sdiv 10000;
            usdcAfter = pv_usdc s + swapIn; tokensAfter = pv_tokens s - out; maxUsdc = amount - swapIn in
        if minTokensOut \<le> 0 then Inr None
        else
          let byUsdc = maxUsdc * pv_lpSupply s sdiv usdcAfter;
              byTokens = transferNet calc minTokensOut (pv_fee s) * pv_lpSupply s sdiv tokensAfter;
              lp = (if byUsdc < byTokens then byUsdc else byTokens) * (10000 - DEPOSIT_MARGIN_BPS) sdiv 10000 in
          if lp \<le> 0 then Inr None
          else Inr (Some \<lparr>pp_amountIn = amount, pp_swapIn = swapIn, pp_minTokensOut = minTokensOut, pp_lp = lp,
                          pp_maxUsdc = maxUsdc, pp_maxTokens = minTokensOut\<rparr>)))"

lemma zapSwapAmount_bounds:
  "zapSwapAmount amount poolUsdc fee = Inr n \<Longrightarrow> 1 < amount \<Longrightarrow> 1 \<le> n \<and> n < amount"
  by (auto simp: zapSwapAmount_def split: option.splits if_splits)

lemma swap_out_bounds:
  assumes "0 < pv_usdc s" "0 < pv_tokens s" "0 \<le> swapIn"
  shows "0 \<le> swap_out s swapIn" "swap_out s swapIn < pv_tokens s"
proof -
  have net: "0 \<le> swap_net swapIn" using fee_part [of swapIn "1000000 - POOL_INPUT_FEE_PPM" 1000000] assms(3)
    by (simp add: swap_net_def POOL_INPUT_FEE_PPM_def)
  then have eq: "swap_out s swapIn = pv_tokens s * swap_net swapIn div (pv_usdc s + swap_net swapIn)"
    using assms by (simp add: swap_out_def sdiv_nonneg_eq)
  have "pv_tokens s * swap_net swapIn < (pv_usdc s + swap_net swapIn) * pv_tokens s" using assms by (simp add: distrib_right mult.commute)
  then show "swap_out s swapIn < pv_tokens s" unfolding eq using assms net by (intro div_lt_of_lt_mult) auto
  show "0 \<le> swap_out s swapIn" unfolding eq using assms net by (simp add: pos_imp_zdiv_nonneg_iff)
qed

lemma planPoolLeg_shape:
  assumes "planPoolLeg calc amount s = Inr (Some p)"
  shows "1 < amount" "0 < pv_usdc s" "0 < pv_tokens s" "0 < pv_lpSupply s"
    "zapSwapAmount amount (pv_usdc s) POOL_INPUT_FEE_PPM = Inr (pp_swapIn p)" "pp_amountIn p = amount"
    "pp_maxUsdc p = amount - pp_swapIn p" "pp_maxTokens p = pp_minTokensOut p" "0 < pp_minTokensOut p" "0 < pp_lp p"
    "pp_minTokensOut p = transferNet calc (swap_out s (pp_swapIn p)) (pv_fee s) * (10000 - SWAP_SLIPPAGE_BPS) sdiv 10000"
    "pp_lp p = min (pp_maxUsdc p * pv_lpSupply s sdiv (pv_usdc s + pp_swapIn p))
        (transferNet calc (pp_minTokensOut p) (pv_fee s) * pv_lpSupply s sdiv (pv_tokens s - swap_out s (pp_swapIn p)))
        * (10000 - DEPOSIT_MARGIN_BPS) sdiv 10000"
  using assms by (auto simp: planPoolLeg_def res_iff Let_def min_def split: if_splits)

text \<open>
  C21: a planned pool leg always has the means for its deposit. It splits the amount into
  the swap and the rest, and the deposit of the planned LP tokens, at the balances the pool
  can have after the swap, costs no more USDC than the rest and, transfer fee included, no
  more Reserve Tokens than the swap is sure to deliver.
\<close>

theorem planned_pool_leg_affordable:
  assumes "documented_fee calc" "valid_fee (pv_fee s)" "planPoolLeg calc amount s = Inr (Some p)"
  shows "0 < pp_swapIn p \<and> 0 < pp_maxUsdc p \<and> pp_swapIn p + pp_maxUsdc p = amount \<and> 0 < pp_lp p \<and>
    (\<forall>usdc \<le> pv_usdc s + pp_swapIn p. 0 < usdc \<longrightarrow> ceil_div (pp_lp p * usdc) (pv_lpSupply s) \<le> pp_maxUsdc p) \<and>
    pp_maxTokens p \<le> transferNet calc (swap_out s (pp_swapIn p)) (pv_fee s) \<and>
    (\<forall>g. transferGross (ceil_div (pp_lp p * (pv_tokens s - swap_out s (pp_swapIn p))) (pv_lpSupply s)) (pv_fee s) = Inr g
      \<longrightarrow> g \<le> pp_maxTokens p)"
proof -
  note p = planPoolLeg_shape [OF assms(3)]
  let ?out = "swap_out s (pp_swapIn p)" and ?S = "pv_lpSupply s"
  have swap: "1 \<le> pp_swapIn p" "pp_swapIn p < amount" using zapSwapAmount_bounds [OF p(5,1)] by auto
  have out: "0 \<le> ?out" "?out < pv_tokens s" using swap_out_bounds [OF p(2,3), of "pp_swapIn p"] swap by auto
  have net: "0 \<le> transferNet calc ?out (pv_fee s)" "0 \<le> transferNet calc (pp_minTokensOut p) (pv_fee s)"
    using transferNet_bounds [OF assms(1,2)] out p(9) by simp_all
  have maxU: "0 < pp_maxUsdc p" using swap p(7) by simp
  have tokens: "pp_minTokensOut p \<le> transferNet calc ?out (pv_fee s)"
    unfolding p(11) using scaled_le [OF net(1)] by (simp add: SWAP_SLIPPAGE_BPS_def)
  let ?u = "pp_maxUsdc p * ?S div (pv_usdc s + pp_swapIn p)"
  let ?t = "transferNet calc (pp_minTokensOut p) (pv_fee s) * ?S div (pv_tokens s - ?out)"
  have "pp_lp p = min ?u ?t * (10000 - DEPOSIT_MARGIN_BPS) sdiv 10000"
    using p(2-4,12) swap out net maxU by (simp add: sdiv_nonneg_eq)
  moreover have "0 \<le> min ?u ?t" using p(2-4) swap out net maxU by (simp add: pos_imp_zdiv_nonneg_iff)
  ultimately have "pp_lp p \<le> min ?u ?t" using scaled_le [of "min ?u ?t"] by (simp add: DEPOSIT_MARGIN_BPS_def)
  then have lp: "pp_lp p \<le> ?u" "pp_lp p \<le> ?t" by simp_all
  have "ceil_div (pp_lp p * usdc) ?S \<le> pp_maxUsdc p" if "usdc \<le> pv_usdc s + pp_swapIn p" "0 < usdc" for usdc
  proof -
    have "pp_lp p * usdc \<le> pp_lp p * (pv_usdc s + pp_swapIn p)" using that p(10) by (intro mult_left_mono) auto
    also have "\<dots> \<le> ?S * ceil_div (pp_lp p * (pv_usdc s + pp_swapIn p)) ?S"
      using p(2,4,10) swap by (intro ceil_div_covers) auto
    finally have "ceil_div (pp_lp p * usdc) ?S \<le> ceil_div (pp_lp p * (pv_usdc s + pp_swapIn p)) ?S"
      using that p(4,10) by (simp add: ceil_div_le)
    also have "\<dots> \<le> pp_maxUsdc p" using lp(1) p(2,4,10) swap by (intro share_fits) auto
    finally show ?thesis .
  qed
  moreover have "g \<le> pp_maxTokens p"
    if "transferGross (ceil_div (pp_lp p * (pv_tokens s - ?out)) ?S) (pv_fee s) = Inr g" for g
    using deposit_gross_fits [OF assms(1,2) _ p(4,10) _ lp(2) that] out p(8,9) by simp
  ultimately show ?thesis using swap maxU p tokens by simp
qed

text \<open>The float computation of one concrete swap, rounding by rounding.\<close>

lemma demo_roundings:
  "round64 (99 / 100) = Fin (4458563631096791 / 4503599627370496)"
  "round64 (8962163258467287 / 4503599627370496) = Fin (8962163258467287 / 4503599627370496)"
  "round64 (10000000000000000) = Fin (10000000000000000)"
  "round64 (80320370271420979328900449140369 / 20282409603651670423947251286016) = Fin (8917352442174951 / 2251799813685248)"
  "round64 (1360679999111168060302734375 / 34359738368) = Fin (39601000000000000)"
  "round64 (4458563631096791 / 1125899906842624) = Fin (4458563631096791 / 1125899906842624)"
  "round64 (69665056735887359375 / 17592186044416) = Fin (3960000)"
  "round64 (396000000000000) = Fin (396000000000000)"
  "round64 (39997000000000000) = Fin (39997000000000000)"
  "round64 (14756841846268747335541556283 / 73786976294838206464) = Fin (6710634737041231 / 33554432)"
  "round64 (3500845022838783984375 / 17592186044416) = Fin (199000000)"
  "round64 (33302769041231 / 33554432) = Fin (33302769041231 / 33554432)"
  "round64 (4458563631096791 / 2251799813685248) = Fin (4458563631096791 / 2251799813685248)"
  "round64 (2234910998411381571584 / 4458563631096791) = Fin (8611625125813269 / 17179869184)"
proof -
  show "round64 (99 / 100) = Fin (4458563631096791 / 4503599627370496)"
    by (rule round64_eqI [of "-53" _ 8917127262193582]; simp add: pow2_def)
  show "round64 (8962163258467287 / 4503599627370496) = Fin (8962163258467287 / 4503599627370496)"
    by (rule round64_eqI [of "-52" _ 8962163258467287]; simp add: pow2_def)
  show "round64 (10000000000000000) = Fin (10000000000000000)"
    by (rule round64_eqI [of "1" _ 5000000000000000]; simp add: pow2_def)
  show "round64 (80320370271420979328900449140369 / 20282409603651670423947251286016) = Fin (8917352442174951 / 2251799813685248)"
    by (rule round64_eqI [of "-51" _ 8917352442174951]; simp add: pow2_def)
  show "round64 (1360679999111168060302734375 / 34359738368) = Fin (39601000000000000)"
    by (rule round64_eqI [of "3" _ 4950125000000000]; simp add: pow2_def)
  show "round64 (4458563631096791 / 1125899906842624) = Fin (4458563631096791 / 1125899906842624)"
    by (rule round64_eqI [of "-51" _ 8917127262193582]; simp add: pow2_def)
  show "round64 (69665056735887359375 / 17592186044416) = Fin (3960000)"
    by (rule round64_eqI [of "-31" _ 8504035246080000]; simp add: pow2_def)
  show "round64 (396000000000000) = Fin (396000000000000)"
    by (rule round64_eqI [of "-4" _ 6336000000000000]; simp add: pow2_def)
  show "round64 (39997000000000000) = Fin (39997000000000000)"
    by (rule round64_eqI [of "3" _ 4999625000000000]; simp add: pow2_def)
  show "round64 (14756841846268747335541556283 / 73786976294838206464) = Fin (6710634737041231 / 33554432)"
    by (rule round64_eqI [of "-25" _ 6710634737041231]; simp add: pow2_def)
  show "round64 (3500845022838783984375 / 17592186044416) = Fin (199000000)"
    by (rule round64_eqI [of "-25" _ 6677331968000000]; simp add: pow2_def)
  show "round64 (33302769041231 / 33554432) = Fin (33302769041231 / 33554432)"
    by (rule round64_eqI [of "-33" _ 8525508874555136]; simp add: pow2_def)
  show "round64 (4458563631096791 / 2251799813685248) = Fin (4458563631096791 / 2251799813685248)"
    by (rule round64_eqI [of "-52" _ 8917127262193582]; simp add: pow2_def)
  show "round64 (2234910998411381571584 / 4458563631096791) = Fin (8611625125813269 / 17179869184)"
    by (rule round64_eqI [of "-34" _ 8611625125813269]; simp add: pow2_def)
qed

lemma demo_root: "isqrt 54441095318947102892578376693793732614422528000000000000 = 7378420923134373667770778141"
  by (rule isqrt_eqI) simp_all

lemma demo_sqrt: "num_sqrt (Fin 39997000000000000) = Fin (6710634737041231 / 33554432)"
  using demo_root demo_roundings by (simp add: quotient_of_int Let_def bit_length.simps)

lemma demo_swap: "zapSwapAmount 1000000 100000000 10000 = Inr 501262"
  using demo_roundings demo_sqrt
  by (simp add: zapSwapAmount_def zap_swap_number_def num_of_int_def round64_numeral num_sub_def Let_def floor_eq_iff)

theorem planned_pool_leg_affordable_witness:
  "(let s = \<lparr>pv_usdc = 100000000, pv_tokens = 50000000, pv_lpSupply = 70000000, pv_fee = Some \<lparr>tf_basisPoints = 15, tf_maximum = 5000000\<rparr>\<rparr> in
    case planPoolLeg spl_fee 1000000 s of
      Inr (Some p) \<Rightarrow> pp_swapIn p + pp_maxUsdc p = 1000000 \<and> ceil_div (pp_lp p * pv_usdc s) (pv_lpSupply s) \<le> pp_maxUsdc p
    | _ \<Rightarrow> False)"
proof -
  let ?s = "\<lparr>pv_usdc = 100000000, pv_tokens = 50000000, pv_lpSupply = 70000000, pv_fee = Some \<lparr>tf_basisPoints = 15, tf_maximum = 5000000\<rparr>\<rparr>"
  have "swap_out ?s 501262 = 246899" "transferNet spl_fee 246899 (pv_fee ?s) * 9950 sdiv 10000 = 245295"
    "498738 * 70000000 sdiv (100000000 + 501262) = (347375 :: int)"
    "transferNet spl_fee 245295 (pv_fee ?s) * 70000000 sdiv (50000000 - 246899) = 344599" "344599 * 9970 sdiv 10000 = (343565 :: int)"
    by code_simp+
  then have "case planPoolLeg spl_fee 1000000 ?s of Inr (Some p) \<Rightarrow> True | _ \<Rightarrow> False"
    by (simp add: planPoolLeg_def demo_swap POOL_INPUT_FEE_PPM_def SWAP_SLIPPAGE_BPS_def DEPOSIT_MARGIN_BPS_def Let_def)
  then obtain p where p: "planPoolLeg spl_fee 1000000 ?s = Inr (Some p)" by (auto split: sum.splits option.splits)
  from planned_pool_leg_affordable [OF spl_fee_documented _ p] p show ?thesis by (simp add: valid_fee_def Let_def)
qed

section \<open>Splitting the released amount over the assets\<close>

definition COLLECT_MIN_USDC_RAW :: int where "COLLECT_MIN_USDC_RAW = 1000000"
definition FEED_MIN_USDC_RAW :: int where "FEED_MIN_USDC_RAW = 500000"
definition LEG_MIN_USDC_RAW :: int where "LEG_MIN_USDC_RAW = 100000"

record feed_asset =
  fa_mint :: string
  fa_targetWeightBps :: int
  fa_tokenProgram :: string

type_synonym feed_leg = "string \<times> int"

definition heaviest_index :: "feed_asset list \<Rightarrow> nat" where
  "heaviest_index weighted =
     foldl (\<lambda>best i. if fa_targetWeightBps (weighted ! i) > fa_targetWeightBps (weighted ! best) then i else best)
       0 [0..<length weighted]"

definition weighted_legs :: "int \<Rightarrow> feed_asset list \<Rightarrow> feed_leg list" where
  "weighted_legs released weighted =
     (let tot = foldl (\<lambda>s a. s + fa_targetWeightBps a) 0 weighted;
          legs = map (\<lambda>a. (fa_mint a, released * fa_targetWeightBps a sdiv tot)) weighted;
          rest = released - foldl (\<lambda>s l. s + snd l) 0 legs;
          h = heaviest_index weighted
      in legs[h := (fst (legs ! h), snd (legs ! h) + rest)])"

definition planBasketFeedLegs :: "int \<Rightarrow> feed_asset list \<Rightarrow> int \<Rightarrow> feed_leg list" where
  "planBasketFeedLegs released assets legMin =
     (let weighted = [a \<leftarrow> assets. fa_targetWeightBps a > 0];
          tot = foldl (\<lambda>s a. s + fa_targetWeightBps a) 0 weighted in
      if released \<le> 0 \<or> tot = 0 then []
      else filter (\<lambda>l. snd l \<ge> legMin) (weighted_legs released weighted))"

lemma foldl_add_sum: "foldl (\<lambda>s x. s + f x) k xs = k + sum_list (map f xs)" for k :: int
  by (induction xs arbitrary: k) auto

lemma heaviest_less: "weighted \<noteq> [] \<Longrightarrow> heaviest_index weighted < length weighted"
proof -
  have "foldl (\<lambda>best i. if fa_targetWeightBps (weighted ! i) > fa_targetWeightBps (weighted ! best) then i else best) b is < length weighted"
    if "b < length weighted" "\<forall>i \<in> set is. i < length weighted" for b "is"
    using that by (induction "is" arbitrary: b) auto
  then show "weighted \<noteq> [] \<Longrightarrow> ?thesis" unfolding heaviest_index_def by simp
qed

lemma sum_list_update_add:
  "h < length xs \<Longrightarrow> sum_list (xs[h := xs ! h + d]) = sum_list xs + (d :: int)"
  by (induction xs arbitrary: h) (auto split: nat.splits simp: nth_Cons)

lemma weighted_legs_sum:
  assumes "weighted \<noteq> []"
  shows "sum_list (map snd (weighted_legs released weighted)) = released"
proof -
  let ?tot = "foldl (\<lambda>s a. s + fa_targetWeightBps a) 0 weighted"
  let ?legs = "map (\<lambda>a. (fa_mint a, released * fa_targetWeightBps a sdiv ?tot)) weighted"
  let ?h = "heaviest_index weighted"
  have h: "?h < length ?legs" using heaviest_less [OF assms] by simp
  have "map snd (weighted_legs released weighted) =
      (map snd ?legs)[?h := (map snd ?legs) ! ?h + (released - foldl (\<lambda>s l. s + snd l) 0 ?legs)]"
    using h by (simp add: weighted_legs_def Let_def map_update)
  then show ?thesis using h sum_list_update_add [of ?h "map snd ?legs"] by (simp add: foldl_add_sum)
qed

lemma foldl_weights_pos:
  "\<forall>a \<in> set weighted. 0 < fa_targetWeightBps a \<Longrightarrow> weighted \<noteq> [] \<Longrightarrow> 0 < foldl (\<lambda>s a. s + fa_targetWeightBps a) 0 weighted"
  unfolding foldl_add_sum by (cases weighted) (force intro!: add_pos_nonneg sum_list_nonneg)+

text \<open>The rounded shares never exceed the amount, so the rest is not negative.\<close>

lemma shares_le:
  assumes "\<forall>a \<in> set weighted. 0 < fa_targetWeightBps a" "weighted \<noteq> []" "0 \<le> released"
  shows "sum_list (map (\<lambda>a. released * fa_targetWeightBps a sdiv foldl (\<lambda>s a. s + fa_targetWeightBps a) 0 weighted) weighted) \<le> released"
proof -
  define tot where "tot = foldl (\<lambda>s a. s + fa_targetWeightBps a) 0 weighted"
  have pos: "0 < tot" unfolding tot_def by (rule foldl_weights_pos [OF assms(1,2)])
  have step: "tot * (released * fa_targetWeightBps a sdiv tot) \<le> released * fa_targetWeightBps a" if "a \<in> set weighted" for a
  proof -
    have "0 \<le> released * fa_targetWeightBps a" using that assms(1,3) by (simp add: order.strict_implies_order)
    then show ?thesis using pos mult_div_le_int [OF pos, of "released * fa_targetWeightBps a"] by (simp add: sdiv_nonneg_eq)
  qed
  have "tot * sum_list (map (\<lambda>a. released * fa_targetWeightBps a sdiv tot) weighted)
      = sum_list (map (\<lambda>a. tot * (released * fa_targetWeightBps a sdiv tot)) weighted)"
    by (simp add: sum_list_const_mult)
  also have "\<dots> \<le> sum_list (map (\<lambda>a. released * fa_targetWeightBps a) weighted)"
    using step by (intro sum_list_mono) auto
  also have "\<dots> = tot * released" by (simp add: sum_list_const_mult tot_def foldl_add_sum)
  finally show ?thesis using pos unfolding tot_def [symmetric] by simp
qed

lemma weighted_legs_nonneg:
  assumes "\<forall>a \<in> set weighted. 0 < fa_targetWeightBps a" "weighted \<noteq> []" "0 \<le> released" "l \<in> set (weighted_legs released weighted)"
  shows "0 \<le> snd l"
proof -
  let ?tot = "foldl (\<lambda>s a. s + fa_targetWeightBps a) 0 weighted"
  have share: "0 \<le> released * fa_targetWeightBps a sdiv ?tot" if "a \<in> set weighted" for a
    using that assms(1,3) foldl_weights_pos [OF assms(1,2)] by (intro sdiv_nonneg) auto
  have rest: "0 \<le> released - foldl (\<lambda>s l. s + snd l) 0 (map (\<lambda>a. (fa_mint a, released * fa_targetWeightBps a sdiv ?tot)) weighted)"
    using shares_le [OF assms(1-3)] by (simp add: foldl_add_sum o_def)
  have "heaviest_index weighted < length weighted" by (rule heaviest_less [OF assms(2)])
  with assms(4) share rest show ?thesis
    by (auto simp: weighted_legs_def Let_def dest!: set_update_subset_insert [THEN subsetD] intro: add_nonneg_nonneg)
qed

lemma sum_filter_le: "\<forall>x \<in> set xs. 0 \<le> snd x \<Longrightarrow> sum_list (map snd (filter P xs)) \<le> sum_list (map snd xs)" for xs :: "('a \<times> int) list"
  by (induction xs) auto

lemma planned_legs:
  assumes "0 \<le> released" "legs = planBasketFeedLegs released assets legMin"
  shows "sum_list (map snd legs) \<le> released \<and> (\<forall>l \<in> set legs. legMin \<le> snd l \<and> 0 \<le> snd l) \<and>
    (legMin \<le> 0 \<and> (\<exists>a \<in> set assets. 0 < fa_targetWeightBps a) \<longrightarrow> sum_list (map snd legs) = released)"
proof -
  let ?w = "[a \<leftarrow> assets. fa_targetWeightBps a > 0]"
  let ?tot = "foldl (\<lambda>s a. s + fa_targetWeightBps a) 0 ?w"
  have w: "\<forall>a \<in> set ?w. 0 < fa_targetWeightBps a" by simp
  show ?thesis
  proof (cases "released = 0 \<or> ?w = []")
    case True
    then show ?thesis using assms by (auto simp: planBasketFeedLegs_def Let_def filter_empty_conv)
  next
    case False
    then have "?tot \<noteq> 0" using foldl_weights_pos [OF w] by simp
    with False assms have legs: "legs = filter (\<lambda>l. snd l \<ge> legMin) (weighted_legs released ?w)"
      by (simp add: planBasketFeedLegs_def Let_def)
    have nonneg: "\<forall>l \<in> set (weighted_legs released ?w). 0 \<le> snd l"
      using weighted_legs_nonneg [OF w _ assms(1)] False by blast
    have total: "sum_list (map snd (weighted_legs released ?w)) = released" using weighted_legs_sum False by blast
    have "legs = weighted_legs released ?w" if "legMin \<le> 0"
      unfolding legs using nonneg that by (auto simp: filter_id_conv)
    moreover have "sum_list (map snd legs) \<le> released" unfolding legs using sum_filter_le [OF nonneg] total by metis
    ultimately show ?thesis using nonneg total legs by auto
  qed
qed

lemma planned_legs_bounds:
  "0 \<le> released \<Longrightarrow> sum_list (map snd (planBasketFeedLegs released assets legMin)) \<le> released \<and>
    (\<forall>l \<in> set (planBasketFeedLegs released assets legMin). 0 \<le> snd l)"
  using planned_legs [OF _ refl] by blast

text \<open>
  #####the legs of a basket feed are a part of what was released: none is below the
  minimum, they add up to at most the released amount, and to exactly that amount when no
  leg is dropped for being too small.
\<close>

theorem basket_feed_legs_within_release:
  assumes "0 \<le> released" "legs = planBasketFeedLegs released assets legMin"
  shows "sum_list (map snd legs) \<le> released \<and> (\<forall>l \<in> set legs. legMin \<le> snd l \<and> 0 \<le> snd l) \<and>
    (legMin \<le> 0 \<and> (\<exists>a \<in> set assets. 0 < fa_targetWeightBps a) \<longrightarrow> sum_list (map snd legs) = released)"
  by (rule planned_legs [OF assms])

theorem basket_feed_legs_within_release_witness:
  "map snd (planBasketFeedLegs 1000001 [\<lparr>fa_mint = ''A'', fa_targetWeightBps = 3000, fa_tokenProgram = ''t''\<rparr>,
      \<lparr>fa_mint = ''B'', fa_targetWeightBps = 7000, fa_tokenProgram = ''t''\<rparr>] 0) = [300000, 700001] \<and>
   sum_list (map snd (planBasketFeedLegs 1000001 [\<lparr>fa_mint = ''A'', fa_targetWeightBps = 3000, fa_tokenProgram = ''t''\<rparr>,
      \<lparr>fa_mint = ''B'', fa_targetWeightBps = 7000, fa_tokenProgram = ''t''\<rparr>] 0)) \<le> 1000001"
  using basket_feed_legs_within_release [OF _ refl, of 1000001 "[\<lparr>fa_mint = ''A'', fa_targetWeightBps = 3000, fa_tokenProgram = ''t''\<rparr>,
      \<lparr>fa_mint = ''B'', fa_targetWeightBps = 7000, fa_tokenProgram = ''t''\<rparr>]" 0]
  by (simp del: sum_list_simps) code_simp

section \<open>One run of the keeper\<close>

text \<open>
  What the run is told by the world: the pool's state, the price source, the quotes, and
  whether each transaction fits and lands. A call that throws is \<open>Inl\<close> with its message.
\<close>

record pool_world =
  pw_state :: "string + pool_view option" \<comment> \<open>\<open>Inr None\<close>: no registered pool\<close>
  pw_prices :: bool
  pw_nav :: "string + number"
  pw_fits :: bool
  pw_send :: "string + string"

datatype pool_status = Added | Skipped_off_nav | Skipped_no_price | Skipped_too_small | Skipped_too_large | Skipped_error

record pool_result =
  pr_status :: pool_status
  pr_usdcIn :: int
  pr_lp :: int

definition POOL_NAV_LIMIT_PCT :: number where "POOL_NAV_LIMIT_PCT = Fin 1"

fun num_abs :: "number \<Rightarrow> number" where
  "num_abs (Fin a) = Fin \<bar>a\<bar>" | "num_abs Infty = Infty" | "num_abs NegInfty = Infty" | "num_abs NaN = NaN"

text \<open>
  The pool's part: what is held back from the basket in this run, and the result of the
  leg. Off NAV the part goes to the basket; after any other failure it stays released.
\<close>

definition pool_leg_result :: "(transfer_fee \<Rightarrow> int \<Rightarrow> int) \<Rightarrow> pool_world \<Rightarrow> int \<Rightarrow> int \<times> pool_result" where
  "pool_leg_result calc pw held =
     (let failed = (held, \<lparr>pr_status = Skipped_error, pr_usdcIn = 0, pr_lp = 0\<rparr>) in
      case pw_state pw of
        Inr (Some s) \<Rightarrow>
          let cap = pv_usdc s * POOL_LEG_MAX_SHARE_BPS sdiv 10000;
              amount = (if held < cap then held else cap);
              r = (\<lambda>st. \<lparr>pr_status = st, pr_usdcIn = amount, pr_lp = 0\<rparr>) in
          if \<not> pw_prices pw then (held, r Skipped_no_price)
          else (case pw_nav pw of
              Inl _ \<Rightarrow> (held, r Skipped_error)
            | Inr nav \<Rightarrow>
                (case (if amount \<ge> LEG_MIN_USDC_RAW then planPoolLeg calc amount s else Inr None) of
                   Inl _ \<Rightarrow> (held, r Skipped_error)
                 | Inr plan \<Rightarrow>
                     (case poolNavDeviationPct (pv_usdc s) (pv_tokens s) nav of
                        None \<Rightarrow> (held, r Skipped_no_price)
                      | Some deviation \<Rightarrow>
                          if num_less POOL_NAV_LIMIT_PCT (num_abs deviation) then (0, r Skipped_off_nav)
                          else (case plan of
                              None \<Rightarrow> (held, r Skipped_too_small)
                            | Some p \<Rightarrow>
                                if \<not> pw_fits pw then (held, r Skipped_too_large)
                                else (case pw_send pw of
                                    Inl _ \<Rightarrow> (held, r Skipped_error)
                                  | Inr _ \<Rightarrow> (held, (r Added)\<lparr>pr_lp := pp_lp p\<rparr>))))))
      | _ \<Rightarrow> failed)"

definition pool_part ::
  "(transfer_fee \<Rightarrow> int \<Rightarrow> int) \<Rightarrow> pool_world \<Rightarrow> split_state option \<Rightarrow> int \<Rightarrow> int \<Rightarrow> int \<times> pool_result option" where
  "pool_part calc pw split totalFed released =
     (case split of
        None \<Rightarrow> (0, None)
      | Some sp \<Rightarrow>
          let room = poolFeedRoom sp (totalFed + released) in
          if room \<ge> LEG_MIN_USDC_RAW
          then (case pool_leg_result calc pw (if room < released then room else released) of (held, r) \<Rightarrow> (held, Some r))
          else (0, Some \<lparr>pr_status = Skipped_too_small, pr_usdcIn = 0, pr_lp = 0\<rparr>))"

datatype quote_answer = Quoted number "string option" | No_quote

record leg_world =
  lw_late :: bool
  lw_quote :: quote_answer
  lw_built :: bool
  lw_fits :: bool
  lw_send :: "string + string"

datatype leg_status = Fed | Skipped_price_impact | Skipped_no_route | Skipped_size | Skipped_failure

record leg_result =
  lr_mint :: string
  lr_usdcIn :: int
  lr_status :: leg_status
  lr_minOut :: "int option"

definition MAX_PRICE_IMPACT_PCT :: number where "MAX_PRICE_IMPACT_PCT = Fin 15"

definition isPriceImpactAcceptable :: "number \<Rightarrow> bool" where
  "isPriceImpactAcceptable pct \<longleftrightarrow> \<not> (isFinite pct \<and> num_less MAX_PRICE_IMPACT_PCT pct)"

definition usable_threshold :: "string option \<Rightarrow> int option" where
  \<comment> \<open>1 to 20 digits, not zero\<close>
  "usable_threshold t =
     (case t of
        None \<Rightarrow> None
      | Some ds \<Rightarrow> if 1 \<le> length ds \<and> length ds \<le> 20 \<and> (\<forall>c \<in> set ds. is_digit c) \<and> digits_val ds \<noteq> 0
                   then Some (int (digits_val ds)) else None)"

text \<open>The swap of one leg: the minimum the chain will enforce, or why the leg is skipped.\<close>

definition leg_min_out :: "string \<Rightarrow> leg_world \<Rightarrow> feed_leg \<Rightarrow> leg_status + int" where
  "leg_min_out usdc lw l =
     (if fst l = usdc then Inr (snd l)
      else case lw_quote lw of
          No_quote \<Rightarrow> Inl Skipped_no_route
        | Quoted impact threshold \<Rightarrow>
            if \<not> isPriceImpactAcceptable impact then Inl Skipped_price_impact
            else if \<not> lw_built lw then Inl Skipped_failure
            else (case usable_threshold threshold of None \<Rightarrow> Inl Skipped_failure | Some m \<Rightarrow> Inr m))"

text \<open>\<open>buildBasketFeedBegin\<close> refuses amounts that are not positive u64s.\<close>

definition run_leg :: "string \<Rightarrow> leg_world \<Rightarrow> feed_leg \<Rightarrow> leg_result" where
  "run_leg usdc lw l =
     (let r = (\<lambda>st m. \<lparr>lr_mint = fst l, lr_usdcIn = snd l, lr_status = st, lr_minOut = m\<rparr>) in
      case leg_min_out usdc lw l of
        Inl st \<Rightarrow> r st None
      | Inr m \<Rightarrow>
          if \<not> (0 < snd l \<and> snd l \<le> U64 \<and> 0 < m \<and> m \<le> U64) then r Skipped_failure None
          else if \<not> lw_fits lw then r Skipped_size None
          else (case lw_send lw of Inl _ \<Rightarrow> r Skipped_failure (Some m) | Inr _ \<Rightarrow> r Fed (Some m)))"

fun run_legs :: "string \<Rightarrow> leg_world list \<Rightarrow> feed_leg list \<Rightarrow> leg_result list" where
  "run_legs usdc (lw # lws) (l # ls) = (if lw_late lw then [] else run_leg usdc lw l # run_legs usdc lws ls)"
| "run_legs usdc _ _ = []"

record feed_result =
  fr_released :: int
  fr_pool :: "pool_result option"
  fr_legs :: "leg_result list"

definition runBasketFeed ::
  "(transfer_fee \<Rightarrow> int \<Rightarrow> int) \<Rightarrow> string \<Rightarrow> pool_world \<Rightarrow> leg_world list \<Rightarrow> split_state option \<Rightarrow> int \<Rightarrow> feed_asset list \<Rightarrow> int \<Rightarrow> feed_result" where
  "runBasketFeed calc usdc pw lws split totalFed assets released =
     (if released < FEED_MIN_USDC_RAW then \<lparr>fr_released = released, fr_pool = None, fr_legs = []\<rparr>
      else case pool_part calc pw split totalFed released of (held, pool) \<Rightarrow>
        if split \<noteq> None \<and> released - held < FEED_MIN_USDC_RAW
        then \<lparr>fr_released = released, fr_pool = pool, fr_legs = []\<rparr>
        else \<lparr>fr_released = released, fr_pool = pool,
              fr_legs = run_legs usdc lws (planBasketFeedLegs (released - held) assets LEG_MIN_USDC_RAW)\<rparr>)"

definition pool_spent :: "feed_result \<Rightarrow> int" where
  "pool_spent res = (case fr_pool res of Some r \<Rightarrow> if pr_status r = Added then pr_usdcIn r else 0 | None \<Rightarrow> 0)"

definition legs_spent :: "feed_result \<Rightarrow> int" where
  "legs_spent res = sum_list (map lr_usdcIn [l \<leftarrow> fr_legs res. lr_status l = Fed])"

lemma run_leg_fields [simp]: "lr_mint (run_leg usdc lw l) = fst l" "lr_usdcIn (run_leg usdc lw l) = snd l"
  by (auto simp: run_leg_def Let_def split: sum.splits)

lemma run_leg_fed: "lr_status (run_leg usdc lw l) = Fed \<Longrightarrow> \<exists>m. lr_minOut (run_leg usdc lw l) = Some m \<and> 0 < m"
  by (auto simp: run_leg_def leg_min_out_def Let_def split: sum.splits if_splits quote_answer.splits option.splits)

lemma run_legs_spent:
  "\<forall>l \<in> set ls. 0 \<le> snd l \<Longrightarrow>
   sum_list (map lr_usdcIn [l \<leftarrow> run_legs usdc lws ls. lr_status l = Fed]) \<le> sum_list (map snd ls) \<and> 0 \<le> sum_list (map snd ls)"
proof (induction usdc lws ls rule: run_legs.induct)
  case (1 usdc lw lws l ls)
  then have "0 \<le> sum_list (map snd ls)" by (intro sum_list_nonneg) auto
  with 1 show ?case by auto
qed (auto intro!: sum_list_nonneg)

lemma run_legs_fed: "r \<in> set (run_legs usdc lws ls) \<Longrightarrow> lr_status r = Fed \<Longrightarrow> \<exists>m. lr_minOut r = Some m \<and> 0 < m"
  by (induction usdc lws ls rule: run_legs.induct) (auto split: if_splits dest: run_leg_fed)

lemma pool_leg_result_sound:
  assumes "pool_leg_result calc pw held = (held', r)" "0 \<le> held"
  shows "held' = held \<or> held' = 0 \<and> pr_status r \<noteq> Added"
    "pr_status r = Added \<Longrightarrow> held' = held \<and> pr_usdcIn r \<le> held \<and>
      (\<exists>s p dev nav. pw_state pw = Inr (Some s) \<and> planPoolLeg calc (pr_usdcIn r) s = Inr (Some p) \<and> pr_lp r = pp_lp p \<and>
        pr_usdcIn r \<le> pv_usdc s * POOL_LEG_MAX_SHARE_BPS sdiv 10000 \<and> pw_nav pw = Inr nav \<and>
        poolNavDeviationPct (pv_usdc s) (pv_tokens s) nav = Some dev \<and> \<not> num_less POOL_NAV_LIMIT_PCT (num_abs dev))"
  using assms
  by (auto simp: pool_leg_result_def Let_def split: sum.splits option.splits if_splits)

lemma pool_part_sound:
  assumes "pool_part calc pw split totalFed released = (held, pool)" "0 \<le> released"
  shows "0 \<le> held \<and> held \<le> released"
    "pool = Some r \<Longrightarrow> pr_status r = Added \<Longrightarrow> pr_usdcIn r \<le> held \<and>
      (\<exists>sp. split = Some sp \<and> pr_usdcIn r \<le> poolFeedRoom sp (totalFed + released) \<and>
        (\<exists>h h'. 0 \<le> h \<and> pool_leg_result calc pw h = (h', r)))"
proof -
  consider (none) "held = 0" "\<forall>r. pool = Some r \<longrightarrow> pr_status r \<noteq> Added"
    | (leg) sp r' h where "split = Some sp" "h = min (poolFeedRoom sp (totalFed + released)) released" "0 \<le> h"
        "pool_leg_result calc pw h = (held, r')" "pool = Some r'"
    using assms by (auto simp: pool_part_def Let_def LEG_MIN_USDC_RAW_def min_def split: option.splits if_splits prod.splits)
  note cases = this
  show "0 \<le> held \<and> held \<le> released"
    using cases assms(2) by cases (auto dest!: pool_leg_result_sound(1))
  show "pool = Some r \<Longrightarrow> pr_status r = Added \<Longrightarrow> pr_usdcIn r \<le> held \<and>
      (\<exists>sp. split = Some sp \<and> pr_usdcIn r \<le> poolFeedRoom sp (totalFed + released) \<and>
        (\<exists>h h'. 0 \<le> h \<and> pool_leg_result calc pw h = (h', r)))"
    using cases
  proof cases
    case leg
    assume r: "pool = Some r" "pr_status r = Added"
    with leg(5) have same: "r' = r" by simp
    have "held = h" "pr_usdcIn r \<le> h" using pool_leg_result_sound(2) [OF leg(4,3)] r(2) unfolding same by simp_all
    with leg same show ?thesis by (auto intro!: exI [of _ h])
  qed auto
qed


definition demo_feed_assets :: "feed_asset list" where
  "demo_feed_assets = [\<lparr>fa_mint = ''U'', fa_targetWeightBps = 4000, fa_tokenProgram = ''t''\<rparr>,
     \<lparr>fa_mint = ''B'', fa_targetWeightBps = 6000, fa_tokenProgram = ''t''\<rparr>]"

definition demo_leg_worlds :: "leg_world list" where
  "demo_leg_worlds = replicate 2 \<lparr>lw_late = False, lw_quote = Quoted (Fin 1) (Some ''7''), lw_built = True, lw_fits = True, lw_send = Inr ''sig''\<rparr>"

definition demo_pool_world :: pool_world where
  "demo_pool_world = \<lparr>pw_state = Inr None, pw_prices = False, pw_nav = Inl ''none'', pw_fits = False, pw_send = Inl ''none''\<rparr>"


section \<open>The dust rules\<close>

definition KEEPER_MIN_SWAP_USD :: number where "KEEPER_MIN_SWAP_USD = round64 (5 / 100)"
definition KEEPER_MIN_DISTRIBUTE_USD :: number where "KEEPER_MIN_DISTRIBUTE_USD = round64 (2 / 100)"
definition KEEPER_MIN_REDEEM_USD :: number where "KEEPER_MIN_REDEEM_USD = round64 (5 / 100)"
definition KEEPER_UNPRICED_RETRY_UTC_HOUR :: nat where "KEEPER_UNPRICED_RETRY_UTC_HOUR = 0"
definition USDC_DECIMALS :: nat where "USDC_DECIMALS = 6"
definition RESERVE_TOKEN_DECIMALS :: nat where "RESERVE_TOKEN_DECIMALS = 6"

datatype dust_decision = Move | Dust | Unpriced_wait

definition usd_value :: "int \<Rightarrow> nat \<Rightarrow> number \<Rightarrow> number" where
  "usd_value amountRaw decimals usdPrice = num_mul (num_div (num_of_int amountRaw) (pow10 decimals)) usdPrice"

definition dust_priced :: "number option \<Rightarrow> bool" where
  "dust_priced p \<longleftrightarrow> (case p of None \<Rightarrow> False | Some x \<Rightarrow> isFinite x \<and> num_less (Fin 0) x)"

definition stagedLegDecision :: "int \<Rightarrow> nat \<Rightarrow> number option \<Rightarrow> nat \<Rightarrow> dust_decision" where
  "stagedLegDecision amountRaw decimals usdPrice utcHour =
     (if amountRaw \<le> 0 then Dust
      else if \<not> dust_priced usdPrice then (if utcHour = KEEPER_UNPRICED_RETRY_UTC_HOUR then Move else Unpriced_wait)
      else if num_le KEEPER_MIN_SWAP_USD (usd_value amountRaw decimals (the usdPrice)) then Move else Dust)"

definition stagedUsdcWorthDistributing :: "int \<Rightarrow> bool" where
  "stagedUsdcWorthDistributing amountRaw \<longleftrightarrow>
     amountRaw > 0 \<and> num_le KEEPER_MIN_DISTRIBUTE_USD (usd_value amountRaw USDC_DECIMALS (Fin 1))"

text \<open>A raw amount arrives as a string: \<open>None\<close> is one that \<open>BigInt\<close> refuses.\<close>

record nav_asset =
  na_mint :: string
  na_decimals :: nat
  na_vaultBalanceRaw :: "int option"

fun nav_total :: "(string \<Rightarrow> number option) \<Rightarrow> nav_asset list \<Rightarrow> number \<Rightarrow> number option" where
  "nav_total priceOf [] t = Some t"
| "nav_total priceOf (a # as) t =
     (case na_vaultBalanceRaw a of
        None \<Rightarrow> None
      | Some bal \<Rightarrow>
          if bal = 0 then nav_total priceOf as t
          else if \<not> dust_priced (priceOf (na_mint a)) then None
          else nav_total priceOf as (num_add t (usd_value bal (na_decimals a) (the (priceOf (na_mint a))))))"

definition navPerReserveTokenUsd :: "nav_asset list \<Rightarrow> int option \<Rightarrow> (string \<Rightarrow> number option) \<Rightarrow> number option" where
  "navPerReserveTokenUsd assets supplyRaw priceOf =
     (case supplyRaw of
        None \<Rightarrow> None
      | Some n \<Rightarrow>
          if n \<le> 0 then None
          else map_option (\<lambda>t. num_div t (num_div (num_of_int n) (pow10 RESERVE_TOKEN_DECIMALS))) (nav_total priceOf assets (Fin 0)))"

definition vaultDecision :: "int \<Rightarrow> number option \<Rightarrow> nat \<Rightarrow> bool \<Rightarrow> dust_decision" where
  "vaultDecision sharesRaw navUsd utcHour windingDown =
     (if sharesRaw \<le> 0 then Dust
      else if windingDown then Move
      else if navUsd = None \<or> \<not> isFinite (the navUsd)
      then (if utcHour = KEEPER_UNPRICED_RETRY_UTC_HOUR then Move else Unpriced_wait)
      else if num_le KEEPER_MIN_REDEEM_USD (usd_value sharesRaw RESERVE_TOKEN_DECIMALS (the navUsd)) then Move else Dust)"

text \<open>
  An amount is left as dust only when it is empty or priced below the threshold, and an
  unpriced one waits at most until the retry hour.
\<close>

lemma dust_only_below_threshold:
  "stagedLegDecision amountRaw decimals usdPrice utcHour = Dust \<longleftrightarrow>
     amountRaw \<le> 0 \<or> (\<exists>p. usdPrice = Some p \<and> isFinite p \<and> num_less (Fin 0) p \<and>
       \<not> num_le KEEPER_MIN_SWAP_USD (usd_value amountRaw decimals p))"
  "0 < amountRaw \<Longrightarrow> stagedLegDecision amountRaw decimals None KEEPER_UNPRICED_RETRY_UTC_HOUR = Move"
  "0 < sharesRaw \<Longrightarrow> vaultDecision sharesRaw navUsd utcHour True = Move"
  by (auto simp: stagedLegDecision_def vaultDecision_def dust_priced_def split: option.splits)

lemma nav_total_None: "nav_total priceOf assets t = None \<longleftrightarrow>
    (\<exists>a \<in> set assets. na_vaultBalanceRaw a = None \<or> (na_vaultBalanceRaw a \<noteq> Some 0 \<and> \<not> dust_priced (priceOf (na_mint a))))"
  by (induction assets arbitrary: t) (auto split: option.splits)

end
