(* ===== verification/Activity.thy ===== *)
theory Activity
  imports Js_Number
begin

text \<open>
  \<open>packages/sdk/src/activityLog.ts\<close>: what one decoded program event says. The summary
  with its structured amounts, the amounts' value in dollars, and who was paid USDC. The
  fields of an event are the values Anchor's decoder produces; the date printing of the
  host's locale is the parameter \<open>localeDate\<close>.
\<close>

section \<open>Decoded event data\<close>

text \<open>
  The \<open>unknown\<close> values of an event's data: \<open>PublicKey\<close> by its base58 text, \<open>BN\<close>,
  \<open>number\<close> (the decoder yields integers), strings, booleans, arrays, the objects Anchor
  uses for enums (by their keys), null and undefined.
\<close>

datatype dval = DKey string | DBn int | DNum int | DStr string | DBool bool | DList "dval list" | DObj "string list"
  | DNull | DUndef

type_synonym event_data = "(string \<times> dval) list"

definition field :: "event_data \<Rightarrow> string \<Rightarrow> dval" where
  "field d k = (case map_of d k of Some v \<Rightarrow> v | None \<Rightarrow> DUndef)"

definition nullish :: "dval \<Rightarrow> bool" where
  "nullish v \<longleftrightarrow> v = DNull \<or> v = DUndef"

definition or_zero :: "dval \<Rightarrow> dval" where
  \<comment> \<open>\<open>v ?? 0\<close>\<close>
  "or_zero v = (if nullish v then DNum 0 else v)"

fun truthy :: "dval \<Rightarrow> bool" where
  "truthy (DBool b) = b"
| "truthy (DNum n) = (n \<noteq> 0)"
| "truthy (DStr s) = (s \<noteq> [])"
| "truthy DNull = False"
| "truthy DUndef = False"
| "truthy _ = True"

fun join :: "string \<Rightarrow> string list \<Rightarrow> string" where
  "join sep [] = []"
| "join sep [s] = s"
| "join sep (s # ss) = s @ sep @ join sep ss"

fun string_of :: "dval \<Rightarrow> string" where
  \<comment> \<open>\<open>String(v)\<close>, also of a template literal; a nullish element of an array prints as nothing\<close>
  "string_of (DKey a) = a"
| "string_of (DBn n) = int_str n"
| "string_of (DNum n) = int_str n"
| "string_of (DStr s) = s"
| "string_of (DBool b) = (if b then ''true'' else ''false'')"
| "string_of (DList vs) = join '','' (map (\<lambda>v. if v = DNull \<or> v = DUndef then [] else string_of v) vs)"
| "string_of (DObj ks) = ''[object Object]''"
| "string_of DNull = ''null''"
| "string_of DUndef = ''undefined''"

definition pk :: "dval \<Rightarrow> string" where
  \<comment> \<open>\<open>toBase58\<close> of a key, \<open>String\<close> of anything else\<close>
  "pk v = (case v of DKey a \<Rightarrow> a | _ \<Rightarrow> string_of v)"

definition array :: "dval \<Rightarrow> dval list option" where
  "array v = (case v of DList vs \<Rightarrow> Some vs | _ \<Rightarrow> None)"

definition array_or_empty :: "dval \<Rightarrow> dval list" where
  "array_or_empty v = (case v of DList vs \<Rightarrow> vs | _ \<Rightarrow> [])"

definition pkList :: "dval \<Rightarrow> string list" where
  "pkList v = (case array v of Some vs \<Rightarrow> map pk vs | None \<Rightarrow> [])"

section \<open>BigInt of a string\<close>

datatype activity_error = NotABigInt | BnTooLarge | RpcFailed

definition is_space :: "char \<Rightarrow> bool" where
  "is_space c \<longleftrightarrow> code c \<in> {9, 10, 11, 12, 13, 32, 160}"

definition trim :: "string \<Rightarrow> string" where
  "trim s = rev (dropWhile is_space (rev (dropWhile is_space s)))"

definition base_digit :: "nat \<Rightarrow> char \<Rightarrow> nat option" where
  "base_digit b c =
     (let n = code c;
          v = (if 48 \<le> n \<and> n \<le> 57 then n - 48 else if 97 \<le> n \<and> n \<le> 122 then n - 87
               else if 65 \<le> n \<and> n \<le> 90 then n - 55 else b) in
      if v < b then Some v else None)"

definition base_value :: "nat \<Rightarrow> string \<Rightarrow> int option" where
  "base_value b s =
     (if s = [] then None
      else foldl (\<lambda>acc c. case (acc, base_digit b c) of (Some n, Some v) \<Rightarrow> Some (n * int b + int v) | _ \<Rightarrow> None) (Some 0) s)"

definition bigint_of :: "string \<Rightarrow> activity_error + int" where
  \<comment> \<open>\<open>BigInt(s)\<close>: white space around is allowed, the empty string is 0, a sign only before decimals\<close>
  "bigint_of s =
     (let t = trim s;
          v = (if t = [] then Some 0
               else if take 2 t = ''0x'' \<or> take 2 t = ''0X'' then base_value 16 (drop 2 t)
               else if take 2 t = ''0o'' \<or> take 2 t = ''0O'' then base_value 8 (drop 2 t)
               else if take 2 t = ''0b'' \<or> take 2 t = ''0B'' then base_value 2 (drop 2 t)
               else if hd t = CHR ''-'' then map_option uminus (base_value 10 (tl t))
               else if hd t = CHR ''+'' then base_value 10 (tl t)
               else base_value 10 t) in
      case v of Some n \<Rightarrow> Inr n | None \<Rightarrow> Inl NotABigInt)"

fun addBig :: "dval list \<Rightarrow> activity_error + int" where
  "addBig [] = Inr 0"
| "addBig (v # vs) = rbind (bigint_of (string_of (or_zero v))) (\<lambda>n. rbind (addBig vs) (\<lambda>m. Inr (n + m)))"

section \<open>Number of a string\<close>

fun digits_of :: "string \<Rightarrow> string \<times> string" where
  "digits_of s = (takeWhile is_digit s, dropWhile is_digit s)"

definition exponent_of :: "string \<Rightarrow> int option" where
  \<comment> \<open>what follows the digits: nothing, or an exponent\<close>
  "exponent_of s =
     (if s = [] then Some 0
      else if hd s = CHR ''e'' \<or> hd s = CHR ''E''
      then (let t = tl s; neg = (t \<noteq> [] \<and> hd t = CHR ''-'');
                u = (if t \<noteq> [] \<and> (hd t = CHR ''-'' \<or> hd t = CHR ''+'') then tl t else t) in
            if u \<noteq> [] \<and> list_all is_digit u then Some (if neg then - int (digits_val u) else int (digits_val u)) else None)
      else None)"

definition decimal_value :: "string \<Rightarrow> rat option" where
  "decimal_value s =
     (case digits_of s of (whole, r) \<Rightarrow>
      case (if r \<noteq> [] \<and> hd r = CHR ''.'' then digits_of (tl r) else ([], r)) of (fr, r') \<Rightarrow>
      if whole = [] \<and> fr = [] then None
      else map_option (\<lambda>e. of_nat (digits_val (whole @ fr)) * 10 powi (e - int (length fr))) (exponent_of r'))"

definition number_of_string :: "string \<Rightarrow> number" where
  \<comment> \<open>\<open>Number(s)\<close>\<close>
  "number_of_string s =
     (let t = trim s; neg = (t \<noteq> [] \<and> hd t = CHR ''-'');
          u = (if t \<noteq> [] \<and> (hd t = CHR ''-'' \<or> hd t = CHR ''+'') then tl t else t) in
      if t = [] then Fin 0
      else if take 2 t = ''0x'' \<or> take 2 t = ''0X'' then (case base_value 16 (drop 2 t) of Some n \<Rightarrow> num_of_int n | None \<Rightarrow> NaN)
      else if take 2 t = ''0o'' \<or> take 2 t = ''0O'' then (case base_value 8 (drop 2 t) of Some n \<Rightarrow> num_of_int n | None \<Rightarrow> NaN)
      else if take 2 t = ''0b'' \<or> take 2 t = ''0B'' then (case base_value 2 (drop 2 t) of Some n \<Rightarrow> num_of_int n | None \<Rightarrow> NaN)
      else if u = ''Infinity'' then (if neg then NegInfty else Infty)
      else case decimal_value u of Some q \<Rightarrow> round64 (if neg then - q else q) | None \<Rightarrow> NaN)"

fun number_of :: "dval \<Rightarrow> number" where
  \<comment> \<open>\<open>Number(v)\<close>; objects are printed first\<close>
  "number_of (DNum n) = num_of_int n"
| "number_of (DBool b) = (if b then Fin 1 else Fin 0)"
| "number_of DNull = Fin 0"
| "number_of DUndef = NaN"
| "number_of v = number_of_string (string_of v)"

section \<open>Summaries\<close>

datatype amount_kind = MintVolume | RedeemVolume | RebalanceVolume | ProtocolFee | ManagerFee | ManagerFeeClaimed
  | ProtocolFeeUsdc | ManagerFeeUsdc

definition USDC_DENOMINATED_AMOUNT_KINDS :: "amount_kind list" where
  "USDC_DENOMINATED_AMOUNT_KINDS = [ProtocolFeeUsdc, ManagerFeeUsdc]"

record activity_summary =
  sm_actor :: "string option"
  sm_summary :: string
  sm_amountRaw :: "string option"
  sm_amountKind :: "amount_kind option"
  sm_amountRaw2 :: "string option"
  sm_amountKind2 :: "amount_kind option"

type_synonym summary_result = "activity_error + activity_summary option"

definition said :: "string option \<Rightarrow> string list \<Rightarrow> summary_result" where
  "said actor parts =
     Inr (Some \<lparr>sm_actor = actor, sm_summary = concat parts, sm_amountRaw = None, sm_amountKind = None,
                sm_amountRaw2 = None, sm_amountKind2 = None\<rparr>)"

definition said1 :: "string option \<Rightarrow> string list \<Rightarrow> dval list \<Rightarrow> amount_kind \<Rightarrow> summary_result" where
  \<comment> \<open>with one amount, printed by \<open>addBig\<close>\<close>
  "said1 actor parts vs k =
     rbind (addBig vs) (\<lambda>n.
     Inr (Some \<lparr>sm_actor = actor, sm_summary = concat parts, sm_amountRaw = Some (int_str n), sm_amountKind = Some k,
                sm_amountRaw2 = None, sm_amountKind2 = None\<rparr>))"

definition said2 :: "string option \<Rightarrow> string list \<Rightarrow> dval list \<Rightarrow> amount_kind \<Rightarrow> dval list \<Rightarrow> amount_kind \<Rightarrow> summary_result" where
  "said2 actor parts vs k vs' k' =
     rbind (addBig vs) (\<lambda>n. rbind (addBig vs') (\<lambda>m.
     Inr (Some \<lparr>sm_actor = actor, sm_summary = concat parts, sm_amountRaw = Some (int_str n), sm_amountKind = Some k,
                sm_amountRaw2 = Some (int_str m), sm_amountKind2 = Some k'\<rparr>)))"

definition said_as_is :: "string option \<Rightarrow> string list \<Rightarrow> dval \<Rightarrow> amount_kind \<Rightarrow> summary_result" where
  \<comment> \<open>the amount is the text of the field, unchecked\<close>
  "said_as_is actor parts v k =
     Inr (Some \<lparr>sm_actor = actor, sm_summary = concat parts, sm_amountRaw = Some (string_of (or_zero v)), sm_amountKind = Some k,
                sm_amountRaw2 = None, sm_amountKind2 = None\<rparr>)"

fun groups3 :: "string \<Rightarrow> string" where
  \<comment> \<open>a comma before every third digit, on the reversed digits\<close>
  "groups3 (a # b # c # d # r) = a # b # c # CHR '','' # groups3 (d # r)"
| "groups3 s = s"

definition en_us :: "rat \<Rightarrow> string" where
  \<comment> \<open>\<open>toLocaleString("en-US", {minimumFractionDigits: 2, maximumFractionDigits: 6})\<close> of a nonnegative number\<close>
  "en_us q =
     (let n = nat (floor (q * 10 ^ 6 + 1 / 2)); fr = pad_left 6 (nat_str (n mod 10 ^ 6)) in
      rev (groups3 (rev (nat_str (n div 10 ^ 6)))) @ ''.'' @ take 2 fr
        @ rev (dropWhile (\<lambda>c. c = CHR ''0'') (rev (drop 2 fr))))"

definition formatUsdcRaw :: "dval \<Rightarrow> string" where
  \<comment> \<open>beyond the range of binary64, which no u64 reaches, ICU prints its infinity sign\<close>
  "formatUsdcRaw v =
     (let raw = string_of (or_zero v) in
      if raw = [] \<or> \<not> list_all is_digit raw then raw @ '' raw''
      else (case num_div (number_of_string raw) (Fin 1000000) of Fin q \<Rightarrow> ''$'' @ en_us q | _ \<Rightarrow> ''$infinity''))"

section \<open>The switch\<close>

definition enum_source :: "dval \<Rightarrow> string" where
  \<comment> \<open>the first key of an enum object; an object or array without one has \<open>undefined\<close>\<close>
  "enum_source v = (case v of DObj (k # ks) \<Rightarrow> k | DObj [] \<Rightarrow> ''undefined'' | DList (x # xs) \<Rightarrow> ''0'' | DList [] \<Rightarrow> ''undefined''
                    | _ \<Rightarrow> string_of v)"

fun shares_text_from :: "nat \<Rightarrow> string \<Rightarrow> string \<Rightarrow> string list \<Rightarrow> string list \<Rightarrow> string list" where
  "shares_text_from i eq unit [] as = []"
| "shares_text_from i eq unit (r # rs) as =
     (take 4 r @ eq @ (if i < length as then as ! i else ''?'') @ unit) # shares_text_from (Suc i) eq unit rs as"

definition shares_text :: "string \<Rightarrow> string \<Rightarrow> string list \<Rightarrow> dval \<Rightarrow> string" where
  "shares_text eq unit rs v = join '', '' (shares_text_from 0 eq unit rs (map string_of (array_or_empty v)))"

definition summarize_trades_and_fees :: "(number \<Rightarrow> string) \<Rightarrow> string \<Rightarrow> event_data \<Rightarrow> summary_result" where
  \<comment> \<open>trades and the fees assessed with them\<close>
  "summarize_trades_and_fees localeDate name d =
     (let f = field d in
      if name = ''reserveCreated'' then
        said (Some (pk (f ''manager'')))
          [''Reserve created by '', pk (f ''manager'')]
      else if name = ''reserveAssetInitialized'' then
        said None
          [''Reserve asset '', pk (f ''assetMint''), '' initialized at '', string_of (f ''targetWeightBps''),
           ''bps'']
      else if name = ''reserveTokensMinted'' then
        said1 (Some (pk (f ''depositor'')))
          [pk (f ''depositor''), '' minted '', string_of (f ''reserveTokensOut''), '' Reserve Token unit(s) ('',
           string_of (f ''mintFeeReserveTokens''), '' fee)'']
          [f ''reserveTokensOut'', f ''mintFeeReserveTokens''] MintVolume
      else if name = ''reserveTokensRedeemed'' then
        said1 (Some (pk (f ''redeemer'')))
          [pk (f ''redeemer''), '' redeemed '', string_of (f ''reserveTokensBurned''),
           '' Reserve Token unit(s) ('', string_of (f ''redemptionFeeReserveTokens''), '' fee)'']
          [f ''reserveTokensBurned'', f ''redemptionFeeReserveTokens''] RedeemVolume
      else if name = ''protocolMintFeeTransferred'' then
        said1 None
          [''Protocol mint fee transferred: '', string_of (f ''amount''),
           '' Reserve Token unit(s) to treasury '', pk (f ''destination'')]
          [f ''amount''] ProtocolFee
      else if name = ''tvlFeeSettled'' then
        said2 (Some (pk (f ''settledBy'')))
          [''Weekly TVL fee settled for period '',
           localeDate (num_mul (number_of (f ''periodStartTs'')) (Fin 1000)), ''-'',
           localeDate (num_mul (number_of (f ''periodEndTs'')) (Fin 1000)), '': '',
           string_of (f ''protocolFeeShares''), '' Protocol-share (sent to treasury) + '',
           string_of (f ''managerFeeShares''), '' Manager-share Reserve Token unit(s)'']
          [f ''protocolFeeShares''] ProtocolFee [f ''managerFeeShares''] ManagerFee
      else if name = ''managerFeeRecipientsConfigured'' then
        said (Some (pk (f ''configuredBy'')))
          [''Manager fee routing configured: '',
           shares_text ''...='' ''bps'' (pkList (f ''recipients'')) (f ''allocationsBps'')]
      else if name = ''managerFeeShareAccrued'' then
        said1 None
          [''Manager fee accrued ('',
           (if enum_source (f ''source'') = ''annualTvlFee'' then ''TVL fee'' else ''mint fee''), ''): '',
           shares_text ''...+='' '''' (pkList (f ''recipients'')) (f ''amounts'')]
          (array_or_empty (f ''amounts'')) ManagerFee
      else if name = ''managerFeeShareCollected'' then
        said1 (Some (pk (f ''collectedBy'')))
          [pk (f ''recipient''), '' collected '', string_of (f ''amount''),
           '' Reserve Token unit(s) of its own accrued Manager fee'']
          [f ''amount''] ManagerFeeClaimed
      else if name = ''feesAccrued'' then
        said2 None
          [''Fees accrued (legacy): '', string_of (f ''managerFeeSharesAccrued''), '' manager-share + '',
           string_of (f ''protocolFeeSharesAccrued''), '' protocol-share Reserve Token units'']
          [f ''managerFeeSharesAccrued''] ManagerFee [f ''protocolFeeSharesAccrued''] ProtocolFee
      else Inr None)"

definition summarize_management :: "string \<Rightarrow> event_data \<Rightarrow> summary_result" where
  \<comment> \<open>the calls of managers, co-managers and executors\<close>
  "summarize_management name d =
     (let f = field d in
      if name = ''delegateAdded'' then
        said (Some (pk (f ''delegate'')))
          [''Co-Manager '', pk (f ''delegate''), '' added ('',
           (if truthy (f ''restricted'') then ''restricted'' else ''unrestricted''), '')'']
      else if name = ''delegatePermissionsUpdated'' then
        said (Some (pk (f ''delegate'')))
          [''Co-Manager '', pk (f ''delegate''), '' permissions changed ('', string_of (f ''oldPermissions''),
           '' -> '', string_of (f ''newPermissions''), '')'']
      else if name = ''delegateRemoved'' then
        said (Some (pk (f ''delegate'')))
          [''Co-Manager '', pk (f ''delegate''), '' removed'']
      else if name = ''targetsUpdated'' then
        said (Some (pk (f ''updatedBy'')))
          [''Target weights updated for '', nat_str (length (pkList (f ''assetMints''))), '' asset(s): '',
           shares_text ''...='' ''bps'' (pkList (f ''assetMints'')) (f ''newTargetWeightsBps'')]
      else if name = ''reserveAssetAdded'' then
        said (Some (pk (f ''addedBy'')))
          [''Reserve asset '', pk (f ''assetMint''), '' added at '', string_of (f ''targetWeightBps''), ''bps'']
      else if name = ''reserveAssetFunded'' then
        said (Some (pk (f ''fundedBy'')))
          [''Reserve asset '', pk (f ''assetMint''), '' funded (+'', string_of (f ''amount''), '' raw)'']
      else if name = ''reserveAssetRemoved'' then
        said (Some (pk (f ''removedBy'')))
          [''Reserve asset '', pk (f ''assetMint''), '' removed'']
      else if name = ''windDownInitiated'' then
        said (Some (pk (f ''initiatedBy'')))
          [''Wind-down initiated'']
      else if name = ''reserveClosed'' then
        said (Some (pk (f ''closedBy'')))
          [''Reserve closed'']
      else if name = ''reservePaused'' then
        said (Some (pk (f ''pausedBy'')))
          [''Reserve paused'']
      else if name = ''reserveUnpaused'' then
        said (Some (pk (f ''unpausedBy'')))
          [''Reserve unpaused'']
      else if name = ''feesCollected'' then
        said None
          [''Fees collected: '', string_of (f ''managerFeeSharesMinted''), '' manager-share + '',
           string_of (f ''protocolFeeSharesMinted''), '' protocol-share Reserve Token units minted'']
      else if name = ''rebalanceRecorded'' then
        said (Some (pk (f ''executedBy'')))
          [''Rebalance recorded'', (if truthy (f ''note'') then '': '' @ string_of (f ''note'') else [])]
      else if name = ''rebalanceLegExecuted'' then
        said_as_is (Some (pk (f ''executedBy'')))
          [''Rebalance leg executed: '', pk (f ''mintSell''), '' -> '', pk (f ''mintBuy''), '' ('',
           string_of (f ''amountIn''), '' in, '', string_of (f ''amountOut''), '' out)'']
          (f ''amountIn'') RebalanceVolume
      else if name = ''rebalanceSwapExecuted'' then
        said_as_is (Some (pk (f ''executedBy'')))
          [''Rebalance swap: '', pk (f ''mintSell''), '' -> '', pk (f ''mintBuy''), '' ('',
           string_of (f ''amountIn''), '' in, '', string_of (f ''amountOut''), '' out)'']
          (f ''amountIn'') RebalanceVolume
      else if name = ''metadataUpdated'' then
        said (Some (pk (f ''updatedBy'')))
          [''Metadata updated'']
      else if name = ''reserveManagerTransferred'' then
        said (Some (pk (f ''oldManager'')))
          [''Manager transferred: '', pk (f ''oldManager''), '' -> '', pk (f ''newManager'')]
      else Inr None)"

definition summarize_settlement :: "string \<Rightarrow> event_data \<Rightarrow> summary_result" where
  \<comment> \<open>seeding, the protocol, and the settlement of fees in USDC\<close>
  "summarize_settlement name d =
     (let f = field d in
      if name = ''reserveSeeded'' then
        said1 None
          [''Reserve seeded with '', string_of (f ''initialReserveTokens''), '' initial Reserve Token units ('',
           string_of (or_zero (f ''mintFeeReserveTokens'')), '' minted as Protocol/Manager fee)'']
          [f ''initialReserveTokens'', or_zero (f ''mintFeeReserveTokens'')] MintVolume
      else if name = ''protocolFeeCollected'' then
        said1 (Some (pk (f ''collectedBy'')))
          [''Protocol fee collected: '', string_of (f ''amount''), '' Reserve Token units'']
          [f ''amount''] ProtocolFee
      else if name = ''protocolInitialized'' then
        said (Some (pk (f ''authority'')))
          [''Protocol initialized by '', pk (f ''authority''), '' (max '', string_of (f ''maxReserveAssets''),
           '' Reserve Assets)'']
      else if name = ''protocolConfigUpdated'' then
        said (Some (pk (f ''authority'')))
          [''Protocol config updated by '', pk (f ''authority''), '': default fee destination '',
           pk (f ''oldDefaultProtocolFeeDestination''), '' -> '', pk (f ''newDefaultProtocolFeeDestination''),
           '', default fee '', string_of (f ''oldDefaultProtocolFeeBps''), ''bps -> '',
           string_of (f ''newDefaultProtocolFeeBps''), ''bps'']
      else if name = ''feeVaultCredited'' then
        said2 None
          [''Fee crystallized into the fee vault ('',
           (if enum_source (f ''source'') = ''annualTvlFee'' then ''TVL fee'' else if enum_source (f ''source'') = ''redemptionFee'' then ''redemption fee'' else ''mint fee''),
           ''): '', string_of (f ''protocolShares''), '' protocol-share + '', string_of (f ''managerShares''),
           '' manager-share Reserve Token units'']
          [f ''protocolShares''] ProtocolFee [f ''managerShares''] ManagerFee
      else if name = ''feeSharesRedeemed'' then
        said (Some (pk (f ''redeemedBy'')))
          [string_of (f ''sharesRedeemed''),
           '' fee-vault Reserve Token shares redeemed for underlying assets, staged for settlement ('',
           string_of (f ''protocolSharesRedeemed''), '' protocol + '', string_of (f ''managerSharesRedeemed''),
           '' manager)'']
      else if name = ''settlementSwapApproved'' then
        said (Some (pk (f ''keeper'')))
          [''Fee-settlement swap approved: '', string_of (f ''amount''), '' raw of '', pk (f ''assetMint''),
           '' released to the settlement keeper for conversion to USDC'']
      else if name = ''feeUsdcDistributed'' then
        said (Some (pk (f ''distributedBy'')))
          [''Fee settlement paid out in USDC: '', formatUsdcRaw (f ''protocolUsdc''),
           '' to the Protocol treasury, '', formatUsdcRaw (f ''managerUsdc''), '' across '',
           nat_str (length (array_or_empty (f ''managerRecipients''))), '' Manager fee recipient(s)'']
      else if name = ''mintFeePaidUsdc'' then
        said2 (Some (pk (f ''payer'')))
          [pk (f ''payer''), '' paid a '', formatUsdcRaw (f ''usdcFee''), '' '',
           (if truthy (f ''isSeed'') then ''seed'' else ''mint''), '' fee in USDC: '',
           formatUsdcRaw (f ''protocolUsdc''), '' to the Protocol treasury, '',
           formatUsdcRaw (f ''managerUsdc''), '' across '',
           nat_str (length (array_or_empty (f ''managerRecipients''))), '' Manager fee recipient(s)'']
          [f ''protocolUsdc''] ProtocolFeeUsdc [f ''managerUsdc''] ManagerFeeUsdc
      else if name = ''feeSettlementKeeperSet'' then
        said (Some (pk (f ''authority'')))
          [''Fee-settlement keeper changed: '', pk (f ''oldKeeper''), '' -> '', pk (f ''newKeeper'')]
      else if name = ''protocolPausedSet'' then
        said (Some (pk (f ''authority'')))
          [(if truthy (f ''paused'') then ''Protocol-wide pause ENABLED'' else ''Protocol-wide pause lifted'')]
      else Inr None)"

definition summarizeActivityEvent :: "(number \<Rightarrow> string) \<Rightarrow> string \<Rightarrow> event_data \<Rightarrow> summary_result" where
  \<comment> \<open>the groups name different events\<close>
  "summarizeActivityEvent localeDate name d =
     rbind (summarize_trades_and_fees localeDate name d) (\<lambda>r1.
     case r1 of Some s \<Rightarrow> Inr (Some s) | None \<Rightarrow>
     rbind (summarize_management name d) (\<lambda>r2.
     case r2 of Some s \<Rightarrow> Inr (Some s) | None \<Rightarrow> summarize_settlement name d))"

section \<open>Value in dollars\<close>

record asset_pricing =
  ap_decimals :: nat
  ap_priceUsd :: number

type_synonym pricing = "(string \<times> asset_pricing) list"

fun legs_value :: "pricing \<Rightarrow> string list \<Rightarrow> string list \<Rightarrow> number \<Rightarrow> activity_error + number" where
  \<comment> \<open>the loop of \<open>valueAssetLegsUsd\<close>; a missing amount is \<open>BigInt(undefined)\<close>\<close>
  "legs_value pricing [] amounts acc = Inr acc"
| "legs_value pricing (m # ms) amounts acc =
     (case map_of pricing m of
        None \<Rightarrow> legs_value pricing ms (tl amounts) acc
      | Some info \<Rightarrow>
          rbind (if amounts = [] then Inl NotABigInt else bigint_of (hd amounts)) (\<lambda>raw.
          legs_value pricing ms (tl amounts)
            (num_add acc (num_mul (num_div (num_of_int raw) (pow10 (ap_decimals info))) (ap_priceUsd info)))))"

definition valueAssetLegsUsd :: "string list \<Rightarrow> string list \<Rightarrow> pricing \<Rightarrow> activity_error + number" where
  "valueAssetLegsUsd mints amounts pricing = legs_value pricing mints amounts (Fin 0)"

record activity_valuation =
  av_pricing :: pricing
  av_navUsdPerRtRawUnit :: "number option"

record event_usd =
  eu_amountUsd :: "number option"
  eu_amountUsd2 :: "number option"

definition value_legs :: "activity_valuation \<Rightarrow> dval \<Rightarrow> dval \<Rightarrow> activity_error + number option" where
  "value_legs w mints amounts =
     (case (array mints, array amounts) of
        (Some ms, Some as) \<Rightarrow>
          rbind (valueAssetLegsUsd (map pk ms) (map (\<lambda>a. string_of (or_zero a)) as) (av_pricing w)) (\<lambda>v. Inr (Some v))
      | _ \<Rightarrow> Inr None)"

definition value_shares :: "activity_valuation \<Rightarrow> dval \<Rightarrow> number option" where
  "value_shares w v =
     (case av_navUsdPerRtRawUnit w of
        None \<Rightarrow> None
      | Some nav \<Rightarrow> if nullish v then None else Some (num_mul (number_of_string (string_of v)) nav))"

definition value_sum_shares :: "activity_valuation \<Rightarrow> dval \<Rightarrow> activity_error + number option" where
  "value_sum_shares w v =
     (case array v of
        None \<Rightarrow> Inr None
      | Some vs \<Rightarrow> rbind (addBig vs) (\<lambda>n. Inr (value_shares w (DStr (int_str n)))))"

definition usdc_usd :: "dval \<Rightarrow> number option" where
  "usdc_usd v = Some (num_div (number_of_string (string_of (or_zero v))) (Fin 1000000))"

definition valueActivityEventUsd :: "string \<Rightarrow> event_data \<Rightarrow> activity_valuation \<Rightarrow> activity_error + event_usd" where
  "valueActivityEventUsd name d w =
     (let f = field d; one = (\<lambda>r. rbind r (\<lambda>v. Inr \<lparr>eu_amountUsd = v, eu_amountUsd2 = None\<rparr>));
          two = (\<lambda>a b. Inr \<lparr>eu_amountUsd = a, eu_amountUsd2 = b\<rparr>) in
      if name = ''reserveTokensMinted'' then one (value_legs w (f ''assetMints'') (f ''assetAmountsIn''))
      else if name = ''reserveTokensRedeemed'' then one (value_legs w (f ''assetMints'') (f ''assetAmountsOut''))
      else if name = ''reserveSeeded'' then one (value_legs w (f ''assetMints'') (f ''assetAmounts''))
      else if name = ''rebalanceSwapExecuted'' \<or> name = ''rebalanceLegExecuted''
      then one (value_legs w (DList [f ''mintSell'']) (DList [f ''amountIn'']))
      else if name = ''protocolMintFeeTransferred'' \<or> name = ''protocolFeeCollected'' \<or> name = ''managerFeeShareCollected''
      then two (value_shares w (f ''amount'')) None
      else if name = ''managerFeeShareAccrued'' then one (value_sum_shares w (f ''amounts''))
      else if name = ''tvlFeeSettled''
      then two (value_shares w (f ''protocolFeeShares'')) (value_shares w (f ''managerFeeShares''))
      else if name = ''feesAccrued''
      then two (value_shares w (f ''managerFeeSharesAccrued'')) (value_shares w (f ''protocolFeeSharesAccrued''))
      else if name = ''feeVaultCredited''
      then two (value_shares w (f ''protocolShares'')) (value_shares w (f ''managerShares''))
      else if name = ''feeUsdcDistributed'' \<or> name = ''mintFeePaidUsdc''
      then two (usdc_usd (f ''protocolUsdc'')) (usdc_usd (f ''managerUsdc''))
      else two None None)"

section \<open>Who was paid\<close>

record fee_payout =
  fp_wallet :: string
  fp_usdcRaw :: string

definition FEE_PAYOUT_EVENT_KINDS :: "string list" where
  "FEE_PAYOUT_EVENT_KINDS = [''feeUsdcDistributed'', ''mintFeePaidUsdc'']"

definition extractFeePayouts :: "string \<Rightarrow> event_data \<Rightarrow> fee_payout list option" where
  "extractFeePayouts name d =
     (if name \<noteq> ''feeUsdcDistributed'' \<and> name \<noteq> ''mintFeePaidUsdc'' then None
      else
        let isMintFee = (name = ''mintFeePaidUsdc'');
            wallets = array_or_empty (field d ''managerRecipients''); amounts = array_or_empty (field d ''managerAmounts'');
            protocolRaw = string_of (or_zero (field d ''protocolUsdc''));
            treasury = (if isMintFee \<and> \<not> nullish (field d ''protocolDestination'') \<and> protocolRaw \<noteq> ''0''
                      then [\<lparr>fp_wallet = pk (field d ''protocolDestination''), fp_usdcRaw = protocolRaw\<rparr>] else []) in
        Some (treasury @ concat (map (\<lambda>(w, a).
          let usdcRaw = string_of (or_zero a) in
          if isMintFee \<and> usdcRaw = ''0'' then [] else [\<lparr>fp_wallet = pk w, fp_usdcRaw = usdcRaw\<rparr>]) (zip wallets amounts))))"

record anchor_event =
  ev_name :: string
  ev_data :: event_data

fun nth_payouts :: "string \<Rightarrow> nat \<Rightarrow> nat \<Rightarrow> anchor_event list \<Rightarrow> fee_payout list option" where
  "nth_payouts kind eventIndex ordinal [] = None"
| "nth_payouts kind eventIndex ordinal (e # es) =
     (if ev_name e \<noteq> kind then nth_payouts kind eventIndex ordinal es
      else if ordinal = eventIndex
      then Some (case extractFeePayouts (ev_name e) (ev_data e) of Some ps \<Rightarrow> ps | None \<Rightarrow> [])
      else nth_payouts kind eventIndex (ordinal + 1) es)"

definition extractFeePayoutsFromLogs :: "('l \<Rightarrow> anchor_event list) \<Rightarrow> 'l \<Rightarrow> nat \<Rightarrow> string \<Rightarrow> fee_payout list option" where
  \<comment> \<open>\<open>parseLogs\<close> is Anchor's event parser\<close>
  "extractFeePayoutsFromLogs parseLogs logs eventIndex kind = nth_payouts kind eventIndex 0 (parseLogs logs)"

section \<open>What a summary promises\<close>

lemma is_space_digit: "is_digit c \<Longrightarrow> \<not> is_space c"
  by (auto simp: is_digit_def is_space_def)

lemma base_digit_10: "is_digit c \<Longrightarrow> base_digit 10 c = Some (code c - 48)"
  by (auto simp: is_digit_def base_digit_def Let_def)

lemma trim_digits: "list_all is_digit s \<Longrightarrow> trim s = s"
proof -
  assume d: "list_all is_digit s"
  have "dropWhile is_space s = s" using d by (cases s) (auto simp: is_space_digit)
  moreover have "list_all is_digit (rev s)" using d by simp
  then have "dropWhile is_space (rev s) = rev s" by (cases "rev s") (auto simp: is_space_digit)
  ultimately show ?thesis by (simp add: trim_def)
qed

lemma base_value_digits:
  assumes "list_all is_digit s" and "s \<noteq> []"
  shows "base_value 10 s = Some (int (digits_val s))"
proof -
  have "foldl (\<lambda>acc c. case (acc, base_digit 10 c) of (Some n, Some v) \<Rightarrow> Some (n * int 10 + int v) | _ \<Rightarrow> None) (Some 0) s
      = Some (int (digits_val s))" if "list_all is_digit s" for s
    using that
  proof (induction s rule: rev_induct)
    case (snoc c s)
    then show ?case by (simp add: base_digit_10)
  qed (simp add: digits_val_def)
  then show ?thesis using assms by (simp add: base_value_def)
qed

lemma bigint_of_digits:
  assumes "list_all is_digit s" and "s \<noteq> []"
  shows "bigint_of s = Inr (int (digits_val s))"
proof -
  have nd: "\<not> is_digit (CHR ''x'')" "\<not> is_digit (CHR ''X'')" "\<not> is_digit (CHR ''o'')" "\<not> is_digit (CHR ''O'')"
    "\<not> is_digit (CHR ''b'')" "\<not> is_digit (CHR ''B'')" "\<not> is_digit (CHR ''-'')" "\<not> is_digit (CHR ''+'')"
    by (simp_all add: is_digit_def code_def)
  have pre: "take 2 s \<noteq> [a, b]" if "\<not> is_digit b" for a b
  proof
    assume "take 2 s = [a, b]"
    then have "b \<in> set s" by (metis in_set_takeD list.set_intros(1,2))
    then show False using assms(1) that by (simp add: list_all_iff)
  qed
  have hd: "hd s \<noteq> CHR ''-''" "hd s \<noteq> CHR ''+''" using assms nd by (cases s; auto)+
  show ?thesis using assms pre nd hd trim_digits [OF assms(1)] base_value_digits [OF assms] by (simp add: bigint_of_def)
qed

lemma bigint_of_int_str: "0 \<le> n \<Longrightarrow> bigint_of (int_str n) = Inr n"
  using bigint_of_digits [of "nat_str (nat n)"] nat_str_digits by (auto simp: int_str_def list_all_iff)

definition is_u64 :: "dval \<Rightarrow> bool" where
  "is_u64 v \<longleftrightarrow> (case v of DBn n \<Rightarrow> 0 \<le> n \<and> n < 2 ^ 64 | _ \<Rightarrow> False)"

definition u64s :: "dval \<Rightarrow> bool" where
  "u64s v \<longleftrightarrow> (case v of DList vs \<Rightarrow> list_all is_u64 vs | _ \<Rightarrow> False)"

definition amount_fields :: "string \<Rightarrow> string list" where
  \<comment> \<open>the fields the IDL types as u64, of the events that move an amount\<close>
  "amount_fields name =
     (if name = ''reserveTokensMinted'' then [''reserveTokensOut'', ''mintFeeReserveTokens'']
      else if name = ''reserveTokensRedeemed'' then [''reserveTokensBurned'', ''redemptionFeeReserveTokens'']
      else if name = ''reserveSeeded'' then [''initialReserveTokens'', ''mintFeeReserveTokens'']
      else if name \<in> {''protocolMintFeeTransferred'', ''managerFeeShareCollected'', ''protocolFeeCollected''} then [''amount'']
      else if name = ''tvlFeeSettled'' then [''protocolFeeShares'', ''managerFeeShares'']
      else if name = ''feesAccrued'' then [''managerFeeSharesAccrued'', ''protocolFeeSharesAccrued'']
      else if name = ''feeVaultCredited'' then [''protocolShares'', ''managerShares'']
      else if name = ''mintFeePaidUsdc'' then [''protocolUsdc'', ''managerUsdc'']
      else if name \<in> {''rebalanceLegExecuted'', ''rebalanceSwapExecuted''} then [''amountIn'']
      else [])"

definition decoded_by_idl :: "string \<Rightarrow> event_data \<Rightarrow> bool" where
  "decoded_by_idl name d \<longleftrightarrow>
     list_all (\<lambda>k. is_u64 (field d k)) (amount_fields name) \<and> (name = ''managerFeeShareAccrued'' \<longrightarrow> u64s (field d ''amounts''))"

definition amount_typed :: "string \<Rightarrow> string option \<Rightarrow> amount_kind option \<Rightarrow> bool" where
  "amount_typed name raw kind \<longleftrightarrow>
     (case (raw, kind) of
        (None, None) \<Rightarrow> True
      | (Some s, Some k) \<Rightarrow> (\<exists>n \<ge> 0. s = int_str n) \<and> (k \<in> set USDC_DENOMINATED_AMOUNT_KINDS \<longleftrightarrow> name = ''mintFeePaidUsdc'')
      | _ \<Rightarrow> False)"

definition summary_typed :: "string \<Rightarrow> summary_result \<Rightarrow> bool" where
  "summary_typed name r \<longleftrightarrow>
     (case r of
        Inl e \<Rightarrow> False
      | Inr None \<Rightarrow> True
      | Inr (Some s) \<Rightarrow> amount_typed name (sm_amountRaw s) (sm_amountKind s) \<and> amount_typed name (sm_amountRaw2 s) (sm_amountKind2 s)
                       \<and> (sm_amountRaw2 s \<noteq> None \<longrightarrow> sm_amountRaw s \<noteq> None))"

lemma addBig_u64: "list_all is_u64 vs \<Longrightarrow> \<exists>n \<ge> 0. addBig vs = Inr n"
proof (induction vs)
  case (Cons v vs)
  obtain m where m: "v = DBn m" "0 \<le> m" using Cons(2) by (cases v) (auto simp: is_u64_def)
  obtain n where "0 \<le> n" "addBig vs = Inr n" using Cons by auto
  then show ?case using m by (auto simp: or_zero_def nullish_def bigint_of_int_str intro!: exI [of _ "m + n"])
qed simp

lemma typed_said: "summary_typed name (said a ps)"
  by (simp add: said_def summary_typed_def amount_typed_def)

lemma typed_said1:
  "list_all is_u64 vs \<Longrightarrow> (k \<in> set USDC_DENOMINATED_AMOUNT_KINDS) = (name = ''mintFeePaidUsdc'') \<Longrightarrow>
   summary_typed name (said1 a ps vs k)"
  using addBig_u64 [of vs] by (auto simp: said1_def summary_typed_def amount_typed_def)

lemma typed_said2:
  "list_all is_u64 vs \<Longrightarrow> list_all is_u64 vs' \<Longrightarrow>
   (k \<in> set USDC_DENOMINATED_AMOUNT_KINDS) = (name = ''mintFeePaidUsdc'') \<Longrightarrow>
   (k' \<in> set USDC_DENOMINATED_AMOUNT_KINDS) = (name = ''mintFeePaidUsdc'') \<Longrightarrow> summary_typed name (said2 a ps vs k vs' k')"
  using addBig_u64 [of vs] addBig_u64 [of vs'] by (auto simp: said2_def summary_typed_def amount_typed_def)

lemma typed_said_as_is:
  "is_u64 v \<Longrightarrow> (k \<in> set USDC_DENOMINATED_AMOUNT_KINDS) = (name = ''mintFeePaidUsdc'') \<Longrightarrow>
   summary_typed name (said_as_is a ps v k)"
  by (cases v) (auto simp: is_u64_def said_as_is_def summary_typed_def amount_typed_def or_zero_def nullish_def)

lemma typed_None: "summary_typed name (Inr None)"
  by (simp add: summary_typed_def)

lemmas typed_intros = typed_said typed_said1 typed_said2 typed_said_as_is typed_None

lemma typed_if:
  "(name = n \<Longrightarrow> summary_typed name r) \<Longrightarrow> summary_typed name r' \<Longrightarrow> summary_typed name (if name = n then r else r')"
  by simp

lemma or_zero_u64: "is_u64 v \<Longrightarrow> is_u64 (or_zero v)"
  by (cases v) (auto simp: is_u64_def or_zero_def nullish_def)

lemma u64s_elements: "u64s v \<Longrightarrow> list_all is_u64 (array_or_empty v)"
  by (cases v) (auto simp: u64s_def array_or_empty_def)

lemmas typed_simps = decoded_by_idl_def amount_fields_def USDC_DENOMINATED_AMOUNT_KINDS_def or_zero_u64 u64s_elements

lemma typed_trades:
  assumes "decoded_by_idl name d" shows "summary_typed name (summarize_trades_and_fees ld name d)"
  unfolding summarize_trades_and_fees_def Let_def
  by (intro typed_if typed_intros; (use assms in \<open>simp add: typed_simps\<close>))

lemma typed_management:
  assumes "decoded_by_idl name d" shows "summary_typed name (summarize_management name d)"
  unfolding summarize_management_def Let_def
  by (intro typed_if typed_intros; (use assms in \<open>simp add: typed_simps\<close>))

lemma typed_settlement:
  assumes "decoded_by_idl name d" shows "summary_typed name (summarize_settlement name d)"
  unfolding summarize_settlement_def Let_def
  by (intro typed_if typed_intros; (use assms in \<open>simp add: typed_simps\<close>))



end
