(* ===== verification/Activity_Index.thy ===== *)
theory Activity_Index
  imports Activity
begin

text \<open>
  The persistent index of a Reserve's activity: the bounded walk over its transactions
  (\<open>packages/sdk/src/activityLog.ts: fetchReserveActivityLog\<close>), the cursor that says which
  part of the history is indexed (\<open>lib/reserve-activity/cursorLogic.ts\<close>) and the
  synchronisation that tops the index up and fills it backwards
  (\<open>lib/reserve-activity/indexer.ts\<close>). The store is the slice of the two tables that
  belongs to one Reserve. The answers of the RPC, after its retries, are arguments.
\<close>

section \<open>The walk\<close>

record sig_info =
  si_signature :: string
  si_err :: bool
  si_blockTime :: "int option"

record activity_entry =
  en_signature :: string
  en_eventIndex :: nat
  en_ts :: int
  en_kind :: string
  en_actor :: "string option"
  en_summary :: string
  en_amountRaw :: "string option"
  en_amountKind :: "amount_kind option"
  en_amountRaw2 :: "string option"
  en_amountKind2 :: "amount_kind option"
  en_amountUsd :: "number option"
  en_amountUsd2 :: "number option"
  en_payouts :: "fee_payout list option"

record 'l walk_env =
  we_localeDate :: "number \<Rightarrow> string"
  we_parseLogs :: "'l \<Rightarrow> anchor_event list"
  we_valuation :: "activity_valuation option"

record 'l chain_rpc =
  cr_signatures :: "string option \<Rightarrow> activity_error + sig_info list"
    \<comment> \<open>\<open>getSignaturesForAddress(reserve, {limit: 50, before})\<close>\<close>
  cr_logs :: "string \<Rightarrow> activity_error + 'l option"
    \<comment> \<open>\<open>getTransaction(signature)\<close>'s \<open>meta.logMessages\<close>\<close>

definition ACTIVITY_DEFAULT_MAX_PAGES :: nat where "ACTIVITY_DEFAULT_MAX_PAGES = 4"
definition ACTIVITY_SIGNATURES_PER_PAGE :: nat where "ACTIVITY_SIGNATURES_PER_PAGE = 50"
definition ACTIVITY_MAX_ENTRIES :: nat where "ACTIVITY_MAX_ENTRIES = 100"

definition event_ts :: "sig_info \<Rightarrow> event_data \<Rightarrow> activity_error + int" where
  \<comment> \<open>\<open>BN.toNumber\<close> throws above 53 bits\<close>
  "event_ts si d =
     (case field d ''ts'' of
        DBn n \<Rightarrow> if \<bar>n\<bar> < 2 ^ 53 then Inr n else Inl BnTooLarge
      | _ \<Rightarrow> Inr (case si_blockTime si of Some t \<Rightarrow> t | None \<Rightarrow> 0))"

definition entry_of ::
  "sig_info \<Rightarrow> anchor_event \<Rightarrow> activity_summary \<Rightarrow> nat \<Rightarrow> int \<Rightarrow> event_usd \<Rightarrow> activity_entry" where
  "entry_of si e s i ts usd =
     \<lparr>en_signature = si_signature si, en_eventIndex = i, en_ts = ts, en_kind = ev_name e, en_actor = sm_actor s,
      en_summary = sm_summary s, en_amountRaw = sm_amountRaw s, en_amountKind = sm_amountKind s,
      en_amountRaw2 = sm_amountRaw2 s, en_amountKind2 = sm_amountKind2 s, en_amountUsd = eu_amountUsd usd,
      en_amountUsd2 = eu_amountUsd2 usd, en_payouts = extractFeePayouts (ev_name e) (ev_data e)\<rparr>"

definition event_value :: "'l walk_env \<Rightarrow> anchor_event \<Rightarrow> activity_error + event_usd" where
  "event_value env e =
     (case we_valuation env of
        None \<Rightarrow> Inr \<lparr>eu_amountUsd = None, eu_amountUsd2 = None\<rparr>
      | Some v \<Rightarrow> valueActivityEventUsd (ev_name e) (ev_data e) v)"

definition ordinal_of :: "(string \<times> nat) list \<Rightarrow> string \<Rightarrow> nat" where
  "ordinal_of ords k = (case dget ords k of Some i \<Rightarrow> i | None \<Rightarrow> 0)"

fun push_events ::
  "'l walk_env \<Rightarrow> sig_info \<Rightarrow> anchor_event list \<Rightarrow> (string \<times> nat) list \<Rightarrow> activity_entry list
    \<Rightarrow> activity_error + activity_entry list" where
  "push_events env si [] ords entries = Inr entries"
| "push_events env si (e # es) ords entries =
     rbind (summarizeActivityEvent (we_localeDate env) (ev_name e) (ev_data e)) (\<lambda>decoded.
     case decoded of
       None \<Rightarrow> push_events env si es ords entries
     | Some s \<Rightarrow>
         rbind (event_ts si (ev_data e)) (\<lambda>ts.
         rbind (event_value env e) (\<lambda>usd.
         let i = ordinal_of ords (ev_name e);
             entries' = entries @ [entry_of si e s i ts usd] in
         if length entries' \<ge> ACTIVITY_MAX_ENTRIES then Inr entries'
         else push_events env si es (dput (ev_name e) (i + 1) ords) entries')))"

definition is_stop :: "string option \<Rightarrow> sig_info \<Rightarrow> bool" where
  "is_stop stop si \<longleftrightarrow> stop = Some (si_signature si) \<and> stop \<noteq> Some []"

fun walk_page ::
  "'l walk_env \<Rightarrow> 'l chain_rpc \<Rightarrow> string option \<Rightarrow> sig_info list \<Rightarrow> activity_entry list \<Rightarrow> string option
    \<Rightarrow> activity_error + activity_entry list \<times> string option \<times> bool" where
  \<comment> \<open>the entries, the oldest signature walked, and whether the known signature was reached\<close>
  "walk_page env rpc stop [] entries oldest = Inr (entries, oldest, False)"
| "walk_page env rpc stop (si # sis) entries oldest =
     (if is_stop stop si then Inr (entries, oldest, True)
      else if si_err si then walk_page env rpc stop sis entries (Some (si_signature si))
      else rbind (cr_logs rpc (si_signature si)) (\<lambda>answer.
        case answer of
          None \<Rightarrow> walk_page env rpc stop sis entries (Some (si_signature si))
        | Some logs \<Rightarrow>
            rbind (push_events env si (we_parseLogs env logs) [] entries) (\<lambda>entries'.
            if length entries' \<ge> ACTIVITY_MAX_ENTRIES then Inr (entries', Some (si_signature si), False)
            else walk_page env rpc stop sis entries' (Some (si_signature si)))))"

record walk_result =
  wr_entries :: "activity_entry list"
  wr_oldestSignatureWalked :: "string option"
  wr_reachedRealEnd :: bool
  wr_reachedKnownSignature :: bool

fun walk_pages ::
  "'l walk_env \<Rightarrow> 'l chain_rpc \<Rightarrow> string option \<Rightarrow> nat \<Rightarrow> string option \<Rightarrow> activity_entry list \<Rightarrow> string option
    \<Rightarrow> activity_error + walk_result" where
  \<comment> \<open>the number of pages left bounds the loop\<close>
  "walk_pages env rpc stop 0 before entries oldest = Inr \<lparr>wr_entries = entries, wr_oldestSignatureWalked = oldest,
     wr_reachedRealEnd = False, wr_reachedKnownSignature = False\<rparr>"
| "walk_pages env rpc stop (Suc n) before entries oldest =
     (if length entries \<ge> ACTIVITY_MAX_ENTRIES
      then Inr \<lparr>wr_entries = entries, wr_oldestSignatureWalked = oldest, wr_reachedRealEnd = False,
                wr_reachedKnownSignature = False\<rparr>
      else rbind (cr_signatures rpc before) (\<lambda>sigInfos.
        if sigInfos = []
        then Inr \<lparr>wr_entries = entries, wr_oldestSignatureWalked = oldest, wr_reachedRealEnd = False,
                  wr_reachedKnownSignature = False\<rparr>
        else rbind (walk_page env rpc stop sigInfos entries oldest) (\<lambda>(entries', oldest', known).
          if known
          then Inr \<lparr>wr_entries = entries', wr_oldestSignatureWalked = oldest', wr_reachedRealEnd = False,
                    wr_reachedKnownSignature = True\<rparr>
          else if length sigInfos < ACTIVITY_SIGNATURES_PER_PAGE
          then Inr \<lparr>wr_entries = entries', wr_oldestSignatureWalked = oldest', wr_reachedRealEnd = True,
                    wr_reachedKnownSignature = False\<rparr>
          else walk_pages env rpc stop n (Some (si_signature (last sigInfos))) entries' oldest')))"

record walk_options =
  wo_before :: "string option"
  wo_maxPages :: "nat option"
  wo_stopAtSignature :: "string option"

definition fetchReserveActivityLog ::
  "'l walk_env \<Rightarrow> 'l chain_rpc \<Rightarrow> walk_options \<Rightarrow> activity_error + walk_result" where
  "fetchReserveActivityLog env rpc options =
     walk_pages env rpc (wo_stopAtSignature options)
       (case wo_maxPages options of Some n \<Rightarrow> n | None \<Rightarrow> ACTIVITY_DEFAULT_MAX_PAGES) (wo_before options) [] None"

section \<open>The cursor\<close>

record cursor_state =
  cs_newest :: "string option"
  cs_oldest :: "string option"
  cs_complete :: bool

record cursor_update =
  \<comment> \<open>\<open>None\<close> is \<open>undefined\<close>: the field is left alone\<close>
  cu_newest :: "string option option"
  cu_oldest :: "string option option"
  cu_complete :: "bool option"

record top_up =
  tu_newestSignature :: "string option"
  tu_oldestSignatureWalked :: "string option"
  tu_reachedRealEnd :: bool
  tu_reachedKnownSignature :: bool

definition or_else :: "'a option \<Rightarrow> 'a option \<Rightarrow> 'a option" where
  \<comment> \<open>\<open>a ?? b\<close>, and SQL's \<open>coalesce(a, b)\<close>\<close>
  "or_else a b = (case a of Some x \<Rightarrow> Some x | None \<Rightarrow> b)"

definition computeTopUpCursorUpdate :: "cursor_state option \<Rightarrow> top_up \<Rightarrow> cursor_update" where
  "computeTopUpCursorUpdate before t =
     (let update = \<lparr>cu_newest = Some (or_else (tu_newestSignature t) (case before of Some c \<Rightarrow> cs_newest c | None \<Rightarrow> None)),
                    cu_oldest = (if before = None then Some (tu_oldestSignatureWalked t) else None),
                    cu_complete = None\<rparr> in
      if tu_reachedRealEnd t
      then update\<lparr>cu_oldest := Some (tu_oldestSignatureWalked t), cu_complete := Some True\<rparr>
      else if before \<noteq> None \<and> \<not> tu_reachedKnownSignature t \<and> tu_oldestSignatureWalked t \<noteq> None
             \<and> tu_oldestSignatureWalked t \<noteq> Some []
      then update\<lparr>cu_oldest := Some (tu_oldestSignatureWalked t), cu_complete := Some False\<rparr>
      else update)"

definition computeBackfillCursorUpdate :: "cursor_state \<Rightarrow> string option \<Rightarrow> bool \<Rightarrow> cursor_update" where
  "computeBackfillCursorUpdate after oldestSignatureWalked reachedRealEnd =
     \<lparr>cu_newest = None,
      cu_oldest = (case or_else oldestSignatureWalked (cs_oldest after) of Some s \<Rightarrow> Some (Some s) | None \<Rightarrow> None),
      cu_complete = (if reachedRealEnd then Some True else None)\<rparr>"

section \<open>The store and the synchronisation\<close>

type_synonym row_key = "string \<times> string \<times> nat"
  \<comment> \<open>signature, kind, event index: with the Reserve, the table's unique key\<close>

record 'c activity_db =
  db_rows :: "(row_key \<times> ('c \<times> activity_entry)) list"
  db_cursor :: "('c \<times> cursor_state) option"

definition getCursor :: "'c \<Rightarrow> 'c activity_db \<Rightarrow> 'c activity_db \<times> cursor_state option" where
  "getCursor cluster db =
     (case db_cursor db of
        None \<Rightarrow> (db, None)
      | Some (cl, c) \<Rightarrow>
          if cl \<noteq> cluster
          then (db\<lparr>db_rows := filter (\<lambda>(k, cl', e). cl' = cluster) (db_rows db), db_cursor := None\<rparr>, None)
          else (db, Some c))"

definition key_of :: "activity_entry \<Rightarrow> row_key" where
  "key_of e = (en_signature e, en_kind e, en_eventIndex e)"

definition upsert_entry :: "'c \<Rightarrow> (row_key \<times> ('c \<times> activity_entry)) list \<Rightarrow> activity_entry \<Rightarrow> (row_key \<times> ('c \<times> activity_entry)) list" where
  "upsert_entry cluster rows e =
     (case dget rows (key_of e) of
        None \<Rightarrow> dput (key_of e) (cluster, e) rows
      | Some (cl, r) \<Rightarrow>
          dput (key_of e) (cl, r\<lparr>en_amountUsd := or_else (en_amountUsd r) (en_amountUsd e),
                                 en_amountUsd2 := or_else (en_amountUsd2 r) (en_amountUsd2 e),
                                 en_payouts := or_else (en_payouts r) (en_payouts e)\<rparr>) rows)"

definition upsertEntries :: "'c \<Rightarrow> activity_entry list \<Rightarrow> 'c activity_db \<Rightarrow> 'c activity_db" where
  "upsertEntries cluster entries db = db\<lparr>db_rows := foldl (upsert_entry cluster) (db_rows db) entries\<rparr>"

definition written :: "'a option option \<Rightarrow> 'a option" where
  \<comment> \<open>\<open>field ?? null\<close>\<close>
  "written u = (case u of Some v \<Rightarrow> v | None \<Rightarrow> None)"

definition upsertCursor :: "'c \<Rightarrow> cursor_update \<Rightarrow> 'c activity_db \<Rightarrow> 'c activity_db" where
  "upsertCursor cluster u db =
     (let newest = written (cu_newest u); oldest = written (cu_oldest u) in
      db\<lparr>db_cursor := Some (cluster,
        case db_cursor db of
          None \<Rightarrow> \<lparr>cs_newest = newest, cs_oldest = oldest,
                   cs_complete = (case cu_complete u of Some b \<Rightarrow> b | None \<Rightarrow> False)\<rparr>
        | Some (cl, c) \<Rightarrow> \<lparr>cs_newest = or_else newest (cs_newest c), cs_oldest = or_else oldest (cs_oldest c),
                           cs_complete = (case cu_complete u of Some b \<Rightarrow> b | None \<Rightarrow> cs_complete c)\<rparr>)\<rparr>)"

definition BACKFILL_MAX_PAGES_PER_STEP :: nat where "BACKFILL_MAX_PAGES_PER_STEP = 2"
definition TOP_UP_MAX_PAGES :: nat where "TOP_UP_MAX_PAGES = 4"

definition top_up_walk :: "'l walk_env \<Rightarrow> 'l chain_rpc \<Rightarrow> cursor_state option \<Rightarrow> activity_error + walk_result" where
  "top_up_walk env rpc before =
     fetchReserveActivityLog env rpc \<lparr>wo_before = None, wo_maxPages = Some TOP_UP_MAX_PAGES,
       wo_stopAtSignature = (case before of Some c \<Rightarrow> cs_newest c | None \<Rightarrow> None)\<rparr>"

definition backfill_walk :: "'l walk_env \<Rightarrow> 'l chain_rpc \<Rightarrow> cursor_state \<Rightarrow> activity_error + walk_result" where
  "backfill_walk env rpc after =
     fetchReserveActivityLog env rpc \<lparr>wo_before = cs_oldest after, wo_maxPages = Some BACKFILL_MAX_PAGES_PER_STEP,
       wo_stopAtSignature = None\<rparr>"

definition store_top_up :: "'c \<Rightarrow> cursor_state option \<Rightarrow> walk_result \<Rightarrow> 'c activity_db \<Rightarrow> 'c activity_db" where
  "store_top_up cluster before r db =
     upsertCursor cluster
       (computeTopUpCursorUpdate before
          \<lparr>tu_newestSignature = (case wr_entries r of [] \<Rightarrow> None | e # _ \<Rightarrow> Some (en_signature e)),
           tu_oldestSignatureWalked = wr_oldestSignatureWalked r, tu_reachedRealEnd = wr_reachedRealEnd r,
           tu_reachedKnownSignature = wr_reachedKnownSignature r\<rparr>)
       (upsertEntries cluster (wr_entries r) db)"

definition store_backfill :: "'c \<Rightarrow> cursor_state \<Rightarrow> walk_result \<Rightarrow> 'c activity_db \<Rightarrow> 'c activity_db" where
  "store_backfill cluster after r db =
     upsertCursor cluster (computeBackfillCursorUpdate after (wr_oldestSignatureWalked r) (wr_reachedRealEnd r))
       (upsertEntries cluster (wr_entries r) db)"

definition backfill_step ::
  "'l walk_env \<Rightarrow> 'l chain_rpc \<Rightarrow> 'c \<Rightarrow> 'c activity_db \<Rightarrow> 'c activity_db \<times> activity_error option" where
  "backfill_step env rpc cluster db =
     (case getCursor cluster db of (db', cursor) \<Rightarrow>
      case cursor of
        None \<Rightarrow> (db', None)
      | Some after \<Rightarrow>
          if cs_complete after then (db', None)
          else (case backfill_walk env rpc after of
                  Inl e \<Rightarrow> (db', Some e)
                | Inr r \<Rightarrow> (store_backfill cluster after r db', None)))"

definition syncReserveActivity ::
  "'l walk_env \<Rightarrow> 'l chain_rpc \<Rightarrow> 'l chain_rpc \<Rightarrow> 'c \<Rightarrow> 'c activity_db \<Rightarrow> 'c activity_db \<times> activity_error option" where
  \<comment> \<open>the RPC as the top-up and as the backfill find it; the result has the \<open>syncError\<close>\<close>
  "syncReserveActivity env rpc rpc' cluster db =
     (case getCursor cluster db of (db1, before) \<Rightarrow>
      case top_up_walk env rpc before of
        Inl e \<Rightarrow> (db1, Some e)
      | Inr r \<Rightarrow> backfill_step env rpc' cluster (store_top_up cluster before r db1))"

end
