(* ===== verification/Index_Coverage.thy ===== *)
theory Index_Coverage
  imports Activity_Index
begin

text \<open>
  What the index of a Reserve's activity promises: between the newest and the oldest
  signature of the cursor, and down to the first transaction once the cursor says the
  backfill is complete, no event is missing, whatever the order of top-ups, backfills and
  new transactions, as long as no walk meets its cap of 100 entries. The last section shows
  what the cap, and a history of whole pages, do to that promise. A transaction whose logs
  the RPC does not have counts as one without events, as the code treats it.
\<close>

section \<open>What the index promises\<close>

type_synonym chain = "sig_info list"
  \<comment> \<open>the transactions that name the Reserve, newest first\<close>

definition older :: "string option \<Rightarrow> chain \<Rightarrow> chain" where
  "older before chain = (case before of None \<Rightarrow> chain | Some b \<Rightarrow> tl (dropWhile (\<lambda>s. si_signature s \<noteq> b) chain))"

definition upto_sig :: "string \<Rightarrow> chain \<Rightarrow> chain" where
  \<comment> \<open>from the newest down to the signature, which is included\<close>
  "upto_sig b chain = takeWhile (\<lambda>s. si_signature s \<noteq> b) chain @ take 1 (dropWhile (\<lambda>s. si_signature s \<noteq> b) chain)"

definition from_sig :: "string \<Rightarrow> chain \<Rightarrow> chain" where
  "from_sig b chain = dropWhile (\<lambda>s. si_signature s \<noteq> b) chain"

definition serves :: "chain \<Rightarrow> (string \<Rightarrow> 'l option) \<Rightarrow> 'l chain_rpc \<Rightarrow> bool" where
  \<comment> \<open>the documented answers of the RPC, when it answers\<close>
  "serves chain logs rpc \<longleftrightarrow>
     (\<forall>before sis. cr_signatures rpc before = Inr sis \<longrightarrow> sis = take ACTIVITY_SIGNATURES_PER_PAGE (older before chain)) \<and>
     (\<forall>s l. cr_logs rpc s = Inr l \<longrightarrow> l = logs s)"

fun event_keys :: "(number \<Rightarrow> string) \<Rightarrow> string \<Rightarrow> anchor_event list \<Rightarrow> (string \<times> nat) list \<Rightarrow> row_key list" where
  \<comment> \<open>the rows the events of one transaction make\<close>
  "event_keys ld s [] ords = []"
| "event_keys ld s (e # es) ords =
     (case summarizeActivityEvent ld (ev_name e) (ev_data e) of
        Inr (Some _) \<Rightarrow> (s, ev_name e, ordinal_of ords (ev_name e))
                       # event_keys ld s es (dput (ev_name e) (ordinal_of ords (ev_name e) + 1) ords)
      | _ \<Rightarrow> event_keys ld s es ords)"

definition tx_keys :: "'l walk_env \<Rightarrow> (string \<Rightarrow> 'l option) \<Rightarrow> sig_info \<Rightarrow> row_key list" where
  "tx_keys env logs si =
     (if si_err si then []
      else case logs (si_signature si) of
             None \<Rightarrow> []
           | Some l \<Rightarrow> event_keys (we_localeDate env) (si_signature si) (we_parseLogs env l) [])"

definition keys_of :: "activity_entry list \<Rightarrow> row_key set" where
  "keys_of es = key_of ` set es"

lemma keys_of_append [simp]: "keys_of (xs @ ys) = keys_of xs \<union> keys_of ys"
  by (auto simp: keys_of_def)

lemma push_events_result:
  "push_events env si evs ords entries = Inr entries' \<Longrightarrow>
   \<exists>new. entries' = entries @ new \<and> (\<forall>e \<in> set new. en_signature e = si_signature si) \<and>
     (length entries' < ACTIVITY_MAX_ENTRIES \<longrightarrow>
        map key_of new = event_keys (we_localeDate env) (si_signature si) evs ords)"
proof (induction evs arbitrary: ords entries)
  case Nil
  then show ?case by simp
next
  case (Cons e es)
  obtain d where d: "summarizeActivityEvent (we_localeDate env) (ev_name e) (ev_data e) = Inr d"
    using Cons(2) by (auto simp: rbind_Inr_iff)
  show ?case
  proof (cases d)
    case None
    then show ?thesis using Cons(1) [of ords entries] Cons(2) d by simp
  next
    case (Some s)
    obtain ts usd where t: "event_ts si (ev_data e) = Inr ts" "event_value env e = Inr usd"
      using Cons(2) d Some by (auto simp: rbind_Inr_iff)
    let ?i = "ordinal_of ords (ev_name e)"
    let ?x = "entry_of si e s ?i ts usd"
    have x: "en_signature ?x = si_signature si" "key_of ?x = (si_signature si, ev_name e, ?i)"
      by (simp_all add: key_of_def entry_of_def)
    show ?thesis
    proof (cases "ACTIVITY_MAX_ENTRIES \<le> length (entries @ [?x])")
      case True
      then have "entries' = entries @ [?x]" using Cons(2) d Some t by (simp add: Let_def)
      then show ?thesis using x True by auto
    next
      case False
      then have "push_events env si es (dput (ev_name e) (?i + 1) ords) (entries @ [?x]) = Inr entries'"
        using Cons(2) d Some t by (simp add: Let_def)
      from Cons(1) [OF this] obtain new where "entries' = (entries @ [?x]) @ new"
        "\<forall>e \<in> set new. en_signature e = si_signature si"
        "length entries' < ACTIVITY_MAX_ENTRIES \<longrightarrow>
           map key_of new = event_keys (we_localeDate env) (si_signature si) es (dput (ev_name e) (?i + 1) ords)"
        by blast
      then show ?thesis using x d Some by (intro exI [of _ "?x # new"]) simp
    qed
  qed
qed

lemma walk_page_result:
  assumes "serves chain logs rpc"
    and "walk_page env rpc stop sis entries oldest = Inr (entries', oldest', known)"
    and "length entries' < ACTIVITY_MAX_ENTRIES"
  shows "\<exists>walked rest new. sis = walked @ rest \<and> entries' = entries @ new \<and>
     (\<forall>e \<in> set new. en_signature e \<in> si_signature ` set walked) \<and>
     (\<forall>s \<in> set walked. set (tx_keys env logs s) \<subseteq> keys_of new) \<and>
     oldest' = (if walked = [] then oldest else Some (si_signature (last walked))) \<and>
     (known \<longrightarrow> rest \<noteq> [] \<and> stop = Some (si_signature (hd rest))) \<and> (\<not> known \<longrightarrow> rest = [])"
  using assms(2)
proof (induction sis arbitrary: entries oldest)
  case Nil
  then show ?case by (auto intro!: exI [of _ "[]"])
next
  case (Cons si sis)
  show ?case
  proof (cases "is_stop stop si")
    case True
    then have "entries' = entries" "oldest' = oldest" "known" using Cons(2) by simp_all
    then show ?thesis using True by (intro exI [of _ "[]"] exI [of _ "si # sis"]) (auto simp: is_stop_def)
  next
    case False
    have step: "\<exists>entries1 new1. entries1 = entries @ new1 \<and> (\<forall>e \<in> set new1. en_signature e = si_signature si) \<and>
        set (tx_keys env logs si) \<subseteq> keys_of new1 \<and>
        walk_page env rpc stop sis entries1 (Some (si_signature si)) = Inr (entries', oldest', known)"
    proof (cases "si_err si")
      case True
      then show ?thesis using Cons(2) False by (intro exI [of _ entries] exI [of _ "[]"]) (simp add: tx_keys_def keys_of_def)
    next
      case ok: False
      obtain a where a: "cr_logs rpc (si_signature si) = Inr a" using Cons(2) False ok by (auto simp: rbind_Inr_iff)
      then have la: "logs (si_signature si) = a" using assms(1) by (simp add: serves_def)
      show ?thesis
      proof (cases a)
        case None
        then show ?thesis using Cons(2) False ok a la
          by (intro exI [of _ entries] exI [of _ "[]"]) (simp add: tx_keys_def keys_of_def)
      next
        case (Some l)
        obtain e1 where e1: "push_events env si (we_parseLogs env l) [] entries = Inr e1"
          using Cons(2) False ok a Some by (auto simp: rbind_Inr_iff)
        have short: "\<not> ACTIVITY_MAX_ENTRIES \<le> length e1"
          using Cons(2) False ok a Some e1 assms(3) by auto
        have "walk_page env rpc stop sis e1 (Some (si_signature si)) = Inr (entries', oldest', known)"
          using Cons(2) False ok a Some e1 short by simp
        moreover obtain new where n: "e1 = entries @ new" "\<forall>e \<in> set new. en_signature e = si_signature si"
          "map key_of new = event_keys (we_localeDate env) (si_signature si) (we_parseLogs env l) []"
          using push_events_result [OF e1] short by auto
        moreover have "tx_keys env logs si = map key_of new" using ok la Some n(3) by (simp add: tx_keys_def)
        then have "set (tx_keys env logs si) \<subseteq> keys_of new" by (simp add: keys_of_def)
        ultimately show ?thesis by blast
      qed
    qed
    then obtain new1 where s1: "\<forall>e \<in> set new1. en_signature e = si_signature si"
      "set (tx_keys env logs si) \<subseteq> keys_of new1"
      and w: "walk_page env rpc stop sis (entries @ new1) (Some (si_signature si)) = Inr (entries', oldest', known)"
      by blast
    obtain walked rest new where r: "sis = walked @ rest" "entries' = (entries @ new1) @ new"
      "\<forall>e \<in> set new. en_signature e \<in> si_signature ` set walked"
      "\<forall>s \<in> set walked. set (tx_keys env logs s) \<subseteq> keys_of new"
      "oldest' = (if walked = [] then Some (si_signature si) else Some (si_signature (last walked)))"
      "known \<longrightarrow> rest \<noteq> [] \<and> stop = Some (si_signature (hd rest))" "\<not> known \<longrightarrow> rest = []"
      using Cons(1) [OF w] by blast
    show ?thesis
      by (rule exI [of _ "si # walked"], rule exI [of _ rest], rule exI [of _ "new1 @ new"])
        (use r s1 in \<open>simp split: if_splits; blast\<close>)
  qed
qed

lemma older_after: "distinct (map si_signature (w @ r)) \<Longrightarrow> w \<noteq> [] \<Longrightarrow> older (Some (si_signature (last w))) (w @ r) = r"
proof (induction w)
  case (Cons x w)
  then show ?case by (cases "w = []") (auto simp: older_def)
qed simp

lemma older_suffix: "\<exists>pre. chain = pre @ older before chain"
proof (cases before)
  case None
  then show ?thesis by (simp add: older_def)
next
  case (Some b)
  let ?d = "dropWhile (\<lambda>s. si_signature s \<noteq> b) chain"
  have "chain = takeWhile (\<lambda>s. si_signature s \<noteq> b) chain @ ?d" by simp
  also have "?d = take 1 ?d @ tl ?d" using take_Suc [of ?d 0] by (metis One_nat_def append_Nil append_take_drop_id drop_Suc drop0)
  finally have "chain = (takeWhile (\<lambda>s. si_signature s \<noteq> b) chain @ take 1 ?d) @ older before chain"
    using Some by (simp add: older_def)
  then show ?thesis by blast
qed

lemma older_next_page:
  assumes "distinct (map si_signature chain)" and "older before chain = page @ r" and "page \<noteq> []"
  shows "older (Some (si_signature (last page))) chain = r"
proof -
  obtain pre where "chain = pre @ older before chain" using older_suffix by blast
  then have c: "chain = (pre @ page) @ r" using assms(2) by simp
  then show ?thesis using older_after [of "pre @ page" r] assms(1,3) by simp
qed

lemma walk_pages_result:
  assumes "serves chain logs rpc" and "distinct (map si_signature chain)"
    and "walk_pages env rpc stop n before entries oldest = Inr r"
    and "length (wr_entries r) < ACTIVITY_MAX_ENTRIES"
  shows "\<exists>walked rest new. older before chain = walked @ rest \<and> wr_entries r = entries @ new \<and>
     (\<forall>e \<in> set new. en_signature e \<in> si_signature ` set walked) \<and>
     (\<forall>s \<in> set walked. set (tx_keys env logs s) \<subseteq> keys_of new) \<and>
     wr_oldestSignatureWalked r = (if walked = [] then oldest else Some (si_signature (last walked))) \<and>
     (wr_reachedKnownSignature r \<longrightarrow> rest \<noteq> [] \<and> stop = Some (si_signature (hd rest))) \<and>
     (wr_reachedRealEnd r \<longrightarrow> rest = [] \<and> \<not> wr_reachedKnownSignature r)"
  using assms(3,4)
proof (induction n arbitrary: before entries oldest)
  case 0
  then show ?case by (auto intro!: exI [of _ "[]"])
next
  case (Suc n)
  show ?case
  proof (cases "ACTIVITY_MAX_ENTRIES \<le> length entries")
    case True
    then have "Inr r = (Inr \<lparr>wr_entries = entries, wr_oldestSignatureWalked = oldest, wr_reachedRealEnd = False,
      wr_reachedKnownSignature = False\<rparr> :: activity_error + walk_result)" using Suc(2) by simp
    then show ?thesis using Suc(3) True by simp
  next
    case False
    obtain sis where sis: "cr_signatures rpc before = Inr sis" using Suc(2) False by (auto simp: rbind_Inr_iff)
    then have tk: "sis = take ACTIVITY_SIGNATURES_PER_PAGE (older before chain)" using assms(1) by (simp add: serves_def)
    show ?thesis
    proof (cases "sis = []")
      case True
      then have "r = \<lparr>wr_entries = entries, wr_oldestSignatureWalked = oldest, wr_reachedRealEnd = False,
                  wr_reachedKnownSignature = False\<rparr>" using Suc(2) False sis by simp
      then show ?thesis by (intro exI [of _ "[]"] exI [of _ "older before chain"]) simp
    next
      case some: False
      obtain es1 old1 known where pg: "walk_page env rpc stop sis entries oldest = Inr (es1, old1, known)"
        using Suc(2) False sis some by (auto simp: rbind_Inr_iff)
      let ?page = "older before chain"
      have split: "?page = sis @ drop ACTIVITY_SIGNATURES_PER_PAGE ?page" using tk by simp
      show ?thesis
      proof (cases "known \<or> length sis < ACTIVITY_SIGNATURES_PER_PAGE")
        case True
        then have r: "r = \<lparr>wr_entries = es1, wr_oldestSignatureWalked = old1, wr_reachedRealEnd = (\<not> known),
            wr_reachedKnownSignature = known\<rparr>"
          using Suc(2) False sis some pg by (auto split: if_splits)
        have whole: "?page = sis" if "\<not> known" using True that tk by simp
        obtain walked rest new where w: "sis = walked @ rest" "es1 = entries @ new"
          "\<forall>e \<in> set new. en_signature e \<in> si_signature ` set walked"
          "\<forall>s \<in> set walked. set (tx_keys env logs s) \<subseteq> keys_of new"
          "old1 = (if walked = [] then oldest else Some (si_signature (last walked)))"
          "known \<longrightarrow> rest \<noteq> [] \<and> stop = Some (si_signature (hd rest))" "\<not> known \<longrightarrow> rest = []"
          using walk_page_result [OF assms(1) pg] Suc(3) r by auto
        show ?thesis
        proof (cases known)
          case True
          then show ?thesis using w r split
            by (intro exI [of _ walked] exI [of _ "rest @ drop ACTIVITY_SIGNATURES_PER_PAGE ?page"] exI [of _ new]) simp
        next
          case False
          then show ?thesis using w r whole by (intro exI [of _ walked] exI [of _ rest] exI [of _ new]) simp
        qed
      next
        case full: False
        then have again: "walk_pages env rpc stop n (Some (si_signature (last sis))) es1 old1 = Inr r"
          using Suc(2) False sis some pg by auto
        have nxt: "older (Some (si_signature (last sis))) chain = drop ACTIVITY_SIGNATURES_PER_PAGE ?page"
          by (rule older_next_page [OF assms(2) split some])
        obtain walked2 rest2 new2 where i: "drop ACTIVITY_SIGNATURES_PER_PAGE ?page = walked2 @ rest2"
          "wr_entries r = es1 @ new2"
          "\<forall>e \<in> set new2. en_signature e \<in> si_signature ` set walked2"
          "\<forall>s \<in> set walked2. set (tx_keys env logs s) \<subseteq> keys_of new2"
          "wr_oldestSignatureWalked r = (if walked2 = [] then old1 else Some (si_signature (last walked2)))"
          "wr_reachedKnownSignature r \<longrightarrow> rest2 \<noteq> [] \<and> stop = Some (si_signature (hd rest2))"
          "wr_reachedRealEnd r \<longrightarrow> rest2 = [] \<and> \<not> wr_reachedKnownSignature r"
          using Suc(1) [OF again Suc(3)] nxt by auto
        obtain new1 where w: "es1 = entries @ new1"
          "\<forall>e \<in> set new1. en_signature e \<in> si_signature ` set sis"
          "\<forall>s \<in> set sis. set (tx_keys env logs s) \<subseteq> keys_of new1"
          "old1 = (if sis = [] then oldest else Some (si_signature (last sis)))"
          using walk_page_result [OF assms(1) pg] Suc(3) i(2) full by auto
        show ?thesis
          by (rule exI [of _ "sis @ walked2"], rule exI [of _ rest2], rule exI [of _ "new1 @ new2"])
            (use split i w some in \<open>auto; blast\<close>)
      qed
    qed
  qed
qed

definition region :: "cursor_state \<Rightarrow> chain \<Rightarrow> chain" where
  \<comment> \<open>what the cursor claims: from the newest indexed signature down to the oldest, or to the end\<close>
  "region c chain =
     (case cs_newest c of
        None \<Rightarrow> []
      | Some n \<Rightarrow> from_sig n (if cs_complete c then chain
                              else case cs_oldest c of None \<Rightarrow> [] | Some old \<Rightarrow> upto_sig old chain))"

definition recorded :: "'c activity_db \<Rightarrow> row_key list \<Rightarrow> bool" where
  "recorded db ks \<longleftrightarrow> set ks \<subseteq> set (dkeys (db_rows db))"

definition chain_ok :: "chain \<Rightarrow> bool" where
  "chain_ok chain \<longleftrightarrow> distinct (map si_signature chain) \<and> [] \<notin> si_signature ` set chain"

definition cursor_ok :: "cursor_state \<Rightarrow> chain \<Rightarrow> bool" where
  "cursor_ok c chain \<longleftrightarrow>
     (\<forall>n. cs_newest c = Some n \<longrightarrow> n \<in> si_signature ` set chain \<and> cs_oldest c \<noteq> None) \<and>
     (\<forall>old. cs_oldest c = Some old \<longrightarrow> old \<in> si_signature ` set chain)"

definition all_covered :: "'l walk_env \<Rightarrow> (string \<Rightarrow> 'l option) \<Rightarrow> 'c activity_db \<Rightarrow> cursor_state \<Rightarrow> chain \<Rightarrow> bool" where
  "all_covered env logs db c chain \<longleftrightarrow> cursor_ok c chain \<and> (\<forall>s \<in> set (region c chain). recorded db (tx_keys env logs s))"

lemma dkeys_upserts: "set (dkeys (foldl (upsert_entry cl) rows es)) = set (dkeys rows) \<union> keys_of es"
proof (induction es arbitrary: rows)
  case (Cons e es)
  have "set (dkeys (upsert_entry cl rows e)) = insert (key_of e) (set (dkeys rows))"
    by (auto simp: upsert_entry_def od.keys_put split: option.split)
  then show ?case using Cons by (auto simp: keys_of_def)
qed (simp add: keys_of_def)

lemma recorded_upserts: "recorded (upsertCursor cl u (upsertEntries cl es db)) ks \<longleftrightarrow> set ks \<subseteq> set (dkeys (db_rows db)) \<union> keys_of es"
  by (simp add: recorded_def upsertCursor_def upsertEntries_def Let_def dkeys_upserts)

lemma upto_sig_last: "distinct (map si_signature (w @ r)) \<Longrightarrow> w \<noteq> [] \<Longrightarrow> upto_sig (si_signature (last w)) (w @ r) = w"
proof (induction w)
  case (Cons x w)
  then show ?case by (cases "w = []") (auto simp: upto_sig_def)
qed simp

lemma upto_sig_split:
  assumes "old \<in> si_signature ` set chain"
  shows "chain = upto_sig old chain @ older (Some old) chain"
  using assms by (induction chain) (auto simp: upto_sig_def older_def)

lemma upto_sig_append: "old \<notin> si_signature ` set new \<Longrightarrow> upto_sig old (new @ chain) = new @ upto_sig old chain"
  by (induction new) (auto simp: upto_sig_def)

lemma from_sig_append: "n \<notin> si_signature ` set new \<Longrightarrow> from_sig n (new @ chain) = from_sig n chain"
  by (induction new) (auto simp: from_sig_def)

lemma set_from_sig_append: "set (from_sig n (u @ w)) \<subseteq> set (from_sig n u) \<union> set w"
  by (induction u) (auto simp: from_sig_def dest: set_dropWhileD)

lemma set_from_sig: "set (from_sig n xs) \<subseteq> set xs"
  by (auto simp: from_sig_def dest: set_dropWhileD)

lemma below_known:
  assumes "chain = w @ k # r" and "chain = x @ y"
  shows "set x \<subseteq> set w \<union> set (from_sig (si_signature k) x)"
proof
  fix s assume s: "s \<in> set x"
  let ?P = "\<lambda>s. si_signature s \<noteq> si_signature k"
  have "s \<in> set (takeWhile ?P x) \<or> s \<in> set (from_sig (si_signature k) x)"
    using s unfolding from_sig_def by (metis Un_iff set_append takeWhile_dropWhile_id)
  moreover have "set (takeWhile ?P x) \<subseteq> set (takeWhile ?P (x @ y))"
    by (metis set_append set_takeWhileD subsetI takeWhile_append1 takeWhile_append2 takeWhile_eq_all_conv Un_iff)
  moreover have "set (takeWhile ?P (w @ k # r)) \<subseteq> set w"
    by (induction w) auto
  ultimately show "s \<in> set w \<union> set (from_sig (si_signature k) x)" using assms by auto
qed

lemma region_grows:
  assumes "cursor_ok c chain" and "distinct (map si_signature (new @ chain))"
  shows "region c (new @ chain) = region c chain"
proof (cases "cs_newest c")
  case None
  then show ?thesis by (simp add: region_def)
next
  case (Some n)
  obtain old where old: "cs_oldest c = Some old" using assms(1) Some by (auto simp: cursor_ok_def)
  have "n \<notin> si_signature ` set new" "old \<notin> si_signature ` set new"
    using assms Some old by (auto simp: cursor_ok_def)
  then show ?thesis using Some old by (simp add: region_def from_sig_append upto_sig_append)
qed

lemma all_covered_grows:
  "all_covered env logs db c chain \<Longrightarrow> distinct (map si_signature (new @ chain)) \<Longrightarrow> all_covered env logs db c (new @ chain)"
  using region_grows [of c chain new] by (fastforce simp: all_covered_def cursor_ok_def)

lemma all_coveredI:
  assumes "\<And>n. cs_newest c = Some n \<Longrightarrow> n \<in> si_signature ` set chain \<and> cs_oldest c \<noteq> None"
    and "\<And>old. cs_oldest c = Some old \<Longrightarrow> old \<in> si_signature ` set chain"
    and "\<And>s. s \<in> set (region c chain) \<Longrightarrow> recorded db (tx_keys env logs s)"
  shows "all_covered env logs db c chain"
  using assms by (simp add: all_covered_def cursor_ok_def)

lemma set_region:
  "cs_newest c = Some n \<Longrightarrow> set (region c chain) \<subseteq>
     set (if cs_complete c then chain else case cs_oldest c of None \<Rightarrow> [] | Some old \<Rightarrow> upto_sig old chain)"
  by (simp add: region_def set_from_sig)

lemma recorded_keep: "recorded db ks \<Longrightarrow> recorded (upsertCursor cl u (upsertEntries cl es db)) ks"
  unfolding recorded_upserts by (auto simp: recorded_def)

definition entries_newest :: "walk_result \<Rightarrow> string option" where
  "entries_newest r = (case wr_entries r of [] \<Rightarrow> None | e # _ \<Rightarrow> Some (en_signature e))"

definition topped_up :: "cursor_state option \<Rightarrow> walk_result \<Rightarrow> cursor_state" where
  \<comment> \<open>the cursor after a top-up\<close>
  "topped_up before r =
     (let newest = or_else (entries_newest r) (case before of Some c \<Rightarrow> cs_newest c | None \<Rightarrow> None);
          oldest = wr_oldestSignatureWalked r; moved = (oldest \<noteq> None \<and> oldest \<noteq> Some []) in
      case before of
        None \<Rightarrow> \<lparr>cs_newest = newest, cs_oldest = oldest, cs_complete = wr_reachedRealEnd r\<rparr>
      | Some c \<Rightarrow>
          \<lparr>cs_newest = newest,
           cs_oldest = (if wr_reachedRealEnd r \<or> (\<not> wr_reachedKnownSignature r \<and> moved) then or_else oldest (cs_oldest c)
                        else cs_oldest c),
           cs_complete = (if wr_reachedRealEnd r then True
                          else if \<not> wr_reachedKnownSignature r \<and> moved then False else cs_complete c)\<rparr>)"

lemma store_top_up_cursor:
  "db_cursor db = map_option (Pair cl) before \<Longrightarrow>
   db_cursor (store_top_up cl before r db) = Some (cl, topped_up before r)"
  by (cases before)
    (auto simp: store_top_up_def upsertCursor_def upsertEntries_def computeTopUpCursorUpdate_def topped_up_def
       entries_newest_def written_def or_else_def Let_def split: option.splits list.splits)

lemma top_up_covers:
  assumes rpc: "serves chain logs rpc" and ok: "chain_ok chain"
    and walk: "top_up_walk env rpc before = Inr r" and short: "length (wr_entries r) < ACTIVITY_MAX_ENTRIES"
    and prior: "\<And>c. before = Some c \<Longrightarrow> all_covered env logs db c chain"
  shows "all_covered env logs (store_top_up cl before r db) (topped_up before r) chain"
proof -
  let ?db = "store_top_up cl before r db" and ?c = "topped_up before r"
  have dist: "distinct (map si_signature chain)" using ok by (simp add: chain_ok_def)
  obtain w rest where w: "chain = w @ rest"
    and sigs: "\<forall>e \<in> set (wr_entries r). en_signature e \<in> si_signature ` set w"
    and keys: "\<forall>s \<in> set w. set (tx_keys env logs s) \<subseteq> keys_of (wr_entries r)"
    and oldest: "wr_oldestSignatureWalked r = (if w = [] then None else Some (si_signature (last w)))"
    and known: "wr_reachedKnownSignature r \<longrightarrow> rest \<noteq> [] \<and>
      (case before of Some c \<Rightarrow> cs_newest c | None \<Rightarrow> None) = Some (si_signature (hd rest))"
    and ended: "wr_reachedRealEnd r \<longrightarrow> rest = [] \<and> \<not> wr_reachedKnownSignature r"
    using walk_pages_result [OF rpc dist walk [unfolded top_up_walk_def fetchReserveActivityLog_def] short]
    by (auto simp: older_def)
  have rec: "recorded ?db (tx_keys env logs s)" if "s \<in> set w" for s
    using keys that by (auto simp: store_top_up_def recorded_upserts)
  have keep: "recorded ?db ks" if "recorded db ks" for ks
    using that by (simp add: store_top_up_def recorded_keep)
  have last: "si_signature (last w) \<in> si_signature ` set chain \<and> si_signature (last w) \<noteq> []" if "w \<noteq> []"
  proof -
    have "si_signature (last w) \<in> si_signature ` set chain" using last_in_set [OF that] w by simp
    then show ?thesis using ok unfolding chain_ok_def by metis
  qed
  have new_sig: "n \<in> si_signature ` set chain \<and> w \<noteq> []" if "entries_newest r = Some n" for n
    using that sigs w by (auto simp: entries_newest_def split: list.splits)
  have upto: "upto_sig (si_signature (last w)) chain = w" if "w \<noteq> []"
    using upto_sig_last [of w rest] that w dist by simp
  have at_end: "chain = w" if "wr_reachedRealEnd r" using that ended w by simp
  show ?thesis
  proof (cases before)
    case None
    then have c: "?c = \<lparr>cs_newest = entries_newest r, cs_oldest = wr_oldestSignatureWalked r, cs_complete = wr_reachedRealEnd r\<rparr>"
      by (simp add: topped_up_def or_else_def Let_def split: option.split)
    show ?thesis
    proof (rule all_coveredI)
      fix s assume s: "s \<in> set (region ?c chain)"
      then obtain n where n: "entries_newest r = Some n" using c by (cases "entries_newest r") (simp_all add: region_def)
      have "s \<in> set w" using s set_region [of ?c n chain] c n new_sig [OF n] at_end upto oldest
        by (auto split: if_splits)
      then show "recorded ?db (tx_keys env logs s)" by (rule rec)
    qed (use c new_sig oldest last in \<open>auto split: if_splits\<close>)
  next
    case (Some c0)
    have cov: "all_covered env logs db c0 chain" using prior Some by simp
    then have in_chain: "\<And>n. cs_newest c0 = Some n \<Longrightarrow> n \<in> si_signature ` set chain \<and> cs_oldest c0 \<noteq> None"
      "\<And>old. cs_oldest c0 = Some old \<Longrightarrow> old \<in> si_signature ` set chain"
      and old_rec: "\<And>s. s \<in> set (region c0 chain) \<Longrightarrow> recorded db (tx_keys env logs s)"
      by (auto simp: all_covered_def cursor_ok_def)
    show ?thesis
    proof (rule all_coveredI)
      fix s assume s: "s \<in> set (region ?c chain)"
      obtain n where n: "cs_newest ?c = Some n" using s by (cases "cs_newest ?c") (simp_all add: region_def)
      have "s \<in> set w \<or> s \<in> set (region c0 chain)"
      proof (cases "wr_reachedRealEnd r")
        case True
        then have "cs_complete ?c" using Some by (simp add: topped_up_def Let_def)
        then show ?thesis using s set_region [OF n, of chain] at_end [OF True] by auto
      next
        case not_end: False
        show ?thesis
        proof (cases "wr_reachedKnownSignature r")
          case True
          let ?x = "if cs_complete c0 then chain else case cs_oldest c0 of None \<Rightarrow> [] | Some old \<Rightarrow> upto_sig old chain"
          have k: "cs_newest c0 = Some (si_signature (hd rest))" "chain = w @ hd rest # tl rest" using known True Some w by auto
          have "region ?c chain = from_sig n ?x" using n Some True not_end by (simp add: region_def topped_up_def Let_def)
          then have "s \<in> set ?x" using s set_from_sig by fastforce
          moreover have "\<exists>y. chain = ?x @ y"
          proof (cases "cs_complete c0")
            case False
            then show ?thesis using upto_sig_split in_chain(2) by (cases "cs_oldest c0") (simp, force)
          qed simp
          ultimately have "s \<in> set w \<union> set (from_sig (si_signature (hd rest)) ?x)" using below_known [OF k(2)] by blast
          then show ?thesis using k(1) by (simp add: region_def)
        next
          case unknown: False
          show ?thesis
          proof (cases "w = []")
            case True
            then have "entries_newest r = None" using new_sig by (cases "entries_newest r") auto
            then have "?c = c0" using Some True not_end oldest by (simp add: topped_up_def Let_def or_else_def)
            then show ?thesis using s by simp
          next
            case False
            then have "cs_oldest ?c = Some (si_signature (last w))" "\<not> cs_complete ?c"
              using Some not_end unknown oldest last by (simp_all add: topped_up_def Let_def or_else_def)
            then show ?thesis using s set_region [OF n, of chain] upto [OF False] by auto
          qed
        qed
      qed
      then show "recorded ?db (tx_keys env logs s)" using rec keep old_rec by blast
    next
      fix n assume "cs_newest ?c = Some n"
      then have n: "or_else (entries_newest r) (cs_newest c0) = Some n" using Some by (simp add: topped_up_def Let_def)
      have "n \<in> si_signature ` set chain" using n new_sig in_chain(1) by (auto simp: or_else_def split: option.splits)
      moreover have "cs_oldest ?c \<noteq> None"
      proof (cases "w = []")
        case True
        then have "entries_newest r = None" using new_sig by (cases "entries_newest r") auto
        then have "cs_oldest c0 \<noteq> None" using n in_chain(1) by (auto simp: or_else_def)
        then show ?thesis using Some by (auto simp: topped_up_def Let_def or_else_def split: option.split)
      next
        case False
        then show ?thesis using Some n new_sig in_chain(1) oldest last known
          by (auto simp: topped_up_def Let_def or_else_def split: option.splits)
      qed
      ultimately show "n \<in> si_signature ` set chain \<and> cs_oldest ?c \<noteq> None" by simp
    next
      fix old assume "cs_oldest ?c = Some old"
      then show "old \<in> si_signature ` set chain"
        using Some oldest last in_chain(2) by (auto simp: topped_up_def Let_def or_else_def split: if_splits option.splits)
    qed
  qed
qed

definition filled_back :: "cursor_state \<Rightarrow> walk_result \<Rightarrow> cursor_state" where
  \<comment> \<open>the cursor after a backfill\<close>
  "filled_back c r =
     \<lparr>cs_newest = cs_newest c, cs_oldest = or_else (wr_oldestSignatureWalked r) (cs_oldest c),
      cs_complete = (wr_reachedRealEnd r \<or> cs_complete c)\<rparr>"

lemma store_backfill_cursor:
  "db_cursor db = Some (cl, c) \<Longrightarrow> db_cursor (store_backfill cl c r db) = Some (cl, filled_back c r)"
  by (auto simp: store_backfill_def upsertCursor_def upsertEntries_def computeBackfillCursorUpdate_def filled_back_def
       written_def or_else_def Let_def split: option.splits)

lemma backfill_covers:
  assumes rpc: "serves chain logs rpc" and ok: "chain_ok chain"
    and walk: "backfill_walk env rpc c = Inr r" and short: "length (wr_entries r) < ACTIVITY_MAX_ENTRIES"
    and prior: "all_covered env logs db c chain" and incomplete: "\<not> cs_complete c"
  shows "all_covered env logs (store_backfill cl c r db) (filled_back c r) chain"
proof -
  let ?db = "store_backfill cl c r db" and ?c = "filled_back c r"
  have dist: "distinct (map si_signature chain)" using ok by (simp add: chain_ok_def)
  obtain w rest where w: "older (cs_oldest c) chain = w @ rest"
    and keys: "\<forall>s \<in> set w. set (tx_keys env logs s) \<subseteq> keys_of (wr_entries r)"
    and oldest: "wr_oldestSignatureWalked r = (if w = [] then None else Some (si_signature (last w)))"
    and ended: "wr_reachedRealEnd r \<longrightarrow> rest = []"
    using walk_pages_result [OF rpc dist walk [unfolded backfill_walk_def fetchReserveActivityLog_def] short]
    by auto
  have rec: "recorded ?db (tx_keys env logs s)" if "s \<in> set w" for s
    using keys that by (auto simp: store_backfill_def recorded_upserts)
  have keep: "recorded ?db ks" if "recorded db ks" for ks
    using that by (simp add: store_backfill_def recorded_keep)
  obtain pre where pre: "chain = pre @ older (cs_oldest c) chain" using older_suffix by blast
  then have last: "si_signature (last w) \<in> si_signature ` set chain" if "w \<noteq> []"
    using that w by (metis UnCI image_eqI last_in_set set_append)
  have in_chain: "\<And>n. cs_newest c = Some n \<Longrightarrow> n \<in> si_signature ` set chain \<and> cs_oldest c \<noteq> None"
    "\<And>old. cs_oldest c = Some old \<Longrightarrow> old \<in> si_signature ` set chain"
    and old_rec: "\<And>s. s \<in> set (region c chain) \<Longrightarrow> recorded db (tx_keys env logs s)"
    using prior by (auto simp: all_covered_def cursor_ok_def)
  show ?thesis
  proof (rule all_coveredI)
    fix s assume s: "s \<in> set (region ?c chain)"
    then obtain n where n: "cs_newest c = Some n" by (cases "cs_newest c") (simp_all add: region_def filled_back_def)
    obtain old where old: "cs_oldest c = Some old" using in_chain(1) [OF n] by blast
    let ?u = "upto_sig old chain"
    have chain: "chain = (?u @ w) @ rest" using upto_sig_split [OF in_chain(2) [OF old]] w old by simp
    have "region ?c chain = from_sig n (?u @ w)"
    proof (cases "wr_reachedRealEnd r")
      case True
      then show ?thesis using n chain ended by (simp add: region_def filled_back_def)
    next
      case False
      show ?thesis
      proof (cases "w = []")
        case True
        then show ?thesis using False n old oldest incomplete by (simp add: region_def filled_back_def or_else_def)
      next
        case some: False
        have "upto_sig (si_signature (last (?u @ w))) ((?u @ w) @ rest) = ?u @ w"
          by (rule upto_sig_last) (use dist chain some in auto)
        then have "upto_sig (si_signature (last w)) chain = ?u @ w" using some chain [symmetric] by simp
        then show ?thesis using some False n old oldest incomplete by (simp add: region_def filled_back_def or_else_def)
      qed
    qed
    then have "s \<in> set (from_sig n ?u) \<union> set w" using s set_from_sig_append by fastforce
    moreover have "region c chain = from_sig n ?u" using n old incomplete by (simp add: region_def)
    ultimately show "recorded ?db (tx_keys env logs s)" using rec keep old_rec by auto
  qed (use in_chain oldest last in \<open>auto simp: filled_back_def or_else_def split: if_splits option.splits\<close>)
qed

definition uncapped :: "'l walk_env \<Rightarrow> 'l chain_rpc \<Rightarrow> 'l chain_rpc \<Rightarrow> 'c \<Rightarrow> 'c activity_db \<Rightarrow> bool" where
  \<comment> \<open>no walk of the synchronisation meets the cap of 100 entries\<close>
  "uncapped env rpc rpc' cluster db =
     (case getCursor cluster db of (db1, before) \<Rightarrow>
      case top_up_walk env rpc before of
        Inl e \<Rightarrow> True
      | Inr r \<Rightarrow>
          length (wr_entries r) < ACTIVITY_MAX_ENTRIES \<and>
          (case backfill_walk env rpc' (topped_up before r) of
             Inl e \<Rightarrow> True
           | Inr r' \<Rightarrow> cs_complete (topped_up before r) \<or> length (wr_entries r') < ACTIVITY_MAX_ENTRIES))"

definition grows :: "('c \<Rightarrow> chain) \<Rightarrow> ('c \<Rightarrow> chain) \<Rightarrow> bool" where
  "grows past now \<longleftrightarrow> (\<forall>cl. \<exists>new. now cl = new @ past cl)"

definition covers :: "'l walk_env \<Rightarrow> (string \<Rightarrow> 'l option) \<Rightarrow> ('c \<Rightarrow> chain) \<Rightarrow> 'c activity_db \<Rightarrow> bool" where
  "covers env logs hist db \<longleftrightarrow> (\<forall>cl c. db_cursor db = Some (cl, c) \<longrightarrow> all_covered env logs db c (hist cl))"

lemma covers_grows:
  assumes "covers env logs past db" and "grows past now" and "\<And>cl. chain_ok (now cl)"
  shows "covers env logs now db"
  unfolding covers_def
proof (intro allI impI)
  fix cl c assume c: "db_cursor db = Some (cl, c)"
  obtain new where "now cl = new @ past cl" using assms(2) by (auto simp: grows_def)
  then show "all_covered env logs db c (now cl)"
    using all_covered_grows [of env logs db c "past cl" new] assms(1,3) c by (metis chain_ok_def covers_def)
qed

lemma covers_sync:
  assumes prior: "covers env logs hist db" and ok: "chain_ok (hist cl)" "chain_ok (hist' cl)"
    and grown: "\<exists>new. hist' cl = new @ hist cl"
    and rpc: "serves (hist cl) logs rpc" "serves (hist' cl) logs rpc'" and cap: "uncapped env rpc rpc' cl db"
    and run: "syncReserveActivity env rpc rpc' cl db = (db', err)" and "db_cursor db' = Some (cl', c)"
  shows "cl' = cl \<and> all_covered env logs db' c (hist' cl)"
proof -
  obtain db1 before where g: "getCursor cl db = (db1, before)" by fastforce
  have cur: "db_cursor db1 = map_option (Pair cl) before"
    and cov: "\<And>c. before = Some c \<Longrightarrow> all_covered env logs db1 c (hist cl)"
    using g prior by (auto simp: getCursor_def covers_def split: option.splits if_splits prod.splits)
  obtain new where new: "hist' cl = new @ hist cl" using grown by blast
  have up: "all_covered env logs d c (hist' cl)" if "all_covered env logs d c (hist cl)" for d c
    using all_covered_grows [OF that, of new] new ok(2) by (simp add: chain_ok_def)
  show ?thesis
  proof (cases "top_up_walk env rpc before")
    case (Inl e)
    then have "db' = db1" using run g by (simp add: syncReserveActivity_def)
    then show ?thesis using assms(9) cur cov up by (cases before) auto
  next
    case (Inr r)
    let ?db2 = "store_top_up cl before r db1" and ?c2 = "topped_up before r"
    have c2: "db_cursor ?db2 = Some (cl, ?c2)" by (rule store_top_up_cursor [OF cur])
    have a2: "all_covered env logs ?db2 ?c2 (hist' cl)"
      using up [OF top_up_covers [OF rpc(1) ok(1) Inr _ cov]] cap g Inr by (simp add: uncapped_def)
    have run2: "backfill_step env rpc' cl ?db2 = (db', err)" using run g Inr by (simp add: syncReserveActivity_def)
    have get2: "getCursor cl ?db2 = (?db2, Some ?c2)" using c2 by (simp add: getCursor_def)
    show ?thesis
    proof (cases "cs_complete ?c2 \<or> (\<exists>e. backfill_walk env rpc' ?c2 = Inl e)")
      case True
      then have "backfill_step env rpc' cl ?db2 = (?db2, snd (backfill_step env rpc' cl ?db2))"
        using get2 by (cases "cs_complete ?c2") (auto simp: backfill_step_def)
      then have "db' = ?db2" using run2 by (metis fst_conv)
      then show ?thesis using a2 c2 assms(9) by simp
    next
      case False
      then obtain r' where r': "backfill_walk env rpc' ?c2 = Inr r'" by (cases "backfill_walk env rpc' ?c2") auto
      then have d: "db' = store_backfill cl ?c2 r' ?db2" using run2 get2 False by (simp add: backfill_step_def)
      have "length (wr_entries r') < ACTIVITY_MAX_ENTRIES" using cap g Inr r' False by (simp add: uncapped_def)
      then have "all_covered env logs db' (filled_back ?c2 r') (hist' cl)"
        using backfill_covers [OF rpc(2) ok(2) r' _ a2] False d by blast
      then show ?thesis using store_backfill_cursor [OF c2] assms(9) d by simp
    qed
  qed
qed

inductive index_run :: "'l walk_env \<Rightarrow> (string \<Rightarrow> 'l option) \<Rightarrow> ('c \<Rightarrow> chain) \<Rightarrow> 'c activity_db \<Rightarrow> bool"
  for env logs where
  start: "(\<And>cl. chain_ok (hist cl)) \<Longrightarrow> index_run env logs hist \<lparr>db_rows = [], db_cursor = None\<rparr>"
| sync: "index_run env logs past db \<Longrightarrow> grows past hist \<Longrightarrow> grows hist hist' \<Longrightarrow>
    (\<And>cl. chain_ok (hist cl)) \<Longrightarrow> (\<And>cl. chain_ok (hist' cl)) \<Longrightarrow>
    serves (hist cl) logs rpc \<Longrightarrow> serves (hist' cl) logs rpc' \<Longrightarrow>
    uncapped (env\<lparr>we_valuation := v\<rparr>) rpc rpc' cl db \<Longrightarrow>
    syncReserveActivity (env\<lparr>we_valuation := v\<rparr>) rpc rpc' cl db = (db', err) \<Longrightarrow> index_run env logs hist' db'"

lemma tx_keys_valuation [simp]: "tx_keys (env\<lparr>we_valuation := v\<rparr>) logs = tx_keys env logs"
  by (rule ext) (simp add: tx_keys_def split: option.split)

lemma all_covered_valuation [simp]: "all_covered (env\<lparr>we_valuation := v\<rparr>) logs db c h = all_covered env logs db c h"
  by (simp add: all_covered_def)

lemma covers_valuation [simp]: "covers (env\<lparr>we_valuation := v\<rparr>) logs h db = covers env logs h db"
  by (simp add: covers_def)

lemma index_run_covers: "index_run env logs hist db \<Longrightarrow> covers env logs hist db"
proof (induction rule: index_run.induct)
  case (start hist)
  then show ?case by (simp add: covers_def)
next
  case (sync past db hist hist' cl rpc rpc' v db' err)
  have "covers (env\<lparr>we_valuation := v\<rparr>) logs hist db" using covers_grows [OF sync(10) sync(2) sync(4)] by simp
  moreover have "\<exists>new. hist' cl = new @ hist cl" using sync(3) by (simp add: grows_def)
  ultimately have "cl' = cl \<and> all_covered env logs db' c (hist' cl)" if "db_cursor db' = Some (cl', c)" for cl' c
    using covers_sync [where env = "env\<lparr>we_valuation := v\<rparr>" and hist = hist and hist' = hist' and cl = cl and rpc = rpc
        and rpc' = rpc' and db = db and db' = db' and err = err and cl' = cl' and c = c and logs = logs] sync(4-9) that
    by simp
  then show ?case unfolding covers_def by blast
qed

text \<open>C3: Every event of a transaction inside the range the cursor claims has its row in the index,
  however syncs, RPC failures and new transactions follow each other, provided no walk meets the cap of entries.\<close>

theorem index_never_skips:
  assumes "index_run env logs hist db" and "db_cursor db = Some (cl, c)" and "si \<in> set (region c (hist cl))"
    and "k \<in> set (tx_keys env logs si)"
  shows "dget (db_rows db) k \<noteq> None"
  using index_run_covers [OF assms(1)] assms(2-)
  by (auto simp: covers_def all_covered_def recorded_def od.keys_get)

definition honest_rpc :: "chain \<Rightarrow> (string \<Rightarrow> 'l option) \<Rightarrow> 'l chain_rpc" where
  "honest_rpc chain logs =
     \<lparr>cr_signatures = (\<lambda>before. Inr (take ACTIVITY_SIGNATURES_PER_PAGE (older before chain))), cr_logs = (\<lambda>s. Inr (logs s))\<rparr>"

lemma serves_honest: "serves chain logs (honest_rpc chain logs)"
  by (simp add: serves_def honest_rpc_def)

definition demo_event :: anchor_event where
  "demo_event = \<lparr>ev_name = ''reserveClosed'', ev_data = [(''closedBy'', DKey ''W'')]\<rparr>"

definition demo_env :: "anchor_event list walk_env" where
  "demo_env = \<lparr>we_localeDate = (\<lambda>n. []), we_parseLogs = (\<lambda>es. es), we_valuation = None\<rparr>"

definition demo_sig :: "string \<Rightarrow> sig_info" where
  "demo_sig s = \<lparr>si_signature = s, si_err = False, si_blockTime = Some 7\<rparr>"

definition two_logs :: "string \<Rightarrow> anchor_event list option" where
  "two_logs s = (if s = ''A'' \<or> s = ''B'' then Some [demo_event] else None)"

definition two_chain :: "bool \<Rightarrow> chain" where
  "two_chain cl = (if cl then [demo_sig ''A'', demo_sig ''B''] else [])"

lemma demo_summary:
  "summarizeActivityEvent ld ''reserveClosed'' [(''closedBy'', DKey ''W'')] =
     said (Some ''W'') [''Reserve closed'']"
  by (simp add: summarizeActivityEvent_def summarize_trades_and_fees_def summarize_management_def Let_def said_def field_def pk_def)

theorem index_never_skips_witness:
  "\<exists>db c. index_run demo_env two_logs two_chain db \<and> db_cursor db = Some (True, c) \<and>
     demo_sig ''B'' \<in> set (region c (two_chain True)) \<and> dget (db_rows db) (''B'', ''reserveClosed'', 0) \<noteq> None"
proof -
  let ?rpc = "honest_rpc (two_chain True) two_logs"
  let ?db0 = "\<lparr>db_rows = [], db_cursor = None\<rparr> :: bool activity_db"
  let ?env = "demo_env\<lparr>we_valuation := None\<rparr>"
  let ?c = "\<lparr>cs_newest = Some ''A'', cs_oldest = Some ''B'', cs_complete = True\<rparr>"
  obtain db' err where s: "syncReserveActivity ?env ?rpc ?rpc True ?db0 = (db', err)" by fastforce
  have cap: "uncapped ?env ?rpc ?rpc True ?db0" by code_simp
  have cur: "db_cursor (fst (syncReserveActivity ?env ?rpc ?rpc True ?db0)) = Some (True, ?c)" by code_simp
  have ok: "chain_ok (two_chain cl)" for cl by (cases cl) (auto simp: chain_ok_def two_chain_def demo_sig_def)
  have "grows two_chain two_chain" by (simp add: grows_def)
  from index_run.sync [OF index_run.start [OF ok] this this ok ok serves_honest serves_honest cap s]
  have run: "index_run demo_env two_logs two_chain db'" .
  have c: "db_cursor db' = Some (True, ?c)" using cur s by simp
  have b: "demo_sig ''B'' \<in> set (region ?c (two_chain True))" by code_simp
  have k: "(''B'', ''reserveClosed'', 0) \<in> set (tx_keys demo_env two_logs (demo_sig ''B''))" by code_simp
  show ?thesis using index_never_skips [OF run c b k] run c b by blast
qed

section \<open>Where the walk stops too early\<close>

lemma dkeys_Nil [simp]: "dkeys [] = []"
  by (simp add: dkeys_def)

lemma push_replicate:
  assumes "summarizeActivityEvent (we_localeDate env) (ev_name e) (ev_data e) = Inr (Some s)"
    and "event_ts si (ev_data e) = Inr ts" and "event_value env e = Inr usd"
  shows "length entries + n \<le> ACTIVITY_MAX_ENTRIES \<Longrightarrow> ordinal_of ords (ev_name e) = k \<Longrightarrow>
    push_events env si (replicate n e) ords entries = Inr (entries @ map (\<lambda>i. entry_of si e s i ts usd) [k..<k + n])"
proof (induction n arbitrary: ords entries k)
  case (Suc n)
  let ?x = "entry_of si e s k ts usd"
  have o: "ordinal_of (dput (ev_name e) (k + 1) ords) (ev_name e) = k + 1" by (simp add: ordinal_of_def od.get_put_same)
  have r: "[k..<k + Suc n] = k # [k + 1..<(k + 1) + n]" by (subst upt_rec) simp
  show ?case
  proof (cases "ACTIVITY_MAX_ENTRIES \<le> length (entries @ [?x])")
    case True
    then have "n = 0" using Suc(2) by simp
    then show ?thesis using True assms Suc(3) by (simp add: Let_def)
  next
    case False
    then show ?thesis using Suc(1) [of "entries @ [?x]", OF _ o] Suc(2,3) assms unfolding r by (simp add: Let_def)
  qed
qed simp

definition burst_logs :: "string \<Rightarrow> anchor_event list option" where
  "burst_logs s = (if s = ''A'' then Some (replicate 100 demo_event) else if s = ''B'' then Some [demo_event] else None)"

definition burst_chain :: chain where
  "burst_chain = [demo_sig ''A'', demo_sig ''B'']"

definition burst_entries :: "activity_entry list" where
  "burst_entries = map (\<lambda>i. entry_of (demo_sig ''A'') demo_event
     \<lparr>sm_actor = Some ''W'', sm_summary = ''Reserve closed'', sm_amountRaw = None, sm_amountKind = None, sm_amountRaw2 = None,
      sm_amountKind2 = None\<rparr> i 7 \<lparr>eu_amountUsd = None, eu_amountUsd2 = None\<rparr>) [0..<100]"

lemma push_burst: "push_events demo_env (demo_sig ''A'') (replicate 100 demo_event) [] [] = Inr burst_entries"
proof -
  have s: "summarizeActivityEvent (we_localeDate demo_env) (ev_name demo_event) (ev_data demo_event)
      = Inr (Some \<lparr>sm_actor = Some ''W'', sm_summary = ''Reserve closed'', sm_amountRaw = None, sm_amountKind = None,
                   sm_amountRaw2 = None, sm_amountKind2 = None\<rparr>)"
    by (simp add: demo_event_def demo_summary said_def)
  have t: "event_ts (demo_sig ''A'') (ev_data demo_event) = Inr 7"
    by (simp add: event_ts_def demo_event_def demo_sig_def field_def)
  have v: "event_value demo_env demo_event = Inr \<lparr>eu_amountUsd = None, eu_amountUsd2 = None\<rparr>"
    by (simp add: event_value_def demo_env_def)
  have "length ([] :: activity_entry list) + 100 \<le> ACTIVITY_MAX_ENTRIES" "ordinal_of [] (ev_name demo_event) = 0"
    by (simp_all add: ACTIVITY_MAX_ENTRIES_def ordinal_of_def)
  from push_replicate [OF s t v this] show ?thesis by (simp add: burst_entries_def)
qed

lemma burst_walk:
  "top_up_walk demo_env (honest_rpc burst_chain burst_logs) None
     = Inr \<lparr>wr_entries = burst_entries, wr_oldestSignatureWalked = Some ''A'', wr_reachedRealEnd = True,
            wr_reachedKnownSignature = False\<rparr>"
proof -
  have sigs: "cr_signatures (honest_rpc burst_chain burst_logs) None = Inr burst_chain"
    by (simp add: honest_rpc_def older_def burst_chain_def ACTIVITY_SIGNATURES_PER_PAGE_def)
  have "walk_page demo_env (honest_rpc burst_chain burst_logs) None burst_chain [] None = Inr (burst_entries, Some ''A'', False)"
    using push_burst
    by (simp add: burst_chain_def is_stop_def honest_rpc_def burst_logs_def demo_sig_def [of "''A''"] demo_env_def
        burst_entries_def ACTIVITY_MAX_ENTRIES_def)
  then show ?thesis
    by (simp add: top_up_walk_def fetchReserveActivityLog_def TOP_UP_MAX_PAGES_def eval_nat_numeral sigs
        ACTIVITY_MAX_ENTRIES_def ACTIVITY_SIGNATURES_PER_PAGE_def) (simp add: burst_chain_def)
qed



text \<open>A walk whose remaining history is a whole number of pages never reports the real end: the page that is
  shorter than 50 signatures is the empty one, and the loop leaves on it without saying so.\<close>

theorem whole_pages_never_end:
  assumes "serves chain logs rpc" and "distinct (map si_signature chain)"
  shows "ACTIVITY_SIGNATURES_PER_PAGE dvd length (older before chain) \<Longrightarrow>
    walk_pages env rpc stop n before entries oldest = Inr r \<Longrightarrow> \<not> wr_reachedRealEnd r"
proof (induction n arbitrary: before entries oldest)
  case (Suc n)
  show ?case
  proof (cases "ACTIVITY_MAX_ENTRIES \<le> length entries")
    case True
    then have "Inr r = (Inr \<lparr>wr_entries = entries, wr_oldestSignatureWalked = oldest, wr_reachedRealEnd = False,
      wr_reachedKnownSignature = False\<rparr> :: activity_error + walk_result)" using Suc(3) by simp
    then show ?thesis by simp
  next
    case False
    obtain sis where sis: "cr_signatures rpc before = Inr sis" using Suc(3) False by (auto simp: rbind_Inr_iff)
    then have tk: "sis = take ACTIVITY_SIGNATURES_PER_PAGE (older before chain)" using assms(1) by (simp add: serves_def)
    show ?thesis
    proof (cases "sis = []")
      case True
      then show ?thesis using Suc(3) False sis by auto
    next
      case some: False
      have "ACTIVITY_SIGNATURES_PER_PAGE \<le> length (older before chain)"
        using some tk Suc(2) by (intro dvd_imp_le) auto
      then have full: "length sis = ACTIVITY_SIGNATURES_PER_PAGE" using tk by simp
      have split: "older before chain = sis @ drop ACTIVITY_SIGNATURES_PER_PAGE (older before chain)" using tk by simp
      have nxt: "older (Some (si_signature (last sis))) chain = drop ACTIVITY_SIGNATURES_PER_PAGE (older before chain)"
        by (rule older_next_page [OF assms(2) split some])
      then have dvd: "ACTIVITY_SIGNATURES_PER_PAGE dvd length (older (Some (si_signature (last sis))) chain)"
        using Suc(2) by simp
      obtain es1 old1 known where pg: "walk_page env rpc stop sis entries oldest = Inr (es1, old1, known)"
        using Suc(3) False sis some by (auto simp: rbind_Inr_iff)
      show ?thesis
      proof (cases known)
        case True
        then show ?thesis using Suc(3) False sis some pg by auto
      next
        case False
        then have "walk_pages env rpc stop n (Some (si_signature (last sis))) es1 old1 = Inr r"
          using Suc(3) \<open>\<not> ACTIVITY_MAX_ENTRIES \<le> length entries\<close> sis some pg full by simp
        then show ?thesis by (rule Suc(1) [OF dvd])
      qed
    qed
  qed
qed auto

end
