(* ===== verification/Activity_Report.thy ===== *)
theory Activity_Report
  imports Activity_Index
begin

text \<open>
  What is served from the activity index: the USDC paid per wallet and the healing of rows
  indexed without payouts (\<open>lib/reserve-activity/feePayouts.ts\<close>), and the dollar value of rows
  indexed without prices (\<open>volumeUsd.ts\<close>). The rows a query selects are arguments;
  \<open>localeGreater\<close> is \<open>localeCompare\<close> of the host.
\<close>

section \<open>Payouts per wallet\<close>

definition HEAL_MAX_ROWS_PER_CALL :: nat where "HEAL_MAX_ROWS_PER_CALL = 12"

record payout_row =
  py_signature :: string
  py_event_index :: nat
  py_ts :: int
  py_payouts :: "fee_payout list option"

record recipient_total =
  rt_wallet :: string
  rt_usdcRaw :: string
  rt_payoutCount :: nat
  rt_lastTs :: int
  rt_lastSignature :: string

type_synonym totals = "(string \<times> (recipient_total \<times> int)) list"
  \<comment> \<open>each entry with its \<open>sum\<close>\<close>

definition add_payout :: "payout_row \<Rightarrow> totals \<Rightarrow> fee_payout \<Rightarrow> activity_error + totals" where
  "add_payout row totals p =
     rbind (bigint_of (fp_usdcRaw p)) (\<lambda>amount.
     case dget totals (fp_wallet p) of
       None \<Rightarrow> Inr (dput (fp_wallet p)
         (\<lparr>rt_wallet = fp_wallet p, rt_usdcRaw = int_str amount, rt_payoutCount = 1, rt_lastTs = py_ts row,
           rt_lastSignature = py_signature row\<rparr>, amount) totals)
     | Some (t, acc) \<Rightarrow>
         let t' = t\<lparr>rt_usdcRaw := int_str (acc + amount), rt_payoutCount := rt_payoutCount t + 1\<rparr>;
             t'' = (if py_ts row \<ge> rt_lastTs t then t'\<lparr>rt_lastTs := py_ts row, rt_lastSignature := py_signature row\<rparr> else t') in
         Inr (dput (fp_wallet p) (t'', acc + amount) totals))"

fun add_payouts :: "payout_row \<Rightarrow> totals \<Rightarrow> fee_payout list \<Rightarrow> activity_error + totals" where
  "add_payouts row totals [] = Inr totals"
| "add_payouts row totals (p # ps) = rbind (add_payout row totals p) (\<lambda>totals'. add_payouts row totals' ps)"

fun fold_rows :: "payout_row list \<Rightarrow> totals \<Rightarrow> nat \<Rightarrow> activity_error + totals \<times> nat" where
  "fold_rows [] totals pendingHeal = Inr (totals, pendingHeal)"
| "fold_rows (row # rows) totals pendingHeal =
     (case py_payouts row of
        None \<Rightarrow> fold_rows rows totals (pendingHeal + 1)
      | Some ps \<Rightarrow> rbind (add_payouts row totals ps) (\<lambda>totals'. fold_rows rows totals' pendingHeal))"

definition usdc_of :: "recipient_total \<Rightarrow> int" where
  \<comment> \<open>\<open>BigInt(r.usdcRaw)\<close> of a printed sum\<close>
  "usdc_of r = (case bigint_of (rt_usdcRaw r) of Inr n \<Rightarrow> n | Inl _ \<Rightarrow> 0)"

definition smaller_total :: "(string \<Rightarrow> string \<Rightarrow> bool) \<Rightarrow> recipient_total \<Rightarrow> recipient_total \<Rightarrow> bool" where
  "smaller_total localeGreater a b \<longleftrightarrow>
     usdc_of b > usdc_of a \<or> (\<not> usdc_of b < usdc_of a \<and> localeGreater (rt_wallet a) (rt_wallet b))"

definition aggregateFeePayouts ::
  "(string \<Rightarrow> string \<Rightarrow> bool) \<Rightarrow> payout_row list \<Rightarrow> activity_error + recipient_total list \<times> nat" where
  "aggregateFeePayouts localeGreater rows =
     rbind (fold_rows rows [] 0) (\<lambda>(totals, pendingHeal).
     Inr (sort_by (smaller_total localeGreater) (map (fst \<circ> snd) totals), pendingHeal))"

section \<open>Healing payouts\<close>

type_synonym 'c row_table = "(row_key \<times> ('c \<times> activity_entry)) list"

definition set_payouts :: "'c \<Rightarrow> row_key \<Rightarrow> fee_payout list \<Rightarrow> 'c row_table \<Rightarrow> 'c row_table" where
  \<comment> \<open>\<open>update .. set payouts .. where .. and payouts is null\<close>\<close>
  "set_payouts cluster k ps rows =
     (case dget rows k of
        Some (cl, e) \<Rightarrow> if cl = cluster \<and> en_payouts e = None then dput k (cl, e\<lparr>en_payouts := Some ps\<rparr>) rows else rows
      | None \<Rightarrow> rows)"

fun healMissingFeePayouts ::
  "('l \<Rightarrow> anchor_event list) \<Rightarrow> 'l chain_rpc \<Rightarrow> 'c \<Rightarrow> row_key list \<Rightarrow> 'c row_table \<Rightarrow> nat
    \<Rightarrow> 'c row_table \<times> nat \<times> activity_error option" where
  \<comment> \<open>over the selected rows; the rows healed, and the error that ended the loop\<close>
  "healMissingFeePayouts parse rpc cluster [] rows healed = (rows, healed, None)"
| "healMissingFeePayouts parse rpc cluster ((s, kind, i) # ks) rows healed =
     (case cr_logs rpc s of
        Inl e \<Rightarrow> (rows, healed, Some e)
      | Inr None \<Rightarrow> healMissingFeePayouts parse rpc cluster ks rows healed
      | Inr (Some logs) \<Rightarrow>
          (case extractFeePayoutsFromLogs parse logs i kind of
             None \<Rightarrow> healMissingFeePayouts parse rpc cluster ks rows healed
           | Some ps \<Rightarrow> healMissingFeePayouts parse rpc cluster ks (set_payouts cluster (s, kind, i) ps rows) (healed + 1)))"

section \<open>Healing dollar values\<close>

definition VOLUME_EVENT_KINDS :: "string list" where
  "VOLUME_EVENT_KINDS = [''reserveTokensMinted'', ''reserveTokensRedeemed'', ''reserveSeeded'', ''rebalanceSwapExecuted'', ''rebalanceLegExecuted'']"

record asset_legs =
  al_mints :: "string list"
  al_amounts :: "string list"

definition volumeEventLegs :: "string \<Rightarrow> event_data \<Rightarrow> asset_legs option" where
  "volumeEventLegs name d =
     (if name = ''rebalanceSwapExecuted'' \<or> name = ''rebalanceLegExecuted''
      then (if field d ''mintSell'' = DUndef then None
            else Some \<lparr>al_mints = [pk (field d ''mintSell'')], al_amounts = [string_of (or_zero (field d ''amountIn''))]\<rparr>)
      else
        let amounts = (if name = ''reserveTokensMinted'' then field d ''assetAmountsIn''
                       else if name = ''reserveTokensRedeemed'' then field d ''assetAmountsOut''
                       else if name = ''reserveSeeded'' then field d ''assetAmounts'' else DUndef) in
        case (array (field d ''assetMints''), array amounts) of
          (Some ms, Some as) \<Rightarrow> Some \<lparr>al_mints = map pk ms, al_amounts = map (\<lambda>a. string_of (or_zero a)) as\<rparr>
        | _ \<Rightarrow> None)"

definition MAINNET_USDC_MINT :: string where
  "MAINNET_USDC_MINT = ''EPjFWdd5AufqSSqeM2qN1xzybapC8G4wEGGkZwyTDt1v''"

record price_quote =
  \<comment> \<open>\<open>None\<close> is null or absent\<close>
  qt_usdPrice :: "number option"
  qt_decimals :: "int option"

definition quote_pricing :: "price_quote option \<Rightarrow> asset_pricing option" where
  "quote_pricing q =
     (case q of
        None \<Rightarrow> None
      | Some q \<Rightarrow>
          (case (qt_usdPrice q, qt_decimals q) of
             (Some price, Some decimals) \<Rightarrow>
               if isFinite price \<and> num_less (Fin 0) price \<and> decimals \<ge> 0
               then Some \<lparr>ap_decimals = nat decimals, ap_priceUsd = price\<rparr> else None
           | _ \<Rightarrow> None))"

fun pricingFromQuotes :: "string list \<Rightarrow> (string \<Rightarrow> price_quote option) \<Rightarrow> pricing \<Rightarrow> pricing" where
  "pricingFromQuotes [] quotes pricing = pricing"
| "pricingFromQuotes (m # ms) quotes pricing =
     pricingFromQuotes ms quotes
       (if m = MAINNET_USDC_MINT then dput m \<lparr>ap_decimals = 6, ap_priceUsd = Fin 1\<rparr> pricing
        else case quote_pricing (quotes m) of Some p \<Rightarrow> dput m p pricing | None \<Rightarrow> pricing)"

definition valueLegsOrNull :: "asset_legs \<Rightarrow> pricing \<Rightarrow> activity_error + number option" where
  "valueLegsOrNull legs pricing =
     (if \<not> list_ex (\<lambda>m. map_of pricing m \<noteq> None) (al_mints legs) then Inr None
      else rbind (valueAssetLegsUsd (al_mints legs) (al_amounts legs) pricing) (\<lambda>v. Inr (Some v)))"

fun nth_legs :: "string \<Rightarrow> nat \<Rightarrow> nat \<Rightarrow> anchor_event list \<Rightarrow> asset_legs option" where
  \<comment> \<open>the legs of the row's event, found by its ordinal\<close>
  "nth_legs kind i ordinal [] = None"
| "nth_legs kind i ordinal (e # es) =
     (if ev_name e \<noteq> kind then nth_legs kind i ordinal es
      else if ordinal \<noteq> i then nth_legs kind i (ordinal + 1) es
      else volumeEventLegs (ev_name e) (ev_data e))"

fun decode_legs ::
  "('l \<Rightarrow> anchor_event list) \<Rightarrow> 'l chain_rpc \<Rightarrow> row_key list \<Rightarrow> activity_error + (row_key \<times> asset_legs) list" where
  "decode_legs parse rpc [] = Inr []"
| "decode_legs parse rpc ((s, kind, i) # ks) =
     rbind (cr_logs rpc s) (\<lambda>answer.
     rbind (decode_legs parse rpc ks) (\<lambda>rest.
     case answer of
       None \<Rightarrow> Inr rest
     | Some logs \<Rightarrow>
         (case nth_legs kind i 0 (parse logs) of
            None \<Rightarrow> Inr rest
          | Some legs \<Rightarrow> Inr (((s, kind, i), legs) # rest))))"

definition set_amount_usd :: "'c \<Rightarrow> row_key \<Rightarrow> number \<Rightarrow> 'c row_table \<Rightarrow> 'c row_table" where
  "set_amount_usd cluster k usd rows =
     (case dget rows k of
        Some (cl, e) \<Rightarrow> if cl = cluster \<and> en_amountUsd e = None then dput k (cl, e\<lparr>en_amountUsd := Some usd\<rparr>) rows else rows
      | None \<Rightarrow> rows)"

fun value_rows ::
  "'c \<Rightarrow> pricing \<Rightarrow> (row_key \<times> asset_legs) list \<Rightarrow> 'c row_table \<Rightarrow> nat \<Rightarrow> 'c row_table \<times> nat \<times> activity_error option" where
  "value_rows cluster pricing [] rows valued = (rows, valued, None)"
| "value_rows cluster pricing ((k, legs) # ds) rows valued =
     (case valueLegsOrNull legs pricing of
        Inl e \<Rightarrow> (rows, valued, Some e)
      | Inr None \<Rightarrow> value_rows cluster pricing ds rows valued
      | Inr (Some usd) \<Rightarrow> value_rows cluster pricing ds (set_amount_usd cluster k usd rows) (valued + 1))"

definition healMissingVolumeUsd ::
  "('l \<Rightarrow> anchor_event list) \<Rightarrow> 'l chain_rpc \<Rightarrow> (string list \<Rightarrow> activity_error + (string \<Rightarrow> price_quote option)) \<Rightarrow> 'c
    \<Rightarrow> row_key list \<Rightarrow> 'c row_table \<Rightarrow> 'c row_table \<times> nat \<times> activity_error option" where
  "healMissingVolumeUsd parse rpc fetchPricesUsd cluster selected rows =
     (if selected = [] then (rows, 0, None)
      else case decode_legs parse rpc selected of
        Inl e \<Rightarrow> (rows, 0, Some e)
      | Inr decoded \<Rightarrow>
          if decoded = [] then (rows, 0, None)
          else
            let mints = remdups_first (concat (map (al_mints \<circ> snd) decoded)) in
            case fetchPricesUsd (filter (\<lambda>m. m \<noteq> MAINNET_USDC_MINT) mints) of
              Inl e \<Rightarrow> (rows, 0, Some e)
            | Inr quotes \<Rightarrow> value_rows cluster (pricingFromQuotes mints quotes []) decoded rows 0)"

section \<open>What the report promises\<close>

definition amount_of_payout :: "fee_payout \<Rightarrow> int" where
  "amount_of_payout p = (case bigint_of (fp_usdcRaw p) of Inr n \<Rightarrow> n | Inl _ \<Rightarrow> 0)"

definition paid_to :: "string \<Rightarrow> fee_payout list \<Rightarrow> fee_payout list" where
  "paid_to w ps = filter (\<lambda>p. fp_wallet p = w) ps"

definition indexed_payouts :: "payout_row list \<Rightarrow> fee_payout list" where
  "indexed_payouts rows = concat (map (\<lambda>r. case py_payouts r of Some ps \<Rightarrow> ps | None \<Rightarrow> []) rows)"

definition total_right :: "fee_payout list \<Rightarrow> string \<Rightarrow> recipient_total \<times> int \<Rightarrow> bool" where
  "total_right ps w ta \<longleftrightarrow>
     rt_wallet (fst ta) = w \<and> rt_usdcRaw (fst ta) = int_str (snd ta) \<and> rt_payoutCount (fst ta) = length (paid_to w ps) \<and>
     snd ta = sum_list (map amount_of_payout (paid_to w ps))"

definition tracks :: "totals \<Rightarrow> fee_payout list \<Rightarrow> bool" where
  "tracks totals ps \<longleftrightarrow> distinct (dkeys totals) \<and>
     (\<forall>w. case dget totals w of None \<Rightarrow> paid_to w ps = [] | Some ta \<Rightarrow> paid_to w ps \<noteq> [] \<and> total_right ps w ta)"

lemma bigint_of_printed: "bigint_of (int_str n) = Inr n"
proof (cases "0 \<le> n")
  case True
  then show ?thesis by (rule bigint_of_int_str)
next
  case False
  let ?d = "nat_str (nat (- n))"
  have digits: "list_all is_digit ?d" using nat_str_digits by (auto simp: list_all_iff)
  have last_digit: "is_digit (hd (rev ?d))"
    using nat_str_digits [of "hd (rev ?d)"] by (metis hd_in_set nat_str_nonempty rev_is_Nil_conv set_rev)
  have "dropWhile is_space (rev ?d @ [CHR ''-'']) = rev ?d @ [CHR ''-'']"
    using last_digit is_space_digit by (cases "rev ?d") auto
  then have t: "trim (CHR ''-'' # ?d) = CHR ''-'' # ?d" by (simp add: trim_def is_space_def code_def)
  show ?thesis using False t base_value_digits [OF digits] by (simp add: int_str_def bigint_of_def)
qed

lemma paid_to_append [simp]: "paid_to w (ps @ qs) = paid_to w ps @ paid_to w qs"
  by (simp add: paid_to_def)

lemma add_payout_tracks:
  assumes "tracks totals ps" and "add_payout row totals p = Inr totals'"
  shows "tracks totals' (ps @ [p])"
proof -
  obtain amount where a: "bigint_of (fp_usdcRaw p) = Inr amount" using assms(2) by (auto simp: add_payout_def rbind_Inr_iff)
  obtain ta where t: "totals' = dput (fp_wallet p) ta totals" and r: "total_right (ps @ [p]) (fp_wallet p) ta"
  proof (cases "dget totals (fp_wallet p)")
    case None
    then have "paid_to (fp_wallet p) ps = []" using assms(1) by (auto simp: tracks_def dest: spec [of _ "fp_wallet p"])
    then show ?thesis using that None assms(2) a
      by (auto simp: add_payout_def total_right_def paid_to_def amount_of_payout_def)
  next
    case (Some tc)
    then have "total_right ps (fp_wallet p) tc" using assms(1) by (auto simp: tracks_def dest: spec [of _ "fp_wallet p"])
    then show ?thesis using that Some assms(2) a
      by (cases tc) (auto simp: add_payout_def total_right_def paid_to_def amount_of_payout_def Let_def)
  qed
  have other: "paid_to w (ps @ [p]) = paid_to w ps" "total_right (ps @ [p]) w x = total_right ps w x" if "w \<noteq> fp_wallet p" for w x
    using that by (simp_all add: total_right_def paid_to_def)
  show ?thesis unfolding tracks_def
  proof (intro conjI allI)
    show "distinct (dkeys totals')" using assms(1) t by (simp add: tracks_def distinct_dput)
    fix w
    show "case dget totals' w of None \<Rightarrow> paid_to w (ps @ [p]) = []
        | Some ta \<Rightarrow> paid_to w (ps @ [p]) \<noteq> [] \<and> total_right (ps @ [p]) w ta"
    proof (cases "w = fp_wallet p")
      case True
      then show ?thesis using r t by (simp add: od.get_put_same paid_to_def)
    next
      case False
      then have "dget totals' w = dget totals w" using t by (simp add: od.get_put_other)
      moreover have "case dget totals w of None \<Rightarrow> paid_to w ps = [] | Some ta \<Rightarrow> paid_to w ps \<noteq> [] \<and> total_right ps w ta"
        using assms(1) by (simp add: tracks_def)
      ultimately show ?thesis unfolding other [OF False] by simp
    qed
  qed
qed

lemma add_payouts_tracks:
  "tracks totals ps \<Longrightarrow> add_payouts row totals qs = Inr totals' \<Longrightarrow> tracks totals' (ps @ qs)"
proof (induction qs arbitrary: totals ps)
  case (Cons q qs)
  then obtain t1 where "add_payout row totals q = Inr t1" "add_payouts row t1 qs = Inr totals'" by (auto simp: rbind_Inr_iff)
  then show ?case using Cons(1) [OF add_payout_tracks [OF Cons(2)]] by simp
qed simp

lemma fold_rows_tracks:
  "tracks totals ps \<Longrightarrow> fold_rows rows totals n = Inr (totals', n') \<Longrightarrow>
   tracks totals' (ps @ indexed_payouts rows) \<and> n' = n + length (filter (\<lambda>r. py_payouts r = None) rows)"
proof (induction rows arbitrary: totals ps n)
  case Nil
  then show ?case by (simp add: indexed_payouts_def)
next
  case (Cons row rows)
  show ?case
  proof (cases "py_payouts row")
    case None
    then show ?thesis using Cons(1) [OF Cons(2), of "n + 1"] Cons(3) by (simp add: indexed_payouts_def)
  next
    case (Some qs)
    then obtain t1 where "add_payouts row totals qs = Inr t1" "fold_rows rows t1 n = Inr (totals', n')"
      using Cons(3) by (auto simp: rbind_Inr_iff)
    then show ?thesis using Cons(1) [OF add_payouts_tracks [OF Cons(2)]] Some by (simp add: indexed_payouts_def)
  qed
qed

lemma smaller_total_comparator: "comparator coll \<Longrightarrow> comparator (smaller_total coll)"
proof -
  assume c: "comparator coll"
  have asym: "\<not> smaller_total coll y x" if "smaller_total coll x y" for x y
  proof -
    have "coll (rt_wallet y) (rt_wallet x) \<Longrightarrow> \<not> coll (rt_wallet x) (rt_wallet y)" using c unfolding comparator_def by blast
    then show ?thesis using that unfolding smaller_total_def by linarith
  qed
  have trans: "\<not> smaller_total coll x z" if "\<not> smaller_total coll x y" "\<not> smaller_total coll y z" for x y z
  proof (cases "usdc_of x = usdc_of y \<and> usdc_of y = usdc_of z")
    case True
    then have "\<not> coll (rt_wallet x) (rt_wallet y)" "\<not> coll (rt_wallet y) (rt_wallet z)"
      using that by (simp_all add: smaller_total_def)
    then have "\<not> coll (rt_wallet x) (rt_wallet z)" using c unfolding comparator_def by blast
    then show ?thesis using True by (simp add: smaller_total_def)
  next
    case False
    then show ?thesis using that by (auto simp: smaller_total_def)
  qed
  show ?thesis unfolding comparator_def using asym trans by blast
qed

text \<open>C20: The payout report has one line per paid wallet; its amount and count are those of the indexed payouts to that
  wallet, nothing is lost or counted twice, the lines fall by amount, and the rows without payouts are counted apart.\<close>

theorem payouts_conserve:
  assumes "aggregateFeePayouts coll rows = Inr (recipients, pendingHeal)" and "comparator coll"
  shows "distinct (map rt_wallet recipients) \<and>
    set (map rt_wallet recipients) = set (map fp_wallet (indexed_payouts rows)) \<and>
    (\<forall>r \<in> set recipients.
       usdc_of r = sum_list (map amount_of_payout (paid_to (rt_wallet r) (indexed_payouts rows))) \<and>
       rt_payoutCount r = length (paid_to (rt_wallet r) (indexed_payouts rows))) \<and>
    sorted_wrt (\<lambda>a b. usdc_of a \<ge> usdc_of b) recipients \<and>
    pendingHeal = length (filter (\<lambda>r. py_payouts r = None) rows)"
proof -
  let ?ps = "indexed_payouts rows"
  obtain totals where f: "fold_rows rows [] 0 = Inr (totals, pendingHeal)"
    and r: "recipients = sort_by (smaller_total coll) (map (fst \<circ> snd) totals)"
    using assms(1) by (auto simp: aggregateFeePayouts_def rbind_Inr_iff)
  have "tracks [] []" by (simp add: tracks_def dkeys_def paid_to_def)
  from fold_rows_tracks [OF this f] have tr: "tracks totals ?ps"
    and n: "pendingHeal = length (filter (\<lambda>r. py_payouts r = None) rows)" by simp_all
  have right: "total_right ?ps w ta" "paid_to w ?ps \<noteq> []" if "(w, ta) \<in> set totals" for w ta
  proof -
    have "dget totals w = Some ta" using tr that dget_in_set by (fastforce simp: tracks_def)
    then show "total_right ?ps w ta" "paid_to w ?ps \<noteq> []" using tr by (auto simp: tracks_def dest: spec [of _ w])
  qed
  have wallets: "map (rt_wallet \<circ> (fst \<circ> snd)) totals = dkeys totals"
    unfolding dkeys_def by (rule map_cong) (use right in \<open>auto simp: total_right_def\<close>)
  have keys: "set (dkeys totals) = {w. paid_to w ?ps \<noteq> []}"
    using tr by (auto simp: set_dkeys tracks_def split: option.splits dest: spec)
  have same: "set (map rt_wallet recipients) = set (dkeys totals)" using wallets r by (metis list.set_map set_sort_by image_comp)
  show ?thesis
  proof (intro conjI)
  show "distinct (map rt_wallet recipients)"
  proof -
    have "mset (map rt_wallet recipients) = mset (dkeys totals)"
      using arg_cong [OF wallets, of mset] r by (simp add: image_mset.compositionality)
    then show ?thesis using tr by (metis mset_eq_imp_distinct_iff tracks_def)
  qed
  show "set (map rt_wallet recipients) = set (map fp_wallet ?ps)"
    unfolding same keys by (auto simp: paid_to_def filter_empty_conv)
  show "\<forall>r \<in> set recipients. usdc_of r = sum_list (map amount_of_payout (paid_to (rt_wallet r) ?ps))
           \<and> rt_payoutCount r = length (paid_to (rt_wallet r) ?ps)"
    using right r by (auto simp: usdc_of_def total_right_def bigint_of_printed)
  show "sorted_wrt (\<lambda>a b. usdc_of a \<ge> usdc_of b) recipients"
    unfolding r by (rule sorted_wrt_mono_rel [OF _ sorted_sort_by [OF smaller_total_comparator [OF assms(2)]]])
      (auto simp: smaller_total_def)
  show "pendingHeal = length (filter (\<lambda>r. py_payouts r = None) rows)" by (rule n)
  qed
qed

theorem payouts_conserve_witness:
  "\<exists>a b. aggregateFeePayouts (\<lambda>x y. False)
      [\<lparr>py_signature = ''S'', py_event_index = 0, py_ts = 1, py_payouts = Some [\<lparr>fp_wallet = ''A'', fp_usdcRaw = ''3''\<rparr>]\<rparr>,
       \<lparr>py_signature = ''T'', py_event_index = 0, py_ts = 2, py_payouts = None\<rparr>,
       \<lparr>py_signature = ''U'', py_event_index = 0, py_ts = 3,
        py_payouts = Some [\<lparr>fp_wallet = ''B'', fp_usdcRaw = ''9''\<rparr>, \<lparr>fp_wallet = ''A'', fp_usdcRaw = ''4''\<rparr>]\<rparr>] = Inr ([b, a], 1) \<and>
     usdc_of a = 7 \<and> rt_payoutCount a = 2 \<and> usdc_of b \<ge> usdc_of a"
proof -
  let ?rows = "[\<lparr>py_signature = ''S'', py_event_index = 0, py_ts = 1, py_payouts = Some [\<lparr>fp_wallet = ''A'', fp_usdcRaw = ''3''\<rparr>]\<rparr>,
       \<lparr>py_signature = ''T'', py_event_index = 0, py_ts = 2, py_payouts = None\<rparr>,
       \<lparr>py_signature = ''U'', py_event_index = 0, py_ts = 3,
        py_payouts = Some [\<lparr>fp_wallet = ''B'', fp_usdcRaw = ''9''\<rparr>, \<lparr>fp_wallet = ''A'', fp_usdcRaw = ''4''\<rparr>]\<rparr>]"
  let ?a = "\<lparr>rt_wallet = ''A'', rt_usdcRaw = ''7'', rt_payoutCount = 2, rt_lastTs = 3, rt_lastSignature = ''U''\<rparr>"
  let ?b = "\<lparr>rt_wallet = ''B'', rt_usdcRaw = ''9'', rt_payoutCount = 1, rt_lastTs = 3, rt_lastSignature = ''U''\<rparr>"
  have run: "aggregateFeePayouts (\<lambda>x y. False) ?rows = Inr ([?b, ?a], 1)" by code_simp
  have "comparator (\<lambda>(x::string) y. False)" by (simp add: comparator_def)
  from payouts_conserve [OF run this] have "usdc_of ?a = 7 \<and> rt_payoutCount ?a = 2 \<and> usdc_of ?b \<ge> usdc_of ?a"
    by (simp add: indexed_payouts_def paid_to_def) code_simp
  with run show ?thesis by blast
qed

end
