(* ===== verification/Activity_Healing.thy ===== *)
theory Activity_Healing
  imports Activity_Report Index_Coverage
begin

text \<open>
  The rows that are filled in later: the ordinal under which the walk of
  \<open>activityLog.ts\<close> indexed an event leads the healing loops of \<open>feePayouts.ts\<close> and
  \<open>volumeUsd.ts\<close> back to the same event, so a healed row is the row that would have been
  indexed.
\<close>

section \<open>Healing finds the event that was indexed\<close>

fun nth_event :: "string \<Rightarrow> nat \<Rightarrow> nat \<Rightarrow> anchor_event list \<Rightarrow> anchor_event option" where
  \<comment> \<open>the event both healing loops stop at\<close>
  "nth_event kind i ordinal [] = None"
| "nth_event kind i ordinal (e # es) =
     (if ev_name e \<noteq> kind then nth_event kind i ordinal es
      else if ordinal = i then Some e else nth_event kind i (ordinal + 1) es)"

lemma nth_payouts_event:
  "nth_payouts kind i ordinal es = map_option (\<lambda>e. case extractFeePayouts (ev_name e) (ev_data e) of Some ps \<Rightarrow> ps | None \<Rightarrow> [])
     (nth_event kind i ordinal es)"
  by (induction es arbitrary: ordinal) auto

lemma nth_legs_event:
  "nth_legs kind i ordinal es = Option.bind (nth_event kind i ordinal es) (\<lambda>e. volumeEventLegs (ev_name e) (ev_data e))"
  by (induction es arbitrary: ordinal) auto

lemma nth_event_name: "nth_event kind i ordinal es = Some x \<Longrightarrow> ev_name x = kind"
  by (induction es arbitrary: ordinal) (auto split: if_splits)

definition indexed_as :: "'l walk_env \<Rightarrow> activity_entry \<Rightarrow> anchor_event \<Rightarrow> bool" where
  "indexed_as env e x \<longleftrightarrow> en_payouts e = extractFeePayouts (ev_name x) (ev_data x) \<and>
     (\<exists>usd. event_value env x = Inr usd \<and> en_amountUsd e = eu_amountUsd usd)"

lemma ordinal_dput: "ordinal_of (dput k v ords) k' = (if k' = k then v else ordinal_of ords k')"
  by (simp add: ordinal_of_def od.get_put)

lemma push_events_ordinals:
  assumes always: "\<And>d. summarizeActivityEvent (we_localeDate env) kind d \<noteq> Inr None"
  shows "push_events env si evs ords entries = Inr (entries @ new) \<Longrightarrow> e \<in> set new \<Longrightarrow> en_kind e = kind \<Longrightarrow>
    ordinal_of ords kind \<le> en_eventIndex e \<and>
    (\<exists>x. nth_event kind (en_eventIndex e) (ordinal_of ords kind) evs = Some x \<and> indexed_as env e x)"
proof (induction evs arbitrary: ords entries new)
  case Nil
  then show ?case by simp
next
  case (Cons x es)
  obtain d where d: "summarizeActivityEvent (we_localeDate env) (ev_name x) (ev_data x) = Inr d"
    using Cons(2) by (auto simp: rbind_Inr_iff)
  show ?case
  proof (cases d)
    case None
    then have "ev_name x \<noteq> kind" using always [of "ev_data x"] d by auto
    then show ?thesis using Cons(1) [of ords entries new] Cons(2-4) d None by simp
  next
    case (Some s)
    obtain ts usd where t: "event_ts si (ev_data x) = Inr ts" "event_value env x = Inr usd"
      using Cons(2) d Some by (auto simp: rbind_Inr_iff)
    let ?i = "ordinal_of ords (ev_name x)"
    let ?y = "entry_of si x s ?i ts usd"
    let ?ords = "dput (ev_name x) (?i + 1) ords"
    have y: "en_kind ?y = ev_name x" "en_eventIndex ?y = ?i" "indexed_as env ?y x"
      using t by (simp_all add: entry_of_def indexed_as_def)
    show ?thesis
    proof (cases "e = ?y")
      case True
      then show ?thesis using y Cons(4) by auto
    next
      case other: False
      have more: "\<not> ACTIVITY_MAX_ENTRIES \<le> length (entries @ [?y])"
      proof
        assume "ACTIVITY_MAX_ENTRIES \<le> length (entries @ [?y])"
        then have "new = [?y]" using Cons(2) d Some t by (simp add: Let_def)
        then show False using other Cons(3) by simp
      qed
      then have rest: "push_events env si es ?ords (entries @ [?y]) = Inr (entries @ new)"
        using Cons(2) d Some t by (simp add: Let_def)
      obtain new2 where n2: "entries @ new = (entries @ [?y]) @ new2" using push_events_result [OF rest] by blast
      then have e: "e \<in> set new2" using other Cons(3) by simp
      have "ordinal_of ?ords kind \<le> en_eventIndex e \<and>
          (\<exists>z. nth_event kind (en_eventIndex e) (ordinal_of ?ords kind) es = Some z \<and> indexed_as env e z)"
        by (rule Cons(1) [of ?ords "entries @ [?y]" new2, OF _ e Cons(4)]) (use rest n2 in simp)
      then show ?thesis by (auto simp: ordinal_dput split: if_splits)
    qed
  qed
qed

lemmas summarize_defs = summarizeActivityEvent_def summarize_trades_and_fees_def summarize_management_def
  summarize_settlement_def Let_def

lemma said_speaks [simp]:
  "said a ps \<noteq> Inr None" "said1 a ps vs k \<noteq> Inr None" "said2 a ps vs k vs' k' \<noteq> Inr None" "said_as_is a ps v k \<noteq> Inr None"
  by (auto simp: said_def said1_def said2_def said_as_is_def rbind_Inr_iff)

lemma said_passes [simp]:
  "rbind (said a ps) (\<lambda>r. case r of None \<Rightarrow> x | Some s \<Rightarrow> Inr (Some s)) = said a ps"
  "rbind (said1 a ps vs k) (\<lambda>r. case r of None \<Rightarrow> x | Some s \<Rightarrow> Inr (Some s)) = said1 a ps vs k"
  "rbind (said2 a ps vs k vs' k') (\<lambda>r. case r of None \<Rightarrow> x | Some s \<Rightarrow> Inr (Some s)) = said2 a ps vs k vs' k'"
  "rbind (said_as_is a ps v k) (\<lambda>r. case r of None \<Rightarrow> x | Some s \<Rightarrow> Inr (Some s)) = said_as_is a ps v k"
  by (auto simp: said_def said1_def said2_def said_as_is_def rbind_def split: sum.split)

lemma never_silent:
  "summarizeActivityEvent ld ''feeUsdcDistributed'' d \<noteq> Inr None" "summarizeActivityEvent ld ''mintFeePaidUsdc'' d \<noteq> Inr None"
  "summarizeActivityEvent ld ''reserveTokensMinted'' d \<noteq> Inr None" "summarizeActivityEvent ld ''reserveTokensRedeemed'' d \<noteq> Inr None"
  "summarizeActivityEvent ld ''reserveSeeded'' d \<noteq> Inr None" "summarizeActivityEvent ld ''rebalanceSwapExecuted'' d \<noteq> Inr None"
  "summarizeActivityEvent ld ''rebalanceLegExecuted'' d \<noteq> Inr None"
  by (simp_all add: summarize_defs)

lemma payout_kinds_summarised: "kind \<in> set FEE_PAYOUT_EVENT_KINDS \<Longrightarrow> summarizeActivityEvent ld kind d \<noteq> Inr None"
  unfolding FEE_PAYOUT_EVENT_KINDS_def using never_silent by auto

lemma volume_kinds_summarised: "kind \<in> set VOLUME_EVENT_KINDS \<Longrightarrow> summarizeActivityEvent ld kind d \<noteq> Inr None"
  unfolding VOLUME_EVENT_KINDS_def using never_silent by auto

lemma array_of_list [simp]: "array (DList vs) = Some vs"
  by (simp add: array_def)

lemma legs_case:
  "(case (array a, array b) of
      (Some ms, Some as) \<Rightarrow> Some \<lparr>al_mints = map pk ms, al_amounts = map (\<lambda>a. string_of (or_zero a)) as\<rparr>
    | _ \<Rightarrow> None) = Some legs \<Longrightarrow>
   valueAssetLegsUsd (al_mints legs) (al_amounts legs) (av_pricing w) = Inr v \<Longrightarrow> value_legs w a b = Inr (Some v)"
  by (auto simp: value_legs_def split: option.splits)

lemma volume_legs_value:
  assumes "volumeEventLegs name d = Some legs" and "name \<in> set VOLUME_EVENT_KINDS"
    and "valueLegsOrNull legs (av_pricing w) = Inr (Some v)"
  shows "valueActivityEventUsd name d w = Inr \<lparr>eu_amountUsd = Some v, eu_amountUsd2 = None\<rparr>"
proof -
  have v: "valueAssetLegsUsd (al_mints legs) (al_amounts legs) (av_pricing w) = Inr v"
    using assms(3) by (auto simp: valueLegsOrNull_def rbind_Inr_iff split: if_splits)
  have "name = ''reserveTokensMinted'' \<or> name = ''reserveTokensRedeemed'' \<or> name = ''reserveSeeded''
      \<or> name = ''rebalanceSwapExecuted'' \<or> name = ''rebalanceLegExecuted''"
    using assms(2) by (simp only: VOLUME_EVENT_KINDS_def list.set insert_iff empty_iff simp_thms)
  then show ?thesis
  proof (elim disjE)
    assume n1: "name = ''reserveTokensMinted''"
    have "value_legs w (field d ''assetMints'') (field d ''assetAmountsIn'') = Inr (Some v)"
      by (rule legs_case [OF _ v]) (use assms(1) n1 in \<open>simp add: volumeEventLegs_def array_of_list Let_def split: if_splits\<close>)
    then show ?thesis using n1 by (simp add: valueActivityEventUsd_def Let_def)
  next
    assume n2: "name = ''reserveTokensRedeemed''"
    have "value_legs w (field d ''assetMints'') (field d ''assetAmountsOut'') = Inr (Some v)"
      by (rule legs_case [OF _ v]) (use assms(1) n2 in \<open>simp add: volumeEventLegs_def array_of_list Let_def split: if_splits\<close>)
    then show ?thesis using n2 by (simp add: valueActivityEventUsd_def Let_def)
  next
    assume n3: "name = ''reserveSeeded''"
    have "value_legs w (field d ''assetMints'') (field d ''assetAmounts'') = Inr (Some v)"
      by (rule legs_case [OF _ v]) (use assms(1) n3 in \<open>simp add: volumeEventLegs_def array_of_list Let_def split: if_splits\<close>)
    then show ?thesis using n3 by (simp add: valueActivityEventUsd_def Let_def)
  next
    assume n4: "name = ''rebalanceSwapExecuted''"
    have "value_legs w (DList [field d ''mintSell'']) (DList [field d ''amountIn'']) = Inr (Some v)"
      by (rule legs_case [OF _ v]) (use assms(1) n4 in \<open>simp add: volumeEventLegs_def array_of_list Let_def split: if_splits\<close>)
    then show ?thesis using n4 by (simp add: valueActivityEventUsd_def Let_def)
  next
    assume n5: "name = ''rebalanceLegExecuted''"
    have "value_legs w (DList [field d ''mintSell'']) (DList [field d ''amountIn'']) = Inr (Some v)"
      by (rule legs_case [OF _ v]) (use assms(1) n5 in \<open>simp add: volumeEventLegs_def array_of_list Let_def split: if_splits\<close>)
    then show ?thesis using n5 by (simp add: valueActivityEventUsd_def Let_def)
  qed
qed


definition demo_mint :: "int \<Rightarrow> anchor_event" where
  "demo_mint n = \<lparr>ev_name = ''reserveTokensMinted'',
     ev_data = [(''depositor'', DKey ''P''), (''reserveTokensOut'', DBn n), (''mintFeeReserveTokens'', DBn 0),
                (''assetMints'', DList [DKey ''M'']), (''assetAmountsIn'', DList [DBn n])]\<rparr>"

definition demo_prices :: pricing where
  "demo_prices = [(''M'', \<lparr>ap_decimals = 0, ap_priceUsd = Fin 1\<rparr>)]"

definition priced_env :: "anchor_event list walk_env" where
  "priced_env = \<lparr>we_localeDate = (\<lambda>n. []), we_parseLogs = (\<lambda>es. es),
     we_valuation = Some \<lparr>av_pricing = demo_prices, av_navUsdPerRtRawUnit = None\<rparr>\<rparr>"

lemma demo_mint_summary: "\<exists>s. summarizeActivityEvent ld (ev_name (demo_mint n)) (ev_data (demo_mint n)) = Inr (Some s)"
  by (simp add: demo_mint_def summarize_defs said1_def field_def or_zero_def nullish_def bigint_of_printed)


end
