(* ===== verification/Ledger_Log.thy ===== *)
theory Ledger_Log
  imports Activity
begin

text \<open>
  \<open>lib/ledger/logWalker.ts\<close>: the events of a transaction's log lines, each with the
  instruction it came from. The walker keeps the stack of running programs; the theory
  shows that on the log of any tree of invocations it finds the events of that tree. The
  event decoder of Anchor is the parameter \<open>decode\<close>, \<open>None\<close> when it throws or finds nothing.
\<close>

section \<open>Log lines\<close>

definition is_base58 :: "char \<Rightarrow> bool" where
  "is_base58 c \<longleftrightarrow> (let n = code c in
     (49 \<le> n \<and> n \<le> 57) \<or> (65 \<le> n \<and> n \<le> 72) \<or> (74 \<le> n \<and> n \<le> 78) \<or> (80 \<le> n \<and> n \<le> 90) \<or> (97 \<le> n \<and> n \<le> 107)
     \<or> (109 \<le> n \<and> n \<le> 122))"

definition strip_prefix :: "string \<Rightarrow> string \<Rightarrow> string option" where
  "strip_prefix p s = (if take (length p) s = p then Some (drop (length p) s) else None)"

definition PROGRAM_LOG :: string where "PROGRAM_LOG = ''Program log: ''"
definition PROGRAM_DATA :: string where "PROGRAM_DATA = ''Program data: ''"

definition program_line :: "string \<Rightarrow> (string \<times> string) option" where
  \<comment> \<open>\<open>Program <address>\<close> and what follows\<close>
  "program_line s =
     (case strip_prefix ''Program '' s of
        None \<Rightarrow> None
      | Some r \<Rightarrow> (case takeWhile is_base58 r of [] \<Rightarrow> None | p \<Rightarrow> Some (p, dropWhile is_base58 r)))"

definition invoke_depth :: "string \<Rightarrow> bool" where
  \<comment> \<open>\<open> invoke [\<close>, digits, \<open>]\<close>\<close>
  "invoke_depth r =
     (case strip_prefix '' invoke ['' r of
        None \<Rightarrow> False
      | Some t \<Rightarrow> takeWhile is_digit t \<noteq> [] \<and> dropWhile is_digit t = '']'')"

definition INVOKE_RE :: "string \<Rightarrow> string option" where
  "INVOKE_RE s = (case program_line s of Some (p, r) \<Rightarrow> if invoke_depth r then Some p else None | None \<Rightarrow> None)"

definition SUCCESS_RE :: "string \<Rightarrow> bool" where
  "SUCCESS_RE s = (case program_line s of Some (p, r) \<Rightarrow> r = '' success'' | None \<Rightarrow> False)"

definition is_line_end :: "char \<Rightarrow> bool" where
  "is_line_end c \<longleftrightarrow> code c = 10 \<or> code c = 13"

definition INSTRUCTION_NAME_RE :: "string \<Rightarrow> string option" where
  "INSTRUCTION_NAME_RE s =
     (case strip_prefix ''Program log: Instruction: '' s of
        Some n \<Rightarrow> if n \<noteq> [] \<and> list_all (\<lambda>c. \<not> is_line_end c) n then Some n else None
      | None \<Rightarrow> None)"

section \<open>The walk\<close>

record located_event =
  le_event :: anchor_event
  le_instructionIndex :: int
  le_innerInstructionIndex :: "nat option"
  le_instructionName :: "string option"

record walk_state =
  ws_stack :: "string list"  \<comment> \<open>the program on top first\<close>
  ws_instructionIndex :: int
  ws_instructionName :: "string option"

definition pushTopLevelIfNeeded :: "string \<Rightarrow> walk_state \<Rightarrow> walk_state" where
  "pushTopLevelIfNeeded pid st =
     (let st' = (if ws_stack st = []
                 then st\<lparr>ws_instructionIndex := ws_instructionIndex st + 1, ws_instructionName := None\<rparr> else st) in
      st'\<lparr>ws_stack := pid # ws_stack st'\<rparr>)"

definition pop :: "walk_state \<Rightarrow> walk_state" where
  "pop st = st\<lparr>ws_stack := tl (ws_stack st)\<rparr>"

definition locate :: "walk_state \<Rightarrow> anchor_event \<Rightarrow> located_event" where
  "locate st e = \<lparr>le_event = e, le_instructionIndex = ws_instructionIndex st,
     le_innerInstructionIndex = (if length (ws_stack st) > 1 then Some (length (ws_stack st) - 2) else None),
     le_instructionName = ws_instructionName st\<rparr>"

definition walk_line :: "(string \<Rightarrow> anchor_event option) \<Rightarrow> string \<Rightarrow> walk_state \<Rightarrow> string \<Rightarrow> walk_state \<times> located_event list" where
  "walk_line decode programId st line =
     (case INVOKE_RE line of
        Some pid \<Rightarrow> (pushTopLevelIfNeeded pid st, [])
      | None \<Rightarrow>
          if ws_stack st \<noteq> [] \<and> hd (ws_stack st) = programId
          then (if strip_prefix PROGRAM_LOG line \<noteq> None \<or> strip_prefix PROGRAM_DATA line \<noteq> None
                then (case INSTRUCTION_NAME_RE line of
                        Some n \<Rightarrow> (st\<lparr>ws_instructionName := Some n\<rparr>, [])
                      | None \<Rightarrow>
                          (case strip_prefix PROGRAM_DATA line of
                             None \<Rightarrow> (st, [])
                           | Some body \<Rightarrow> (case decode body of None \<Rightarrow> (st, []) | Some e \<Rightarrow> (st, [locate st e]))))
                else if SUCCESS_RE line then (pop st, []) else (st, []))
          else if SUCCESS_RE line then (pop st, []) else (st, []))"

fun walk_lines :: "(string \<Rightarrow> anchor_event option) \<Rightarrow> string \<Rightarrow> walk_state \<Rightarrow> string list \<Rightarrow> walk_state \<times> located_event list" where
  "walk_lines decode programId st [] = (st, [])"
| "walk_lines decode programId st (l # ls) =
     (case walk_line decode programId st l of (st', es) \<Rightarrow>
      case walk_lines decode programId st' ls of (st'', es') \<Rightarrow> (st'', es @ es'))"

definition start_state :: walk_state where
  "start_state = \<lparr>ws_stack = [], ws_instructionIndex = -1, ws_instructionName = None\<rparr>"

definition parseLogsWithInstructionContext ::
  "string list \<Rightarrow> string \<Rightarrow> (string \<Rightarrow> anchor_event option) \<Rightarrow> located_event list" where
  "parseLogsWithInstructionContext logs programId decode =
     snd (walk_lines decode programId start_state (filter (\<lambda>l. strip_prefix ''Program '' l \<noteq> None) logs))"

section \<open>The log of a tree of invocations\<close>

datatype call = Call string "item list"
  and item = Inner call | Say string | Emit string | Note string
  \<comment> \<open>a nested invocation, a message, emitted data, and any other line of the runtime\<close>

fun render_call :: "nat \<Rightarrow> call \<Rightarrow> string list" and render_items :: "nat \<Rightarrow> item list \<Rightarrow> string list"
  and render_item :: "nat \<Rightarrow> item \<Rightarrow> string list" where
  "render_call d (Call pid items) =
     (''Program '' @ pid @ '' invoke ['' @ nat_str d @ '']'') # render_items d items @ [''Program '' @ pid @ '' success'']"
| "render_items d [] = []"
| "render_items d (i # its) = render_item d i @ render_items d its"
| "render_item d (Inner c) = render_call (d + 1) c"
| "render_item d (Say m) = [PROGRAM_LOG @ m]"
| "render_item d (Emit b) = [PROGRAM_DATA @ b]"
| "render_item d (Note l) = [l]"

definition note_ok :: "string \<Rightarrow> bool" where
  "note_ok l \<longleftrightarrow> INVOKE_RE l = None \<and> \<not> SUCCESS_RE l \<and> strip_prefix PROGRAM_LOG l = None \<and> strip_prefix PROGRAM_DATA l = None"

fun call_ok :: "call \<Rightarrow> bool" and item_ok :: "item \<Rightarrow> bool" where
  "call_ok (Call pid items) \<longleftrightarrow> pid \<noteq> [] \<and> list_all is_base58 pid \<and> list_all item_ok items"
| "item_ok (Inner c) \<longleftrightarrow> call_ok c"
| "item_ok (Say m) \<longleftrightarrow> True"
| "item_ok (Emit b) \<longleftrightarrow> True"
| "item_ok (Note l) \<longleftrightarrow> note_ok l"

definition name_of :: "string \<Rightarrow> string option" where
  "name_of m = INSTRUCTION_NAME_RE (PROGRAM_LOG @ m)"

text \<open>
  The events of a tree, at depth \<open>d\<close> (0 at the top) of top-level instruction \<open>i\<close>, with the
  instruction name last said by the program; the name runs through nested invocations.
\<close>

fun events_call :: "(string \<Rightarrow> anchor_event option) \<Rightarrow> string \<Rightarrow> int \<Rightarrow> nat \<Rightarrow> string option \<Rightarrow> call \<Rightarrow> string option \<times> located_event list"
  and events_items :: "(string \<Rightarrow> anchor_event option) \<Rightarrow> string \<Rightarrow> int \<Rightarrow> nat \<Rightarrow> string \<Rightarrow> string option \<Rightarrow> item list
    \<Rightarrow> string option \<times> located_event list"
  and events_item :: "(string \<Rightarrow> anchor_event option) \<Rightarrow> string \<Rightarrow> int \<Rightarrow> nat \<Rightarrow> string \<Rightarrow> string option \<Rightarrow> item
    \<Rightarrow> string option \<times> located_event list" where
  "events_call decode programId i d name (Call pid items) = events_items decode programId i d pid name items"
| "events_items decode programId i d pid name [] = (name, [])"
| "events_items decode programId i d pid name (it # its) =
     (case events_item decode programId i d pid name it of (name', es) \<Rightarrow>
      case events_items decode programId i d pid name' its of (name'', es') \<Rightarrow> (name'', es @ es'))"
| "events_item decode programId i d pid name (Inner c) = events_call decode programId i (d + 1) name c"
| "events_item decode programId i d pid name (Say m) =
     ((if pid = programId \<and> name_of m \<noteq> None then name_of m else name), [])"
| "events_item decode programId i d pid name (Emit b) =
     (name, if pid \<noteq> programId then []
            else case decode b of
                   None \<Rightarrow> []
                 | Some e \<Rightarrow> [\<lparr>le_event = e, le_instructionIndex = i,
                              le_innerInstructionIndex = (if d = 0 then None else Some (d - 1)), le_instructionName = name\<rparr>])"
| "events_item decode programId i d pid name (Note l) = (name, [])"

fun events_of_calls :: "(string \<Rightarrow> anchor_event option) \<Rightarrow> string \<Rightarrow> int \<Rightarrow> call list \<Rightarrow> located_event list" where
  "events_of_calls decode programId i [] = []"
| "events_of_calls decode programId i (c # cs) =
     snd (events_call decode programId i 0 None c) @ events_of_calls decode programId (i + 1) cs"

section \<open>The walk finds the events of the tree\<close>

lemma strip_prefix_append [simp]: "strip_prefix p (p @ s) = Some s"
  by (simp add: strip_prefix_def)

lemma program_line_rendered:
  assumes "pid \<noteq> []" and "list_all is_base58 pid" and "r \<noteq> [] \<longrightarrow> \<not> is_base58 (hd r)"
  shows "program_line (''Program '' @ pid @ r) = Some (pid, r)"
proof -
  have "takeWhile is_base58 (pid @ r) = pid" "dropWhile is_base58 (pid @ r) = r"
    using assms(2,3) by (cases r; auto simp: list_all_iff takeWhile_append dropWhile_append)+
  then show ?thesis using assms(1) strip_prefix_append [of "''Program ''" "pid @ r"]
    by (auto simp: program_line_def split: list.split)
qed

lemma invoke_depth_rendered: "invoke_depth ('' invoke ['' @ nat_str d @ '']'')"
proof -
  have "no_digit_first '']''" by (simp add: is_digit_def code_def)
  from takeWhile_digits [OF this, of d] have t: "takeWhile is_digit (nat_str d @ '']'') = nat_str d" .
  then have "dropWhile is_digit (nat_str d @ '']'') = '']''" by (metis same_append_eq takeWhile_dropWhile_id)
  then show ?thesis using t strip_prefix_append [of "'' invoke [''" "nat_str d @ '']''"] by (simp add: invoke_depth_def)
qed

lemma space_not_base58 [simp]: "\<not> is_base58 (CHR '' '')"
  by (simp add: is_base58_def code_def)

lemma INVOKE_RE_rendered:
  "pid \<noteq> [] \<Longrightarrow> list_all is_base58 pid \<Longrightarrow> INVOKE_RE (''Program '' @ pid @ '' invoke ['' @ nat_str d @ '']'') = Some pid"
  using program_line_rendered [of pid "'' invoke ['' @ nat_str d @ '']''"] invoke_depth_rendered [of d] by (simp add: INVOKE_RE_def)

lemma success_rendered:
  "pid \<noteq> [] \<Longrightarrow> list_all is_base58 pid \<Longrightarrow> INVOKE_RE (''Program '' @ pid @ '' success'') = None \<and>
   SUCCESS_RE (''Program '' @ pid @ '' success'')"
  using program_line_rendered [of pid "'' success''"] by (simp add: INVOKE_RE_def SUCCESS_RE_def invoke_depth_def strip_prefix_def)

lemma strip_prefix_SomeD: "strip_prefix p s = Some r \<Longrightarrow> s = p @ r"
  by (metis append_take_drop_id option.distinct(1) option.inject strip_prefix_def)

lemma program_line_message:
  "program_line (PROGRAM_LOG @ m) = None" "program_line (PROGRAM_DATA @ m) = Some (''data'', '': '' @ m)"
  by (simp_all add: program_line_def strip_prefix_def PROGRAM_LOG_def PROGRAM_DATA_def is_base58_def code_def)

lemma success_is_no_message:
  assumes "pid \<noteq> []" and "list_all is_base58 pid"
  shows "strip_prefix PROGRAM_LOG (''Program '' @ pid @ '' success'') = None \<and>
    strip_prefix PROGRAM_DATA (''Program '' @ pid @ '' success'') = None"
proof -
  let ?s = "''Program '' @ pid @ '' success''"
  have p: "program_line ?s = Some (pid, '' success'')" by (rule program_line_rendered [OF assms]) simp
  have "?s \<noteq> PROGRAM_LOG @ r" for r
  proof
    assume "?s = PROGRAM_LOG @ r"
    then have "program_line (PROGRAM_LOG @ r) = Some (pid, '' success'')" by (rule subst) (rule p)
    then show False by (simp add: program_line_message)
  qed
  moreover have "?s \<noteq> PROGRAM_DATA @ r" for r
  proof
    assume "?s = PROGRAM_DATA @ r"
    then have "program_line (PROGRAM_DATA @ r) = Some (pid, '' success'')" by (rule subst) (rule p)
    then show False by (simp add: program_line_message)
  qed
  ultimately show ?thesis by (meson not_Some_eq strip_prefix_SomeD)
qed

lemma message_lines:
  "INVOKE_RE (PROGRAM_LOG @ m) = None" "\<not> SUCCESS_RE (PROGRAM_LOG @ m)"
  "INVOKE_RE (PROGRAM_DATA @ m) = None" "\<not> SUCCESS_RE (PROGRAM_DATA @ m)"
  "INSTRUCTION_NAME_RE (PROGRAM_DATA @ m) = None" "strip_prefix PROGRAM_DATA (PROGRAM_LOG @ m) = None"
  by (simp_all add: INVOKE_RE_def SUCCESS_RE_def INSTRUCTION_NAME_RE_def program_line_def strip_prefix_def PROGRAM_LOG_def
      PROGRAM_DATA_def is_base58_def code_def invoke_depth_def)

definition keep_line :: "string \<Rightarrow> bool" where
  "keep_line l \<longleftrightarrow> strip_prefix ''Program '' l \<noteq> None"

lemma keep_rendered [simp]:
  "keep_line (''Program '' @ r)" "keep_line (PROGRAM_LOG @ m)" "keep_line (PROGRAM_DATA @ m)"
  using strip_prefix_append [of "''Program ''"] strip_prefix_append [of "''Program ''" "''log: '' @ m"]
    strip_prefix_append [of "''Program ''" "''data: '' @ m"]
  by (auto simp: keep_line_def PROGRAM_LOG_def PROGRAM_DATA_def)

lemma walk_lines_append:
  "walk_lines dec prog st (xs @ ys) =
     (case walk_lines dec prog st xs of (st', es) \<Rightarrow> case walk_lines dec prog st' ys of (st'', es') \<Rightarrow> (st'', es @ es'))"
  by (induction xs arbitrary: st) (auto split: prod.splits)

definition walked :: "(string \<Rightarrow> anchor_event option) \<Rightarrow> string \<Rightarrow> walk_state \<Rightarrow> string list \<Rightarrow> walk_state \<times> located_event list" where
  "walked dec prog st ls = walk_lines dec prog st (filter keep_line ls)"

lemma walked_append:
  "walked dec prog st (xs @ ys) =
     (case walked dec prog st xs of (st', es) \<Rightarrow> case walked dec prog st' ys of (st'', es') \<Rightarrow> (st'', es @ es'))"
  by (simp add: walked_def walk_lines_append)

lemma walked_one: "walked dec prog st [l] = (if keep_line l then walk_line dec prog st l else (st, []))"
  by (simp add: walked_def split: prod.split)

lemma walked_Nil: "walked dec prog st [] = (st, [])"
  by (simp add: walked_def)

definition running :: "string list \<Rightarrow> int \<Rightarrow> string option \<Rightarrow> walk_state" where
  "running stack i name = \<lparr>ws_stack = stack, ws_instructionIndex = i, ws_instructionName = name\<rparr>"

lemma running_simps [simp]:
  "ws_stack (running S i n) = S" "ws_instructionIndex (running S i n) = i" "ws_instructionName (running S i n) = n"
  by (simp_all add: running_def)

lemma enter:
  assumes "pid \<noteq> []" and "list_all is_base58 pid"
  shows "walked dec prog (running S i name) [''Program '' @ pid @ '' invoke ['' @ nat_str d @ '']''] =
    ((if S = [] then running [pid] (i + 1) None else running (pid # S) i name), [])"
  using INVOKE_RE_rendered [OF assms, of d]
  by (simp add: walked_one walk_line_def pushTopLevelIfNeeded_def running_def Let_def del: append.simps)

lemma leave:
  assumes "pid \<noteq> []" and "list_all is_base58 pid"
  shows "walked dec prog (running (q # S) i name) [''Program '' @ pid @ '' success''] = (running S i name, [])"
  using success_rendered [OF assms] success_is_no_message [OF assms]
  by (simp add: walked_one walk_line_def pop_def running_def del: append.simps)

lemma walked_call:
  assumes "pid \<noteq> []" and "list_all is_base58 pid"
    and "walked dec prog (if S = [] then running [pid] (i + 1) None else running (pid # S) i name) (render_items n its)
      = (running (pid # S) i' name', es)"
  shows "walked dec prog (running S i name) (render_call n (Call pid its)) = (running S i' name', es)"
proof -
  have "render_call n (Call pid its)
      = [''Program '' @ pid @ '' invoke ['' @ nat_str n @ '']''] @ render_items n its @ [''Program '' @ pid @ '' success'']"
    by simp
  then show ?thesis
    using assms(3) by (simp only: walked_append enter [OF assms(1,2)] leave [OF assms(1,2)] prod.case append_Nil append_Nil2)
qed

lemma walk_tree:
  fixes c :: call and its :: "item list" and it :: item
  shows "call_ok c \<Longrightarrow> S \<noteq> [] \<Longrightarrow> walked dec prog (running S i name) (render_call n c) =
      (case events_call dec prog i (length S) name c of (name', es) \<Rightarrow> (running S i name', es))"
    and "list_all item_ok its \<Longrightarrow> walked dec prog (running (pid # S) i name) (render_items n its) =
      (case events_items dec prog i (length S) pid name its of (name', es) \<Rightarrow> (running (pid # S) i name', es))"
    and "item_ok it \<Longrightarrow> walked dec prog (running (pid # S) i name) (render_item n it) =
      (case events_item dec prog i (length S) pid name it of (name', es) \<Rightarrow> (running (pid # S) i name', es))"
proof (induction n c and n its and n it arbitrary: S i name and pid S i name and pid S i name
    rule: render_call_render_items_render_item.induct)
  case (1 d pid items)
  then have ok: "pid \<noteq> []" "list_all is_base58 pid" by simp_all
  obtain name' es where e: "events_items dec prog i (length S) pid name items = (name', es)" by fastforce
  have "walked dec prog (running (pid # S) i name) (render_items d items) = (running (pid # S) i name', es)"
    using 1(1) [of pid S i name] 1(2) e by simp
  then show ?case using walked_call [OF ok, of dec prog S i name d items i name' es] 1(3) e by simp
next
  case (2 d)
  then show ?case by (simp add: walked_Nil)
next
  case (3 d it its)
  then show ?case by (simp add: walked_append split: prod.split)
next
  case (4 d c)
  then show ?case by simp
next
  case (5 d m)
  then show ?case by (auto simp: walked_one walk_line_def message_lines name_of_def running_def split: option.split)
next
  case (6 d b)
  then show ?case by (auto simp: walked_one walk_line_def message_lines locate_def split: option.split)
next
  case (7 d l)
  then show ?case by (auto simp: walked_one walk_line_def note_ok_def)
qed

lemma walk_top:
  assumes "call_ok c"
  shows "walked dec prog (running [] i name) (render_call n c) =
    (case events_call dec prog (i + 1) 0 None c of (name', es) \<Rightarrow> (running [] (i + 1) name', es))"
proof (cases c)
  case (Call pid items)
  then have ok: "pid \<noteq> []" "list_all is_base58 pid" "list_all item_ok items" using assms by simp_all
  obtain name' es where e: "events_items dec prog (i + 1) 0 pid None items = (name', es)" by fastforce
  have "walked dec prog (running [pid] (i + 1) None) (render_items n items) = (running [pid] (i + 1) name', es)"
    using walk_tree(2) [OF ok(3), of dec prog pid "[]" "i + 1" None] e by simp
  then show ?thesis using walked_call [OF ok(1,2), of dec prog "[]" i name n items "i + 1" name' es] e Call by simp
qed

lemma walk_calls:
  "list_all call_ok cs \<Longrightarrow> snd (walked dec prog (running [] i name) (concat (map (render_call 1) cs))) = events_of_calls dec prog (i + 1) cs"
proof (induction cs arbitrary: i name)
  case Nil
  then show ?case by (simp add: walked_Nil)
next
  case (Cons c cs)
  obtain name' es where e: "events_call dec prog (i + 1) 0 None c = (name', es)" by fastforce
  show ?case using Cons(1) [of "i + 1" name'] Cons(2) walk_top [of c dec prog i name 1] e
    by (simp add: walked_append split: prod.splits) (metis snd_conv)
qed

text \<open>C13: On the log of any sequence of invocation trees the walker returns exactly the events the program emitted, in
  order, each with its top-level instruction, its nesting depth and the instruction name last said.\<close>

theorem log_walk_finds_events:
  assumes "list_all call_ok calls"
  shows "parseLogsWithInstructionContext (concat (map (render_call 1) calls)) programId decode =
    events_of_calls decode programId 0 calls"
  using walk_calls [OF assms, of decode programId "-1" None]
  by (simp add: parseLogsWithInstructionContext_def walked_def running_def start_state_def keep_line_def [abs_def])

theorem log_walk_finds_events_witness:
  "map (\<lambda>e. (le_instructionIndex e, le_innerInstructionIndex e, le_instructionName e))
     (parseLogsWithInstructionContext
        (concat (map (render_call 1) [Call ''C'' [Note ''x''],
           Call ''R'' [Say ''Instruction: Go'', Inner (Call ''S'' [Say ''Instruction: Mint'', Emit ''e''])]]))
        ''S'' (\<lambda>b. Some \<lparr>ev_name = b, ev_data = []\<rparr>)) = [(1, Some 0, Some ''Mint'')]"
proof -
  let ?calls = "[Call ''C'' [Note ''x''], Call ''R'' [Say ''Instruction: Go'', Inner (Call ''S'' [Say ''Instruction: Mint'', Emit ''e''])]]"
  have "list_all call_ok ?calls" by code_simp
  from log_walk_finds_events [OF this, of "''S''" "\<lambda>b. Some \<lparr>ev_name = b, ev_data = []\<rparr>"] show ?thesis
    by (simp only:) code_simp
qed

end
