(* ===== verification/Ledger.thy ===== *)
theory Ledger
  imports Ledger_Log
begin

text \<open>
  The rows of the protocol's ledger: the identity of an event (\<open>lib/ledger/eventId.ts\<close>),
  amounts, prices and actor roles (\<open>amounts.ts\<close>), the accounts and revenues of an event
  (\<open>fieldExtraction.ts\<close>), the row built from an event and its transaction
  (\<open>decodeEvent.ts\<close>) and its CSV form (\<open>csv.ts\<close>). The clock is the argument \<open>now\<close>, in
  milliseconds.
\<close>

section \<open>Event identity\<close>

record onchain_id =
  oi_cluster :: string
  oi_signature :: string
  oi_eventType :: string
  oi_instructionIndex :: "int option"
  oi_innerInstructionIndex :: "int option"
  oi_eventIndex :: "int option"

datatype id_part = IdText string | IdNumber int

datatype event_id_input = Onchain onchain_id | Dated bool string string "id_part list"
  \<comment> \<open>the flag of a dated event: lifecycle, or operational\<close>

definition id_text :: "id_part \<Rightarrow> string" where
  "id_text p = (case p of IdText s \<Rightarrow> s | IdNumber n \<Rightarrow> int_str n)"

definition NONE :: string where "NONE = ''-''"

definition index_or_none :: "int option \<Rightarrow> string" where
  "index_or_none i = (case i of Some n \<Rightarrow> int_str n | None \<Rightarrow> NONE)"

definition buildEventId :: "event_id_input \<Rightarrow> string" where
  "buildEventId input =
     (case input of
        Onchain i \<Rightarrow> join '':'' [''onchain'', oi_cluster i, oi_signature i, oi_eventType i, index_or_none (oi_instructionIndex i),
                              index_or_none (oi_innerInstructionIndex i), index_or_none (oi_eventIndex i)]
      | Dated lifecycle cluster eventType dedupeParts \<Rightarrow>
          join '':'' ([if lifecycle then ''lifecycle'' else ''operational'', cluster, eventType] @ map id_text dedupeParts))"

section \<open>Amounts and roles\<close>

definition normalizeRawAmount :: "string option \<Rightarrow> nat option \<Rightarrow> number option" where
  "normalizeRawAmount raw decimals =
     (case (raw, decimals) of
        (Some r, Some k) \<Rightarrow> (case bigint_of r of Inl _ \<Rightarrow> None | Inr big \<Rightarrow> Some (num_div (num_of_int big) (pow10 k)))
      | _ \<Rightarrow> None)"

datatype price_source = Devnet_fixed_test_price | Pyth | Reserve_token_nav_approximation | Usdc_par | Unavailable

record usd_valuation =
  uv_usdPriceAtEvent :: "number option"
  uv_usdPriceSource :: price_source
  uv_usdValueAtEvent :: "number option"

definition computeUsdValuation :: "number option \<Rightarrow> number option \<Rightarrow> price_source \<Rightarrow> usd_valuation" where
  "computeUsdValuation amount price source =
     (case (amount, price) of
        (Some a, Some p) \<Rightarrow>
          if source = Unavailable
          then \<lparr>uv_usdPriceAtEvent = None, uv_usdPriceSource = Unavailable, uv_usdValueAtEvent = None\<rparr>
          else \<lparr>uv_usdPriceAtEvent = Some p, uv_usdPriceSource = source, uv_usdValueAtEvent = Some (num_mul a p)\<rparr>
      | _ \<Rightarrow> \<lparr>uv_usdPriceAtEvent = None, uv_usdPriceSource = Unavailable, uv_usdValueAtEvent = None\<rparr>)"

definition sumRawAmounts :: "string option list \<Rightarrow> activity_error + string" where
  "sumRawAmounts vals =
     rbind (rmap (\<lambda>v. bigint_of (case v of Some s \<Rightarrow> if s \<noteq> [] then s else ''0'' | None \<Rightarrow> ''0'')) vals) (\<lambda>ns.
     Inr (int_str (sum_list ns)))"

datatype actor_role = Creator | Manager | Delegate_role | Protocol_role | Keeper | Holder | Unknown

record actor_context =
  ac_reserveManager :: "string option"
  ac_reserveCreator :: "string option"
  ac_knownDelegates :: "string list"
  ac_protocolTreasury :: "string option"
  ac_isKeeperTriggered :: bool

definition truthy_eq :: "string option \<Rightarrow> string \<Rightarrow> bool" where
  \<comment> \<open>\<open>x && actor === x\<close>\<close>
  "truthy_eq x actor \<longleftrightarrow> x = Some actor \<and> actor \<noteq> []"

definition classifyActorRole :: "string option \<Rightarrow> actor_context \<Rightarrow> actor_role" where
  "classifyActorRole actorWallet c =
     (case actorWallet of
        None \<Rightarrow> Unknown
      | Some a \<Rightarrow>
          if a = [] then Unknown
          else if ac_isKeeperTriggered c then Keeper
          else if truthy_eq (ac_protocolTreasury c) a then Protocol_role
          else if truthy_eq (ac_reserveManager c) a then Manager
          else if truthy_eq (ac_reserveCreator c) a then Creator
          else if a \<in> set (ac_knownDelegates c) then Delegate_role
          else Holder)"

section \<open>Accounts and revenues\<close>

definition key_or_null :: "dval \<Rightarrow> string option" where
  \<comment> \<open>\<open>pk\<close> of this file: null for anything but a key\<close>
  "key_or_null v = (case v of DKey a \<Rightarrow> Some a | _ \<Rightarrow> None)"

record ledger_fields =
  lf_sourceAccount :: "string option"
  lf_destinationAccount :: "string option"
  lf_vault :: "string option"
  lf_feeAmountRaw :: "string option"
  lf_feeDestination :: "string option"
  lf_protocolRevenueRaw :: "string option"
  lf_managerRevenueRaw :: "string option"
  lf_extraAmountRaw :: "string option"  \<comment> \<open>its kind is always \<open>assetFunding\<close>\<close>

definition EMPTY :: ledger_fields where
  "EMPTY = \<lparr>lf_sourceAccount = None, lf_destinationAccount = None, lf_vault = None, lf_feeAmountRaw = None,
     lf_feeDestination = None, lf_protocolRevenueRaw = None, lf_managerRevenueRaw = None, lf_extraAmountRaw = None\<rparr>"

definition sum_text :: "dval list \<Rightarrow> activity_error + string" where
  \<comment> \<open>\<open>addBig(...).toString()\<close>\<close>
  "sum_text vs = rbind (addBig vs) (\<lambda>n. Inr (int_str n))"

definition protocol_transfer :: "dval \<Rightarrow> dval \<Rightarrow> activity_error + ledger_fields" where
  "protocol_transfer destination amount =
     rbind (sum_text [amount]) (\<lambda>n.
     Inr (EMPTY\<lparr>lf_destinationAccount := key_or_null destination, lf_feeAmountRaw := Some n,
                lf_feeDestination := key_or_null destination, lf_protocolRevenueRaw := Some n\<rparr>))"

definition with_manager_revenue :: "dval list \<Rightarrow> ledger_fields \<Rightarrow> activity_error + ledger_fields" where
  "with_manager_revenue vs f = rbind (sum_text vs) (\<lambda>n. Inr (f\<lparr>lf_managerRevenueRaw := Some n\<rparr>))"

definition revenue_split :: "dval \<Rightarrow> dval \<Rightarrow> activity_error + ledger_fields" where
  "revenue_split protocol manager =
     rbind (sum_text [protocol]) (\<lambda>n. with_manager_revenue [manager] (EMPTY\<lparr>lf_protocolRevenueRaw := Some n\<rparr>))"

definition extractLedgerFields :: "string \<Rightarrow> event_data \<Rightarrow> activity_error + ledger_fields" where
  "extractLedgerFields name d =
     (let f = field d in
      if name \<in> {''reserveAssetInitialized'', ''reserveAssetAdded''} then Inr (EMPTY\<lparr>lf_vault := key_or_null (f ''vault'')\<rparr>)
      else if name = ''reserveAssetFunded'' then
        rbind (sum_text [f ''amount'']) (\<lambda>n.
        Inr (EMPTY\<lparr>lf_vault := key_or_null (f ''vault''), lf_destinationAccount := key_or_null (f ''vault''),
                   lf_extraAmountRaw := Some n\<rparr>))
      else if name = ''reserveAssetRemoved'' then Inr (EMPTY\<lparr>lf_vault := key_or_null (f ''vault'')\<rparr>)
      else if name = ''protocolMintFeeTransferred'' then protocol_transfer (f ''destination'') (f ''amount'')
      else if name = ''protocolFeeCollected'' then protocol_transfer (f ''destination'') (f ''amount'')
      else if name = ''tvlFeeSettled'' then
        rbind (protocol_transfer (f ''protocolDestination'') (f ''protocolFeeShares''))
          (with_manager_revenue [f ''managerFeeShares''])
      else if name = ''feeVaultCredited'' then revenue_split (f ''protocolShares'') (f ''managerShares'')
      else if name = ''mintFeePaidUsdc'' then
        rbind (protocol_transfer (f ''protocolDestination'') (f ''protocolUsdc'')) (\<lambda>r.
        with_manager_revenue [f ''managerUsdc''] (r\<lparr>lf_sourceAccount := key_or_null (f ''payer'')\<rparr>))
      else if name = ''feesAccrued'' then revenue_split (f ''protocolFeeSharesAccrued'') (f ''managerFeeSharesAccrued'')
      else if name = ''feesCollected'' then revenue_split (f ''protocolFeeSharesMinted'') (f ''managerFeeSharesMinted'')
      else if name = ''managerFeeShareAccrued'' then with_manager_revenue (array_or_empty (f ''amounts'')) EMPTY
      else if name = ''managerFeeShareCollected'' then
        rbind (sum_text [f ''amount'']) (\<lambda>n.
        Inr (EMPTY\<lparr>lf_destinationAccount := key_or_null (f ''recipient''), lf_feeAmountRaw := Some n,
                   lf_feeDestination := key_or_null (f ''recipient'')\<rparr>))
      else if name = ''reserveTokensMinted'' then Inr (EMPTY\<lparr>lf_sourceAccount := key_or_null (f ''depositor'')\<rparr>)
      else if name = ''reserveTokensRedeemed'' then Inr (EMPTY\<lparr>lf_sourceAccount := key_or_null (f ''redeemer'')\<rparr>)
      else if name = ''rebalanceLegExecuted''
      then Inr (EMPTY\<lparr>lf_sourceAccount := key_or_null (f ''mintSell''), lf_destinationAccount := key_or_null (f ''mintBuy'')\<rparr>)
      else Inr EMPTY)"

section \<open>Dates\<close>

definition day_from_year :: "int \<Rightarrow> int" where
  "day_from_year y = 365 * (y - 1970) + (y - 1969) div 4 - (y - 1901) div 100 + (y - 1601) div 400"

definition year_of_day :: "int \<Rightarrow> int" where
  "year_of_day d =
     (let y = 1970 + (d * 400) div 146097 in
      if day_from_year y > d then y - 1 else if day_from_year (y + 1) \<le> d then y + 1 else y)"

definition is_leap :: "int \<Rightarrow> bool" where
  "is_leap y \<longleftrightarrow> y mod 4 = 0 \<and> (y mod 100 \<noteq> 0 \<or> y mod 400 = 0)"

fun month_and_day :: "int \<Rightarrow> int list \<Rightarrow> int \<Rightarrow> int \<times> int" where
  "month_and_day m [] d = (m, d + 1)"
| "month_and_day m (l # ls) d = (if d < l then (m, d + 1) else month_and_day (m + 1) ls (d - l))"

definition pad2 :: "int \<Rightarrow> string" where
  "pad2 n = pad_left 2 (int_str n)"

definition iso_year :: "int \<Rightarrow> string" where
  "iso_year y = (if 0 \<le> y \<and> y \<le> 9999 then pad_left 4 (int_str y)
                 else (if y < 0 then ''-'' else ''+'') @ pad_left 6 (int_str \<bar>y\<bar>))"

datatype ledger_error = InvalidDate | BadAmount activity_error

definition toISOString :: "int \<Rightarrow> ledger_error + string" where
  \<comment> \<open>of a time in milliseconds\<close>
  "toISOString ms =
     (if \<bar>ms\<bar> > 8640000000000000 then Inl InvalidDate
      else
        let d = ms div 86400000; t = ms mod 86400000; y = year_of_day d in
        case month_and_day 1 [31, if is_leap y then 29 else 28, 31, 30, 31, 30, 31, 31, 30, 31, 30, 31] (d - day_from_year y) of
          (m, day) \<Rightarrow>
            Inr (iso_year y @ ''-'' @ pad2 m @ ''-'' @ pad2 day @ ''T'' @ pad2 (t div 3600000) @ '':'' @ pad2 (t div 60000 mod 60)
                 @ '':'' @ pad2 (t div 1000 mod 60) @ ''.'' @ pad_left 3 (int_str (t mod 1000)) @ ''Z''))"

section \<open>Rows\<close>

text \<open>A row's \<open>category\<close> is always \<open>onchain\<close>.\<close>

record ledger_row =
  lr_event_id :: string
  lr_cluster :: string
  lr_program_id :: string
  lr_signature :: string
  lr_slot :: "int option"
  lr_block_time_unix :: "int option"
  lr_event_ts_utc :: string
  lr_event_date_utc :: string
  lr_instruction_index :: "int option"
  lr_inner_instruction_index :: "int option"
  lr_event_index :: "int option"
  lr_instruction_name :: "string option"
  lr_event_type :: string
  lr_status :: string
  lr_error_code :: "string option"
  lr_error_message :: "string option"
  lr_actor_wallet :: "string option"
  lr_actor_role :: actor_role
  lr_fee_payer :: "string option"
  lr_reserve :: "string option"
  lr_reserve_token_mint :: "string option"
  lr_reserve_asset_mint :: "string option"
  lr_source_account :: "string option"
  lr_destination_account :: "string option"
  lr_vault :: "string option"
  lr_amount_raw :: "string option"
  lr_amount_decimals :: "nat option"
  lr_amount_normalized :: "number option"
  lr_amount_kind :: "string option"
  lr_usd_price_at_event :: "number option"
  lr_usd_price_source :: price_source
  lr_usd_value_at_event :: "number option"
  lr_fee_amount_raw :: "string option"
  lr_fee_destination :: "string option"
  lr_protocol_revenue_raw :: "string option"
  lr_manager_revenue_raw :: "string option"
  lr_compute_units_consumed :: "int option"
  lr_network_fee_lamports :: "int option"
  lr_priority_fee_lamports :: "int option"
  lr_confirmation_status :: "string option"
  lr_summary :: string
  lr_ingestion_source :: string
  lr_decoder_version :: int

record transaction_context =
  tc_cluster :: string
  tc_programId :: string
  tc_signature :: string
  tc_slot :: "int option"
  tc_blockTimeUnix :: "int option"
  tc_transactionFailed :: bool
  tc_errorCode :: "string option"
  tc_errorMessage :: "string option"
  tc_feePayer :: "string option"
  tc_computeUnitsConsumed :: "int option"
  tc_networkFeeLamports :: "int option"
  tc_priorityFeeLamports :: "int option"
  tc_confirmationStatus :: "string option"
  tc_instructionIndex :: "int option"
  tc_innerInstructionIndex :: "int option"
  tc_instructionName :: "string option"
  tc_eventIndex :: "int option"
  tc_ingestionSource :: string
  tc_decoderVersion :: "int option"

record row_options =
  ro_reserve :: "string option"
  ro_reserveTokenMint :: "string option"
  ro_reserveAssetMint :: "string option"
  ro_decimals :: "nat option"
  ro_usdPricing :: "(number option \<times> price_source) option"
  ro_actorRoleContext :: actor_context

definition USDC_DECIMALS :: nat where "USDC_DECIMALS = 6"

definition kind_text :: "amount_kind \<Rightarrow> string" where
  "kind_text k = (case k of MintVolume \<Rightarrow> ''mintVolume'' | RedeemVolume \<Rightarrow> ''redeemVolume'' | RebalanceVolume \<Rightarrow> ''rebalanceVolume''
     | ProtocolFee \<Rightarrow> ''protocolFee'' | ManagerFee \<Rightarrow> ''managerFee'' | ManagerFeeClaimed \<Rightarrow> ''managerFeeClaimed''
     | ProtocolFeeUsdc \<Rightarrow> ''protocolFeeUsdc'' | ManagerFeeUsdc \<Rightarrow> ''managerFeeUsdc'')"

definition truthy_text :: "string option \<Rightarrow> bool" where
  "truthy_text s \<longleftrightarrow> s \<noteq> None \<and> s \<noteq> Some []"

definition event_time :: "int \<Rightarrow> transaction_context \<Rightarrow> ledger_error + string" where
  \<comment> \<open>\<open>now\<close> in milliseconds stands in for a missing block time\<close>
  "event_time now tx = toISOString ((case tc_blockTimeUnix tx of Some t \<Rightarrow> t | None \<Rightarrow> now div 1000) * 1000)"

definition lift_amount :: "activity_error + 'a \<Rightarrow> ledger_error + 'a" where
  "lift_amount r = (case r of Inl e \<Rightarrow> Inl (BadAmount e) | Inr x \<Rightarrow> Inr x)"

record row_amount =
  ra_raw :: "string option"
  ra_kind :: "string option"
  ra_decimals :: "nat option"
  ra_pricing :: "number option \<times> price_source"

definition row_amount_of :: "activity_summary \<Rightarrow> ledger_fields \<Rightarrow> row_options \<Rightarrow> row_amount" where
  "row_amount_of s x opts =
     (let raw = (case sm_amountRaw s of Some r \<Rightarrow> Some r | None \<Rightarrow> lf_extraAmountRaw x);
          usdc = (truthy_text (sm_amountRaw s) \<and> (case sm_amountKind s of Some k \<Rightarrow> k \<in> set USDC_DENOMINATED_AMOUNT_KINDS | None \<Rightarrow> False)) in
      \<lparr>ra_raw = raw,
       ra_kind = (if truthy_text (sm_amountRaw s) then map_option kind_text (sm_amountKind s)
                  else map_option (\<lambda>_. ''assetFunding'') (lf_extraAmountRaw x)),
       ra_decimals = (if truthy_text (sm_amountRaw s) then (if usdc then Some USDC_DECIMALS else ro_decimals opts) else None),
       ra_pricing = (if usdc then (Some (Fin 1), Usdc_par)
                     else case ro_usdPricing opts of Some p \<Rightarrow> p | None \<Rightarrow> (None, Unavailable))\<rparr>)"

definition onchain_event_id :: "transaction_context \<Rightarrow> string \<Rightarrow> string" where
  "onchain_event_id tx eventType =
     buildEventId (Onchain \<lparr>oi_cluster = tc_cluster tx, oi_signature = tc_signature tx, oi_eventType = eventType,
       oi_instructionIndex = tc_instructionIndex tx, oi_innerInstructionIndex = tc_innerInstructionIndex tx,
       oi_eventIndex = tc_eventIndex tx\<rparr>)"

definition buildLedgerEventRecord ::
  "(number \<Rightarrow> string) \<Rightarrow> int \<Rightarrow> anchor_event \<Rightarrow> transaction_context \<Rightarrow> row_options \<Rightarrow> ledger_error + ledger_row option" where
  "buildLedgerEventRecord localeDate now event tx opts =
     rbind (lift_amount (summarizeActivityEvent localeDate (ev_name event) (ev_data event))) (\<lambda>decoded.
     case decoded of
       None \<Rightarrow> Inr None
     | Some s \<Rightarrow>
         rbind (event_time now tx) (\<lambda>ts.
         rbind (lift_amount (extractLedgerFields (ev_name event) (ev_data event))) (\<lambda>x.
         let a = row_amount_of s x opts;
             normalized = normalizeRawAmount (ra_raw a) (ra_decimals a);
             usd = computeUsdValuation normalized (fst (ra_pricing a)) (snd (ra_pricing a)) in
         Inr (Some \<lparr>
           lr_event_id = onchain_event_id tx (ev_name event), lr_cluster = tc_cluster tx,
           lr_program_id = tc_programId tx, lr_signature = tc_signature tx, lr_slot = tc_slot tx,
           lr_block_time_unix = tc_blockTimeUnix tx, lr_event_ts_utc = ts, lr_event_date_utc = take 10 ts,
           lr_instruction_index = tc_instructionIndex tx, lr_inner_instruction_index = tc_innerInstructionIndex tx,
           lr_event_index = tc_eventIndex tx, lr_instruction_name = tc_instructionName tx,
           lr_event_type = ev_name event,
           lr_status = (if tc_transactionFailed tx then ''failed'' else ''confirmed''),
           lr_error_code = (if tc_transactionFailed tx then tc_errorCode tx else None),
           lr_error_message = (if tc_transactionFailed tx then tc_errorMessage tx else None),
           lr_actor_wallet = sm_actor s, lr_actor_role = classifyActorRole (sm_actor s) (ro_actorRoleContext opts),
           lr_fee_payer = tc_feePayer tx, lr_reserve = ro_reserve opts,
           lr_reserve_token_mint = ro_reserveTokenMint opts, lr_reserve_asset_mint = ro_reserveAssetMint opts,
           lr_source_account = lf_sourceAccount x, lr_destination_account = lf_destinationAccount x,
           lr_vault = lf_vault x, lr_amount_raw = ra_raw a, lr_amount_decimals = ra_decimals a,
           lr_amount_normalized = normalized, lr_amount_kind = ra_kind a,
           lr_usd_price_at_event = uv_usdPriceAtEvent usd, lr_usd_price_source = uv_usdPriceSource usd,
           lr_usd_value_at_event = uv_usdValueAtEvent usd, lr_fee_amount_raw = lf_feeAmountRaw x,
           lr_fee_destination = lf_feeDestination x, lr_protocol_revenue_raw = lf_protocolRevenueRaw x,
           lr_manager_revenue_raw = lf_managerRevenueRaw x, lr_compute_units_consumed = tc_computeUnitsConsumed tx,
           lr_network_fee_lamports = tc_networkFeeLamports tx,
           lr_priority_fee_lamports = tc_priorityFeeLamports tx, lr_confirmation_status = tc_confirmationStatus tx,
           lr_summary = sm_summary s, lr_ingestion_source = tc_ingestionSource tx,
           lr_decoder_version = (case tc_decoderVersion tx of Some v \<Rightarrow> v | None \<Rightarrow> 1)\<rparr>))))"

definition buildFailedTransactionRecord :: "int \<Rightarrow> transaction_context \<Rightarrow> ledger_error + ledger_row" where
  "buildFailedTransactionRecord now tx =
     rbind (event_time now tx) (\<lambda>ts.
     Inr \<lparr>
       lr_event_id = buildEventId (Onchain \<lparr>oi_cluster = tc_cluster tx, oi_signature = tc_signature tx, oi_eventType = ''transactionFailed'',
       oi_instructionIndex = None, oi_innerInstructionIndex = None, oi_eventIndex = None\<rparr>),
       lr_cluster = tc_cluster tx, lr_program_id = tc_programId tx, lr_signature = tc_signature tx,
       lr_slot = tc_slot tx, lr_block_time_unix = tc_blockTimeUnix tx, lr_event_ts_utc = ts,
       lr_event_date_utc = take 10 ts, lr_instruction_index = tc_instructionIndex tx,
       lr_inner_instruction_index = tc_innerInstructionIndex tx, lr_event_index = None,
       lr_instruction_name = tc_instructionName tx, lr_event_type = ''transactionFailed'', lr_status = ''failed'',
       lr_error_code = tc_errorCode tx, lr_error_message = tc_errorMessage tx, lr_actor_wallet = tc_feePayer tx,
       lr_actor_role = Unknown, lr_fee_payer = tc_feePayer tx, lr_reserve = None, lr_reserve_token_mint = None,
       lr_reserve_asset_mint = None, lr_source_account = None, lr_destination_account = None, lr_vault = None,
       lr_amount_raw = None, lr_amount_decimals = None, lr_amount_normalized = None, lr_amount_kind = None,
       lr_usd_price_at_event = None, lr_usd_price_source = Unavailable, lr_usd_value_at_event = None,
       lr_fee_amount_raw = None, lr_fee_destination = None, lr_protocol_revenue_raw = None,
       lr_manager_revenue_raw = None, lr_compute_units_consumed = tc_computeUnitsConsumed tx,
       lr_network_fee_lamports = tc_networkFeeLamports tx, lr_priority_fee_lamports = tc_priorityFeeLamports tx,
       lr_confirmation_status = tc_confirmationStatus tx,
       lr_summary = ''Transaction failed'' @ (if truthy_text (tc_instructionName tx) then '' during '' @ the (tc_instructionName tx) else [])
         @ (if truthy_text (tc_errorMessage tx) then '': '' @ the (tc_errorMessage tx) else []),
       lr_ingestion_source = tc_ingestionSource tx,
       lr_decoder_version = (case tc_decoderVersion tx of Some v \<Rightarrow> v | None \<Rightarrow> 1)\<rparr>)"


section \<open>CSV\<close>

definition needs_quotes :: "string \<Rightarrow> bool" where
  "needs_quotes s \<longleftrightarrow> list_ex (\<lambda>c. c = dquote \<or> c = CHR '','' \<or> code c = 10 \<or> code c = 13) s"

definition double_quotes :: "string \<Rightarrow> string" where
  "double_quotes s = concat (map (\<lambda>c. if c = dquote then [dquote, dquote] else [c]) s)"

definition csvField :: "string option \<Rightarrow> string" where
  \<comment> \<open>the argument is \<open>String(value)\<close>, or null\<close>
  "csvField v = (let s = (case v of Some s \<Rightarrow> s | None \<Rightarrow> []) in if needs_quotes s then dquote # double_quotes s @ [dquote] else s)"

definition csvRow :: "string option list \<Rightarrow> string" where
  "csvRow cells = join '','' (map csvField cells) @ [CHR 0x0D, CHR 0x0A]"

definition LEDGER_EVENT_CSV_COLUMNS :: "string list" where
  "LEDGER_EVENT_CSV_COLUMNS =
     [''event_id'', ''cluster'', ''program_id'', ''signature'', ''slot'', ''block_time_unix'', ''event_ts_utc'', ''event_date_utc'',
      ''instruction_index'', ''inner_instruction_index'', ''event_index'', ''instruction_name'', ''event_type'', ''category'',
      ''status'', ''error_code'', ''error_message'', ''actor_wallet'', ''actor_role'', ''fee_payer'', ''reserve'',
      ''reserve_token_mint'', ''reserve_asset_mint'', ''source_account'', ''destination_account'', ''vault'', ''amount_raw'',
      ''amount_decimals'', ''amount_normalized'', ''amount_kind'', ''usd_price_at_event'', ''usd_price_source'',
      ''usd_value_at_event'', ''fee_amount_raw'', ''fee_destination'', ''protocol_revenue_raw'', ''manager_revenue_raw'',
      ''compute_units_consumed'', ''network_fee_lamports'', ''priority_fee_lamports'', ''confirmation_status'', ''summary'',
      ''ingestion_source'', ''ingestion_ts'', ''decoder_version'']"

definition ledgerEventCsvHeader :: string where
  "ledgerEventCsvHeader = csvRow (map Some LEDGER_EVENT_CSV_COLUMNS)"

definition ledgerEventToCsvRow :: "(string \<Rightarrow> string option) \<Rightarrow> string" where
  "ledgerEventToCsvRow row = csvRow (map row LEDGER_EVENT_CSV_COLUMNS)"

text \<open>A reader of one record of RFC 4180, the first argument bounding the number of cells.\<close>

fun read_quoted :: "string \<Rightarrow> (string \<times> string) option" where
  \<comment> \<open>after the opening quote\<close>
  "read_quoted [] = None"
| "read_quoted (c # r) =
     (if c = dquote
      then (case r of
              c' # r' \<Rightarrow> if c' = dquote then map_option (\<lambda>(s, t). (dquote # s, t)) (read_quoted r') else Some ([], r)
            | [] \<Rightarrow> Some ([], []))
      else map_option (\<lambda>(s, t). (c # s, t)) (read_quoted r))"

definition read_field :: "string \<Rightarrow> (string \<times> string) option" where
  "read_field s =
     (if s \<noteq> [] \<and> hd s = dquote then read_quoted (tl s)
      else let plain = (\<lambda>c. c \<noteq> CHR '','' \<and> code c \<noteq> 13 \<and> code c \<noteq> 10) in Some (takeWhile plain s, dropWhile plain s))"

fun read_record :: "nat \<Rightarrow> string \<Rightarrow> string list option" where
  "read_record 0 s = None"
| "read_record (Suc n) s =
     (case read_field s of
        None \<Rightarrow> None
      | Some (f, r) \<Rightarrow>
          if r = [CHR 0x0D, CHR 0x0A] then Some [f]
          else if r \<noteq> [] \<and> hd r = CHR '','' then map_option (Cons f) (read_record n (tl r)) else None)"

definition ends_field :: "string \<Rightarrow> bool" where
  "ends_field r \<longleftrightarrow> (r = [CHR 0x0D, CHR 0x0A] \<or> (r \<noteq> [] \<and> hd r = CHR '',''))"

lemma ends_field_head: "ends_field r \<Longrightarrow> \<exists>c r'. r = c # r' \<and> c \<noteq> dquote \<and> (c = CHR '','' \<or> code c = 13)"
  by (cases r) (auto simp: ends_field_def dquote_def code_def)

lemma read_quoted_doubled: "ends_field r \<Longrightarrow> read_quoted (double_quotes s @ dquote # r) = Some (s, r)"
proof (induction s)
  case Nil
  then obtain c r' where "r = c # r'" "c \<noteq> dquote" using ends_field_head by blast
  then show ?case by (simp add: double_quotes_def)
next
  case (Cons c s)
  then show ?case by (simp add: double_quotes_def)
qed

lemma read_field_csvField: "ends_field r \<Longrightarrow> read_field (csvField v @ r) = Some (case v of Some s \<Rightarrow> s | None \<Rightarrow> [], r)"
proof -
  assume r: "ends_field r"
  obtain c r' where c: "r = c # r'" "c \<noteq> dquote" "c = CHR '','' \<or> code c = 13" using ends_field_head [OF r] by blast
  let ?s = "case v of Some s \<Rightarrow> s | None \<Rightarrow> []"
  show ?thesis
  proof (cases "needs_quotes ?s")
    case True
    then show ?thesis using read_quoted_doubled [OF r] by (simp add: csvField_def read_field_def)
  next
    case False
    let ?plain = "\<lambda>c. c \<noteq> CHR '','' \<and> code c \<noteq> 13 \<and> code c \<noteq> 10"
    have all: "\<forall>x \<in> set ?s. ?plain x \<and> x \<noteq> dquote" using False by (auto simp: needs_quotes_def list_ex_iff)
    have "takeWhile ?plain (?s @ r) = ?s" "dropWhile ?plain (?s @ r) = r"
      using all c(3) unfolding c(1) by (auto simp: takeWhile_append dropWhile_append)
    moreover have "hd (?s @ r) \<noteq> dquote" using all c by (cases ?s) auto
    ultimately show ?thesis using False c(1) by (simp add: csvField_def read_field_def Let_def)
  qed
qed

text \<open>Whatever text the cells hold (commas, quotes, line breaks), an RFC 4180 reader gets back from \<open>csvRow\<close> the
  text of each cell, a null cell reading as the empty text.\<close>

theorem csv_row_reads_back:
  assumes "cells \<noteq> []"
  shows "read_record (length cells) (csvRow cells) = Some (map (\<lambda>v. case v of Some s \<Rightarrow> s | None \<Rightarrow> []) cells)"
  using assms
proof (induction cells)
  case (Cons v cells)
  let ?crlf = "[CHR 0x0D, CHR 0x0A] :: string"
  show ?case
  proof (cases cells)
    case Nil
    have "ends_field ?crlf" by (simp add: ends_field_def)
    then show ?thesis using Nil read_field_csvField [of ?crlf v] by (simp add: csvRow_def)
  next
    case (Cons w ws)
    then have split: "csvRow (v # cells) = csvField v @ (CHR '','' # csvRow cells)" by (simp add: csvRow_def)
    have e: "ends_field (CHR '','' # csvRow cells)" by (simp add: ends_field_def)
    have "CHR '','' # csvRow cells \<noteq> ?crlf" by simp
    then show ?thesis using Cons.IH Cons split read_field_csvField [OF e, of v] by simp
  qed
qed simp

section \<open>Identity\<close>

definition colon_free :: "string \<Rightarrow> bool" where
  "colon_free s \<longleftrightarrow> CHR '':'' \<notin> set s"

lemma split_at_colon: "colon_free s \<Longrightarrow> takeWhile (\<lambda>c. c \<noteq> CHR '':'') (s @ CHR '':'' # r) = s"
  by (induction s) (auto simp: colon_free_def)

lemma join_inject:
  "length xs = length ys \<Longrightarrow> list_all colon_free xs \<Longrightarrow> list_all colon_free ys \<Longrightarrow> join '':'' xs = join '':'' ys \<Longrightarrow> xs = ys"
proof (induction xs arbitrary: ys)
  case (Cons x xs)
  then obtain y zs where ys: "ys = y # zs" "length xs = length zs" by (cases ys) auto
  show ?case
  proof (cases xs)
    case Nil
    then show ?thesis using Cons.prems(4) ys by simp
  next
    case (Cons x2 xs2)
    then obtain y2 zs2 where z: "zs = y2 # zs2" using ys by (cases zs) auto
    have j: "x @ CHR '':'' # join '':'' xs = y @ CHR '':'' # join '':'' zs" using Cons.prems(4) Cons z ys by simp
    have "x = y" using arg_cong [OF j, of "takeWhile (\<lambda>c. c \<noteq> CHR '':'')"] Cons.prems(2,3) ys by (simp add: split_at_colon)
    then show ?thesis using j Cons.IH [of zs] Cons.prems(2,3) ys by simp
  qed
qed simp

lemma colon_free_int_str [simp]: "colon_free (int_str n)"
  using nat_str_digits by (auto simp: colon_free_def int_str_def is_digit_def code_def dest!: nat_str_digits)

lemma index_or_none_inject [simp]: "index_or_none i = index_or_none j \<longleftrightarrow> i = j"
proof -
  have "int_str n \<noteq> ''-''" for n by (simp add: int_str_def minus_neq_nat_str)
  then show ?thesis by (auto simp: index_or_none_def NONE_def split: option.split) metis
qed

lemma colon_free_index [simp]: "colon_free (index_or_none i)"
  by (auto simp: index_or_none_def NONE_def split: option.split) (simp add: colon_free_def)

definition onchain_ok :: "onchain_id \<Rightarrow> bool" where
  "onchain_ok i \<longleftrightarrow> colon_free (oi_cluster i) \<and> colon_free (oi_signature i) \<and> colon_free (oi_eventType i)"

lemma head_of_join: "colon_free x \<Longrightarrow> xs \<noteq> [] \<Longrightarrow> takeWhile (\<lambda>c. c \<noteq> CHR '':'') (join '':'' (x # xs)) = x"
  using split_at_colon by (cases xs) auto

definition id_parts :: "onchain_id \<Rightarrow> string list" where
  "id_parts i = [''onchain'', oi_cluster i, oi_signature i, oi_eventType i, index_or_none (oi_instructionIndex i),
                 index_or_none (oi_innerInstructionIndex i), index_or_none (oi_eventIndex i)]"

lemma id_of_parts: "buildEventId (Onchain i) = join '':'' (id_parts i)"
  by (simp add: buildEventId_def id_parts_def)

lemma parts_colon_free: "onchain_ok i \<Longrightarrow> list_all colon_free (id_parts i)"
  by (simp add: id_parts_def onchain_ok_def) (simp add: colon_free_def)

lemma id_parts_inject: "id_parts i = id_parts j \<longleftrightarrow> i = j"
  by (cases i, cases j) (auto simp: id_parts_def)

text \<open>Distinct on-chain events get distinct ids, since neither a cluster, a signature nor an event name holds a colon, and no
  lifecycle or operational id equals an on-chain one: the unique constraint on \<open>event_id\<close> drops replays only.\<close>

theorem event_ids_identify:
  assumes "onchain_ok i" and "onchain_ok j"
  shows "(buildEventId (Onchain i) = buildEventId (Onchain j) \<longleftrightarrow> i = j) \<and>
         buildEventId (Onchain i) \<noteq> buildEventId (Dated flag cluster eventType parts)"
proof (rule conjI)
  have "length (id_parts i) = length (id_parts j)" by (simp add: id_parts_def)
  then show "buildEventId (Onchain i) = buildEventId (Onchain j) \<longleftrightarrow> i = j"
    using join_inject parts_colon_free [OF assms(1)] parts_colon_free [OF assms(2)] id_parts_inject
    unfolding id_of_parts by blast
next
  let ?kind = "if flag then ''lifecycle'' else ''operational''"
  have on: "colon_free ''onchain''" and kind: "colon_free ?kind" by (auto simp: colon_free_def)
  have "takeWhile (\<lambda>c. c \<noteq> CHR '':'') (buildEventId (Onchain i)) = ''onchain''"
    using head_of_join [OF on] by (simp only: id_of_parts id_parts_def) simp
  moreover have "takeWhile (\<lambda>c. c \<noteq> CHR '':'') (buildEventId (Dated flag cluster eventType parts)) = ?kind"
    unfolding buildEventId_def event_id_input.case append_Cons append_Nil by (rule head_of_join [OF kind]) simp
  ultimately show "buildEventId (Onchain i) \<noteq> buildEventId (Dated flag cluster eventType parts)" by (auto split: if_splits)
qed

theorem csv_row_reads_back_witness:
  "read_record 3 (csvRow [Some [CHR ''a'', CHR '','', dquote, CHR 0x0A], None, Some ''7'']) = Some [[CHR ''a'', CHR '','', dquote, CHR 0x0A], [], ''7'']"
  using csv_row_reads_back [of "[Some [CHR ''a'', CHR '','', dquote, CHR 0x0A], None, Some ''7'']"] by (simp add: numeral_3_eq_3 del: read_record.simps)

definition id_a :: onchain_id where
  "id_a = \<lparr>oi_cluster = ''devnet'', oi_signature = ''5xy'', oi_eventType = ''reserveCreated'', oi_instructionIndex = Some 1,
     oi_innerInstructionIndex = None, oi_eventIndex = Some 11\<rparr>"

theorem event_ids_identify_witness:
  "buildEventId (Onchain id_a) \<noteq> buildEventId (Onchain (id_a\<lparr>oi_instructionIndex := Some 11, oi_eventIndex := Some 1\<rparr>)) \<and>
   buildEventId (Onchain id_a) \<noteq> buildEventId (Dated True ''devnet'' ''x'' [])"
proof -
  let ?b = "id_a\<lparr>oi_instructionIndex := Some 11, oi_eventIndex := Some 1\<rparr>"
  have ok: "onchain_ok id_a" "onchain_ok ?b" by (simp_all add: onchain_ok_def id_a_def colon_free_def)
  show ?thesis using event_ids_identify [OF ok, of True "''devnet''" "''x''" "[]"] by (simp add: id_a_def)
qed

end
