(* ===== verification/Ledger_Checks.thy ===== *)
theory Ledger_Checks
  imports Ledger
begin

text \<open>
  The data-quality checks of the ledger (\<open>lib/ledger/reconciliation.ts\<close>) on the rows of the table,
  against the rows that \<open>decodeEvent.ts\<close> builds. The audit row that each check inserts, and the two
  checks on dates, are not modelled.
\<close>

section \<open>The checks\<close>

record check_result =
  cr_checkName :: string
  cr_passed :: bool
  cr_rowsChecked :: nat
  cr_issuesFound :: nat
  cr_details :: "string list"

definition check_result_of :: "string \<Rightarrow> nat \<Rightarrow> string list \<Rightarrow> check_result" where
  "check_result_of name checked issues =
     \<lparr>cr_checkName = name, cr_passed = (length issues = 0), cr_rowsChecked = checked, cr_issuesFound = length issues,
      cr_details = issues\<rparr>"

definition of_cluster :: "string \<Rightarrow> ledger_row list \<Rightarrow> ledger_row list" where
  "of_cluster cluster rows = filter (\<lambda>r. lr_cluster r = cluster) rows"

definition checkNoDuplicateEventIds :: "string \<Rightarrow> ledger_row list \<Rightarrow> check_result" where
  \<comment> \<open>the groups come in the order of their first row\<close>
  "checkNoDuplicateEventIds cluster rows =
     (let ids = map lr_event_id (of_cluster cluster rows) in
      check_result_of ''no_duplicate_event_ids'' (length ids)
        (filter (\<lambda>i. 1 < length (filter (\<lambda>j. j = i) ids)) (remdups ids)))"

definition amount_inconsistent :: "ledger_row \<Rightarrow> bool" where
  "amount_inconsistent r \<longleftrightarrow> lr_amount_raw r \<noteq> None \<and> (lr_amount_kind r = None \<or> lr_amount_decimals r = None)"

definition checkAmountFieldConsistency :: "string \<Rightarrow> ledger_row list \<Rightarrow> check_result" where
  "checkAmountFieldConsistency cluster rows =
     check_result_of ''amount_field_consistency'' (length (filter (\<lambda>r. lr_amount_raw r \<noteq> None) (of_cluster cluster rows)))
       (map lr_event_id (filter amount_inconsistent (of_cluster cluster rows)))"

definition ACTOR_OPTIONAL_EVENT_TYPES :: "string list" where
  "ACTOR_OPTIONAL_EVENT_TYPES =
     [''protocolMintFeeTransferred'', ''tvlFeeSettled'', ''reserveSeeded'', ''feesAccrued'', ''feeVaultCredited'']"

definition actor_missing :: "ledger_row \<Rightarrow> bool" where
  "actor_missing r \<longleftrightarrow> lr_actor_wallet r = None \<and> lr_event_type r \<notin> set ACTOR_OPTIONAL_EVENT_TYPES"

definition checkActorPresence :: "string \<Rightarrow> ledger_row list \<Rightarrow> check_result" where
  "checkActorPresence cluster rows =
     check_result_of ''actor_presence'' (length (of_cluster cluster rows))
       (map lr_event_id (filter actor_missing (of_cluster cluster rows)))"

section \<open>What they find in the rows the decoder builds\<close>

definition ACTORLESS :: "string list" where
  "ACTORLESS =
     [''reserveAssetInitialized'', ''protocolMintFeeTransferred'', ''managerFeeShareAccrued'', ''feesAccrued'', ''feesCollected'',
      ''reserveSeeded'', ''feeVaultCredited'']"

definition actor_typed :: "string \<Rightarrow> summary_result \<Rightarrow> bool" where
  "actor_typed name r \<longleftrightarrow>
     (case r of Inr (Some s) \<Rightarrow> sm_actor s = None \<longleftrightarrow> name \<in> set ACTORLESS | _ \<Rightarrow> True)"

lemma actor_said: "(a = None) = (name \<in> set ACTORLESS) \<Longrightarrow> actor_typed name (said a ps)"
  by (simp add: said_def actor_typed_def)

lemma actor_said1: "(a = None) = (name \<in> set ACTORLESS) \<Longrightarrow> actor_typed name (said1 a ps vs k)"
  by (simp add: said1_def actor_typed_def rbind_def split: sum.split)

lemma actor_said2: "(a = None) = (name \<in> set ACTORLESS) \<Longrightarrow> actor_typed name (said2 a ps vs k vs' k')"
  by (simp add: said2_def actor_typed_def rbind_def split: sum.split)

lemma actor_said_as_is: "(a = None) = (name \<in> set ACTORLESS) \<Longrightarrow> actor_typed name (said_as_is a ps v k)"
  by (simp add: said_as_is_def actor_typed_def)

lemma actor_None: "actor_typed name (Inr None)"
  by (simp add: actor_typed_def)

lemmas actor_intros = actor_said actor_said1 actor_said2 actor_said_as_is actor_None

lemma actor_if:
  "(name = n \<Longrightarrow> actor_typed name r) \<Longrightarrow> actor_typed name r' \<Longrightarrow> actor_typed name (if name = n then r else r')"
  by simp

lemma actor_trades: "actor_typed name (summarize_trades_and_fees ld name d)"
  unfolding summarize_trades_and_fees_def Let_def by (intro actor_if actor_intros; simp add: ACTORLESS_def)

lemma actor_management: "actor_typed name (summarize_management name d)"
  unfolding summarize_management_def Let_def by (intro actor_if actor_intros; simp add: ACTORLESS_def)

lemma actor_settlement: "actor_typed name (summarize_settlement name d)"
  unfolding summarize_settlement_def Let_def by (intro actor_if actor_intros; simp add: ACTORLESS_def)

lemma summary_actor: "summarizeActivityEvent ld name d = Inr (Some s) \<Longrightarrow> sm_actor s = None \<longleftrightarrow> name \<in> set ACTORLESS"
  using actor_trades [of name ld d] actor_management [of name d] actor_settlement [of name d]
  by (auto simp: summarizeActivityEvent_def actor_typed_def rbind_def split: sum.splits option.splits)

lemma summary_amount:
  "decoded_by_idl name d \<Longrightarrow> summarizeActivityEvent ld name d = Inr (Some s) \<Longrightarrow> amount_typed name (sm_amountRaw s) (sm_amountKind s)"
  using typed_trades [of name d ld] typed_management [of name d] typed_settlement [of name d]
  by (auto simp: summarizeActivityEvent_def summary_typed_def rbind_def split: sum.splits option.splits)

lemma funded_summary: "summarizeActivityEvent ld ''reserveAssetFunded'' d = Inr (Some s) \<Longrightarrow> sm_amountRaw s = None"
  by (auto simp: summarizeActivityEvent_def summarize_trades_and_fees_def summarize_management_def said_def rbind_def Let_def)

definition extra_typed :: "string \<Rightarrow> activity_error + ledger_fields \<Rightarrow> bool" where
  "extra_typed name r \<longleftrightarrow> (case r of Inr x \<Rightarrow> lf_extraAmountRaw x \<noteq> None \<longleftrightarrow> name = ''reserveAssetFunded'' | Inl e \<Rightarrow> True)"

lemma extra_bind: "(\<And>x. extra_typed name (f x)) \<Longrightarrow> extra_typed name (rbind r f)"
  by (cases r) (auto simp: extra_typed_def)

lemma extra_Inr: "(lf_extraAmountRaw x \<noteq> None) = (name = ''reserveAssetFunded'') \<Longrightarrow> extra_typed name (Inr x)"
  by (simp add: extra_typed_def)

lemma extra_if: "(c \<Longrightarrow> extra_typed name r) \<Longrightarrow> (\<not> c \<Longrightarrow> extra_typed name r') \<Longrightarrow> extra_typed name (if c then r else r')"
  by simp

lemma rbind_assoc: "rbind (rbind m f) g = rbind m (\<lambda>x. rbind (f x) g)"
  by (cases m) auto

lemma extra_fields: "extractLedgerFields name d = Inr x \<Longrightarrow> lf_extraAmountRaw x \<noteq> None \<longleftrightarrow> name = ''reserveAssetFunded''"
proof -
  assume x: "extractLedgerFields name d = Inr x"
  have "extra_typed name (extractLedgerFields name d)"
    unfolding extractLedgerFields_def Let_def protocol_transfer_def with_manager_revenue_def revenue_split_def rbind_assoc rbind_simps
    by (intro extra_if extra_bind extra_Inr; (simp add: EMPTY_def; fail)?; elim insertE emptyE; simp add: EMPTY_def)
  then show ?thesis by (simp add: x extra_typed_def)
qed

text \<open>A row of the table: built from an event decoded with the types of the IDL, or from a transaction that failed.\<close>

inductive ledger_built :: "ledger_row \<Rightarrow> bool" where
  of_event: "buildLedgerEventRecord localeDate now e tx opts = Inr (Some r) \<Longrightarrow> decoded_by_idl (ev_name e) (ev_data e) \<Longrightarrow>
             ro_decimals opts \<noteq> None \<Longrightarrow> ledger_built r"
| of_failure: "buildFailedTransactionRecord now tx = Inr r \<Longrightarrow> tc_feePayer tx \<noteq> None \<Longrightarrow> ledger_built r"

lemma built_row:
  assumes "buildLedgerEventRecord localeDate now e tx opts = Inr (Some r)"
  obtains s x where "summarizeActivityEvent localeDate (ev_name e) (ev_data e) = Inr (Some s)"
    and "extractLedgerFields (ev_name e) (ev_data e) = Inr x" and "lr_event_type r = ev_name e"
    and "lr_actor_wallet r = sm_actor s" and "lr_amount_raw r = ra_raw (row_amount_of s x opts)"
    and "lr_amount_kind r = ra_kind (row_amount_of s x opts)" and "lr_amount_decimals r = ra_decimals (row_amount_of s x opts)"
  using assms
  by (auto simp: buildLedgerEventRecord_def rbind_def lift_amount_def Let_def split: sum.splits option.splits)

lemma amount_found:
  assumes s: "amount_typed name (sm_amountRaw s) (sm_amountKind s)" and d: "ro_decimals opts \<noteq> None"
    and x: "(lf_extraAmountRaw x \<noteq> None) = (name = ''reserveAssetFunded'')"
    and f: "name = ''reserveAssetFunded'' \<Longrightarrow> sm_amountRaw s = None"
  shows "(ra_raw (row_amount_of s x opts) \<noteq> None \<and> (ra_kind (row_amount_of s x opts) = None \<or> ra_decimals (row_amount_of s x opts) = None))
         = (name = ''reserveAssetFunded'')"
proof (cases "sm_amountRaw s")
  case None
  then show ?thesis using x by (auto simp: row_amount_of_def truthy_text_def Let_def)
next
  case (Some t)
  then obtain n k where "t = int_str n" "sm_amountKind s = Some k" using s by (auto simp: amount_typed_def split: option.splits)
  then have "truthy_text (sm_amountRaw s)" by (simp add: Some truthy_text_def int_str_def)
  moreover have "name \<noteq> ''reserveAssetFunded''" using f Some by auto
  ultimately show ?thesis using d x Some \<open>sm_amountKind s = Some k\<close> by (auto simp: row_amount_of_def Let_def)
qed

lemma failed_row:
  "buildFailedTransactionRecord now tx = Inr r \<Longrightarrow>
     lr_event_type r = ''transactionFailed'' \<and> lr_amount_raw r = None \<and> lr_actor_wallet r = tc_feePayer tx"
  by (auto simp: buildFailedTransactionRecord_def rbind_def split: sum.splits)

lemma amount_flag:
  assumes "ledger_built r"
  shows "amount_inconsistent r \<longleftrightarrow> lr_event_type r = ''reserveAssetFunded''"
  using assms
proof cases
  case (of_event localeDate now e tx opts)
  obtain s x where b: "summarizeActivityEvent localeDate (ev_name e) (ev_data e) = Inr (Some s)"
      "extractLedgerFields (ev_name e) (ev_data e) = Inr x" "lr_event_type r = ev_name e"
      "lr_amount_raw r = ra_raw (row_amount_of s x opts)" "lr_amount_kind r = ra_kind (row_amount_of s x opts)"
      "lr_amount_decimals r = ra_decimals (row_amount_of s x opts)"
    by (rule built_row [OF of_event(1)])
  have f: "ev_name e = ''reserveAssetFunded'' \<Longrightarrow> sm_amountRaw s = None"
    by (rule funded_summary [of localeDate "ev_data e"]) (use b(1) in simp)
  show ?thesis unfolding amount_inconsistent_def b(3-6)
    by (rule amount_found [OF summary_amount [OF of_event(2) b(1)] of_event(3) extra_fields [OF b(2)] f])
qed (use failed_row in \<open>auto simp: amount_inconsistent_def\<close>)

lemma actor_flag:
  assumes "ledger_built r"
  shows "actor_missing r \<longleftrightarrow> lr_event_type r \<in> {''reserveAssetInitialized'', ''managerFeeShareAccrued'', ''feesCollected''}"
  using assms
proof cases
  case (of_event localeDate now e tx opts)
  obtain s x where b: "summarizeActivityEvent localeDate (ev_name e) (ev_data e) = Inr (Some s)"
      "lr_event_type r = ev_name e" "lr_actor_wallet r = sm_actor s"
    by (rule built_row [OF of_event(1)])
  show ?thesis unfolding actor_missing_def b(2,3) summary_actor [OF b(1)] ACTORLESS_def ACTOR_OPTIONAL_EVENT_TYPES_def by auto
qed (use failed_row in \<open>auto simp: actor_missing_def\<close>)

lemma passed_iff: "cr_passed (check_result_of name k (map lr_event_id (filter P (of_cluster cluster rows))))
   \<longleftrightarrow> (\<forall>r \<in> set rows. lr_cluster r = cluster \<longrightarrow> \<not> P r)"
  by (auto simp: check_result_of_def of_cluster_def filter_empty_conv)

text \<open>On a table holding only rows the decoder builds from well-typed events, the two field checks still fail: the amount check
  whenever an asset was funded, the actor check whenever a Reserve asset was initialized, a Manager fee accrued or fees were collected.
  Those rows are complete, so a failed check does not show a decoder defect, which is what its comment takes it for.\<close>

theorem checks_flag_sound_rows:
  assumes "\<forall>r \<in> set rows. ledger_built r"
  shows "(cr_passed (checkAmountFieldConsistency cluster rows) \<longleftrightarrow>
            \<not> (\<exists>r \<in> set rows. lr_cluster r = cluster \<and> lr_event_type r = ''reserveAssetFunded'')) \<and>
         (cr_passed (checkActorPresence cluster rows) \<longleftrightarrow>
            \<not> (\<exists>r \<in> set rows. lr_cluster r = cluster \<and>
                  lr_event_type r \<in> {''reserveAssetInitialized'', ''managerFeeShareAccrued'', ''feesCollected''}))"
  unfolding checkAmountFieldConsistency_def checkActorPresence_def passed_iff using assms amount_flag actor_flag by blast

definition sample_tx :: transaction_context where
  "sample_tx = \<lparr>tc_cluster = ''devnet'', tc_programId = ''P'', tc_signature = ''S'', tc_slot = Some 1, tc_blockTimeUnix = Some 0,
     tc_transactionFailed = False, tc_errorCode = None, tc_errorMessage = None, tc_feePayer = Some ''W'', tc_computeUnitsConsumed = None,
     tc_networkFeeLamports = None, tc_priorityFeeLamports = None, tc_confirmationStatus = None, tc_instructionIndex = Some 0,
     tc_innerInstructionIndex = None, tc_instructionName = None, tc_eventIndex = Some 0, tc_ingestionSource = ''rpc-poll'', tc_decoderVersion = None\<rparr>"

definition sample_opts :: row_options where
  "sample_opts = \<lparr>ro_reserve = Some ''R'', ro_reserveTokenMint = None, ro_reserveAssetMint = Some ''A'', ro_decimals = Some 6, ro_usdPricing = None,
     ro_actorRoleContext = \<lparr>ac_reserveManager = None, ac_reserveCreator = None, ac_knownDelegates = [], ac_protocolTreasury = None,
       ac_isKeeperTriggered = False\<rparr>\<rparr>"

definition sample_event :: anchor_event where
  "sample_event = \<lparr>ev_name = ''reserveAssetInitialized'', ev_data = [(''assetMint'', DKey ''A'')]\<rparr>"

theorem checks_flag_sound_rows_witness:
  "\<exists>r. buildLedgerEventRecord (\<lambda>n. []) 0 sample_event sample_tx sample_opts = Inr (Some r) \<and>
       cr_passed (checkAmountFieldConsistency ''devnet'' [r]) \<and> \<not> cr_passed (checkActorPresence ''devnet'' [r])"
proof -
  have "case buildLedgerEventRecord (\<lambda>n. []) 0 sample_event sample_tx sample_opts of
      Inr (Some r) \<Rightarrow> lr_cluster r = ''devnet'' \<and> lr_event_type r = ''reserveAssetInitialized'' | _ \<Rightarrow> False"
    by code_simp
  then obtain r where r: "buildLedgerEventRecord (\<lambda>n. []) 0 sample_event sample_tx sample_opts = Inr (Some r)"
      "lr_cluster r = ''devnet''" "lr_event_type r = ''reserveAssetInitialized''"
    by (auto split: sum.splits option.splits)
  have "ledger_built r"
    by (rule ledger_built.of_event [OF r(1)]) (simp_all add: sample_event_def sample_opts_def decoded_by_idl_def amount_fields_def)
  then have "\<forall>x \<in> set [r]. ledger_built x" by simp
  from checks_flag_sound_rows [OF this, of "''devnet''"] show ?thesis by (simp add: r)
qed

end
