(* ===== verification/Ledger_Context.thy ===== *)
theory Ledger_Context
  imports Ledger
begin

text \<open>
  Who manages a Reserve, who created it and who its delegates are, as the ledger knows it
  (\<open>lib/ledger/reserveContext.ts\<close>): the two cache tables, the events that write them, and the
  correction of the actor roles of rows already stored. The tables are dictionaries by their
  unique keys; columns that these functions neither write nor read are left out.
\<close>

section \<open>The cache tables\<close>

datatype context_type = ReserveCreated | ReserveManagerTransferred | DelegateAdded | DelegatePermissionsUpdated | DelegateRemoved

record context_event =
  ce_slot :: int
  ce_reserve :: string
  ce_programId :: string
  ce_eventType :: context_type
  ce_manager :: "string option"
  ce_delegate :: "string option"
  ce_permissionsBitmask :: "number option"
  ce_restricted :: "bool option"
  ce_eventTsUtc :: string

record reserve_row =
  rr_program_id :: string
  rr_manager :: "string option"
  rr_creator_wallet :: "string option"
  rr_created_at_utc :: "string option"

record delegate_row =
  dr_permissions_bitmask :: "number option"
  dr_restricted :: "bool option"
  dr_active :: bool
  dr_added_at_utc :: "string option"
  dr_removed_at_utc :: "string option"

record context_db =
  cx_reserves :: "((string \<times> string) \<times> reserve_row) list"  \<comment> \<open>by cluster and Reserve\<close>
  cx_delegates :: "((string \<times> string \<times> string) \<times> delegate_row) list"  \<comment> \<open>by cluster, Reserve and wallet\<close>

definition upsert :: "'k \<Rightarrow> 'v \<Rightarrow> ('v \<Rightarrow> 'v) \<Rightarrow> ('k \<times> 'v) list \<Rightarrow> ('k \<times> 'v) list" where
  \<comment> \<open>\<open>insert ... on conflict do update\<close>\<close>
  "upsert k v f m = dput k (case dget m k of None \<Rightarrow> v | Some old \<Rightarrow> f old) m"

definition write_reserve :: "string \<Rightarrow> context_event \<Rightarrow> reserve_row \<Rightarrow> (reserve_row \<Rightarrow> reserve_row) \<Rightarrow> context_db \<Rightarrow> context_db" where
  "write_reserve cluster ev v f db = db\<lparr>cx_reserves := upsert (cluster, ce_reserve ev) v f (cx_reserves db)\<rparr>"

definition write_delegate :: "string \<Rightarrow> context_event \<Rightarrow> delegate_row \<Rightarrow> (delegate_row \<Rightarrow> delegate_row) \<Rightarrow> context_db \<Rightarrow> context_db" where
  \<comment> \<open>\<open>&& ev.delegate\<close>\<close>
  "write_delegate cluster ev v f db =
     (case ce_delegate ev of
        Some d \<Rightarrow> if d = [] then db else db\<lparr>cx_delegates := upsert (cluster, ce_reserve ev, d) v f (cx_delegates db)\<rparr>
      | None \<Rightarrow> db)"

definition applyReserveContextEvent :: "string \<Rightarrow> context_db \<Rightarrow> context_event \<Rightarrow> context_db" where
  "applyReserveContextEvent cluster db ev =
     (case ce_eventType ev of
        ReserveCreated \<Rightarrow>
          write_reserve cluster ev
            \<lparr>rr_program_id = ce_programId ev, rr_manager = ce_manager ev, rr_creator_wallet = ce_manager ev,
             rr_created_at_utc = Some (ce_eventTsUtc ev)\<rparr>
            (\<lambda>r. r\<lparr>rr_manager := ce_manager ev, rr_creator_wallet := ce_manager ev, rr_created_at_utc := Some (ce_eventTsUtc ev)\<rparr>) db
      | ReserveManagerTransferred \<Rightarrow>
          write_reserve cluster ev
            \<lparr>rr_program_id = ce_programId ev, rr_manager = ce_manager ev, rr_creator_wallet = None, rr_created_at_utc = None\<rparr>
            (\<lambda>r. r\<lparr>rr_manager := ce_manager ev\<rparr>) db
      | DelegateAdded \<Rightarrow>
          write_delegate cluster ev
            \<lparr>dr_permissions_bitmask = ce_permissionsBitmask ev, dr_restricted = ce_restricted ev, dr_active = True,
             dr_added_at_utc = Some (ce_eventTsUtc ev), dr_removed_at_utc = None\<rparr>
            (\<lambda>r. r\<lparr>dr_permissions_bitmask := ce_permissionsBitmask ev, dr_restricted := ce_restricted ev, dr_active := True,
                   dr_added_at_utc := Some (ce_eventTsUtc ev)\<rparr>) db
      | DelegatePermissionsUpdated \<Rightarrow>
          write_delegate cluster ev
            \<lparr>dr_permissions_bitmask = ce_permissionsBitmask ev, dr_restricted = None, dr_active = True,
             dr_added_at_utc = None, dr_removed_at_utc = None\<rparr>
            (\<lambda>r. r\<lparr>dr_permissions_bitmask := ce_permissionsBitmask ev\<rparr>) db
      | DelegateRemoved \<Rightarrow>
          write_delegate cluster ev
            \<lparr>dr_permissions_bitmask = None, dr_restricted = None, dr_active = False,
             dr_added_at_utc = None, dr_removed_at_utc = Some (ce_eventTsUtc ev)\<rparr>
            (\<lambda>r. r\<lparr>dr_active := False, dr_removed_at_utc := Some (ce_eventTsUtc ev)\<rparr>) db)"

definition later_slot :: "context_event \<Rightarrow> context_event \<Rightarrow> bool" where
  "later_slot a b \<longleftrightarrow> ce_slot b < ce_slot a"

definition applyReserveContextEvents :: "string \<Rightarrow> context_event list \<Rightarrow> context_db \<Rightarrow> context_db" where
  "applyReserveContextEvents cluster events db = foldl (applyReserveContextEvent cluster) db (sort_by later_slot events)"

section \<open>Actor roles\<close>

definition delegates_of :: "string \<Rightarrow> string \<Rightarrow> context_db \<Rightarrow> string list" where
  "delegates_of cluster reserve db =
     map (\<lambda>((cl, r, d), row). d) (filter (\<lambda>((cl, r, d), row). cl = cluster \<and> r = reserve \<and> dr_active row) (cx_delegates db))"

definition no_context :: actor_context where
  "no_context = \<lparr>ac_reserveManager = None, ac_reserveCreator = None, ac_knownDelegates = [], ac_protocolTreasury = None,
     ac_isKeeperTriggered = False\<rparr>"

definition loadReserveActorLookup :: "string \<Rightarrow> context_db \<Rightarrow> string option \<Rightarrow> actor_context" where
  \<comment> \<open>\<open>getContext\<close> of the snapshot\<close>
  "loadReserveActorLookup cluster db reserve =
     (case reserve of
        None \<Rightarrow> no_context
      | Some r \<Rightarrow>
          if r = [] then no_context
          else let m = dget (cx_reserves db) (cluster, r) in
            no_context\<lparr>ac_reserveManager := (case m of Some row \<Rightarrow> rr_manager row | None \<Rightarrow> None),
                       ac_reserveCreator := (case m of Some row \<Rightarrow> rr_creator_wallet row | None \<Rightarrow> None),
                       ac_knownDelegates := delegates_of cluster r db\<rparr>)"

definition new_role :: "string \<Rightarrow> context_db \<Rightarrow> ledger_row \<Rightarrow> actor_role" where
  "new_role cluster db r = classifyActorRole (lr_actor_wallet r) (loadReserveActorLookup cluster db (lr_reserve r))"

definition needs_role :: "string \<Rightarrow> context_db \<Rightarrow> ledger_row \<Rightarrow> bool" where
  "needs_role cluster db r \<longleftrightarrow> lr_cluster r = cluster \<and> lr_actor_wallet r \<noteq> None \<and> new_role cluster db r \<noteq> lr_actor_role r"

definition reclassifyActorRoles :: "string \<Rightarrow> context_db \<Rightarrow> ledger_row list \<Rightarrow> ledger_row list \<times> nat \<times> nat" where
  \<comment> \<open>the rows, \<open>scanned\<close> and \<open>updated\<close>\<close>
  "reclassifyActorRoles cluster db rows =
     (map (\<lambda>r. if needs_role cluster db r then r\<lparr>lr_actor_role := new_role cluster db r\<rparr> else r) rows,
      length (filter (\<lambda>r. lr_cluster r = cluster \<and> lr_actor_wallet r \<noteq> None) rows),
      length (filter (needs_role cluster db) rows))"

section \<open>The last event wins, within one call\<close>

definition manager_known :: "string \<Rightarrow> string \<Rightarrow> context_db \<Rightarrow> string option" where
  "manager_known cluster reserve db = (case dget (cx_reserves db) (cluster, reserve) of Some row \<Rightarrow> rr_manager row | None \<Rightarrow> None)"

definition names_manager :: "string \<Rightarrow> context_event \<Rightarrow> bool" where
  "names_manager reserve ev \<longleftrightarrow> ce_reserve ev = reserve \<and> ce_eventType ev \<in> {ReserveCreated, ReserveManagerTransferred}"

lemma manager_step:
  "manager_known cluster reserve (applyReserveContextEvent cluster db ev) =
     (if names_manager reserve ev then ce_manager ev else manager_known cluster reserve db)"
  by (auto simp: applyReserveContextEvent_def manager_known_def names_manager_def write_reserve_def write_delegate_def upsert_def
      od.get_put split: context_type.splits option.splits)

lemma manager_fold:
  "manager_known cluster reserve (foldl (applyReserveContextEvent cluster) db evs) =
     (case rev (filter (names_manager reserve) evs) of [] \<Rightarrow> manager_known cluster reserve db | ev # _ \<Rightarrow> ce_manager ev)"
  by (induction evs arbitrary: db rule: rev_induct) (auto simp: manager_step)

lemma later_slot_comparator: "comparator later_slot"
  by (auto simp: comparator_def later_slot_def)

definition names_last :: "string \<Rightarrow> context_event list \<Rightarrow> context_event \<Rightarrow> bool" where
  "names_last reserve events ev \<longleftrightarrow>
     ev \<in> set events \<and> names_manager reserve ev \<and>
     (\<forall>e \<in> set events. names_manager reserve e \<longrightarrow> e = ev \<or> ce_slot e < ce_slot ev)"

lemma last_of_sorted:
  assumes "sorted_wrt (\<lambda>x y. \<not> later_slot x y) xs" "rev (filter P xs) = e # r" "x \<in> set xs" "P x"
  shows "ce_slot x \<le> ce_slot e"
proof -
  have f: "filter P xs = rev r @ [e]" using assms(2) by (metis rev.simps(2) rev_rev_ident)
  have "sorted_wrt (\<lambda>x y. \<not> later_slot x y) (filter P xs)" using assms(1) sorted_wrt_filter by blast
  then have "\<forall>y \<in> set (rev r). ce_slot y \<le> ce_slot e" by (auto simp: f sorted_wrt_append later_slot_def)
  moreover have "x \<in> set (filter P xs)" using assms(3,4) by simp
  then have "x \<in> set (rev r @ [e])" by (simp only: f)
  ultimately show ?thesis by auto
qed

lemma manager_last:
  assumes "names_last reserve events ev"
  shows "manager_known cluster reserve (applyReserveContextEvents cluster events db) = ce_manager ev"
proof -
  let ?xs = "sort_by later_slot events"
  obtain e r where e: "rev (filter (names_manager reserve) ?xs) = e # r"
    using assms by (cases "rev (filter (names_manager reserve) ?xs)") (auto simp: names_last_def filter_empty_conv)
  then have "e \<in> set (filter (names_manager reserve) ?xs)" by (metis list.set_intros(1) set_rev)
  then have "e = ev \<or> ce_slot e < ce_slot ev" using assms by (auto simp: names_last_def)
  moreover have "ce_slot ev \<le> ce_slot e"
    by (rule last_of_sorted [OF sorted_sort_by [OF later_slot_comparator] e]) (use assms in \<open>auto simp: names_last_def\<close>)
  ultimately show ?thesis by (simp add: applyReserveContextEvents_def manager_fold e)
qed

text \<open>C27: Backfilling walks from the newest transaction to the oldest over several calls, and each call applies what it
  found. Had one call found the events of two, the latest one would name the manager; applied in two calls, the older
  call overwrites it with the manager the Reserve had before.\<close>

theorem older_sweep_reverts_manager:
  assumes newer: "names_last reserve newer n" and older: "names_last reserve older o'" and "ce_slot o' < ce_slot n"
  shows "manager_known cluster reserve (applyReserveContextEvents cluster (newer @ older) db) = ce_manager n \<and>
         manager_known cluster reserve (applyReserveContextEvents cluster older (applyReserveContextEvents cluster newer db)) = ce_manager o'"
proof -
  have "names_last reserve (newer @ older) n" using assms by (force simp: names_last_def)
  then show ?thesis using manager_last older by blast
qed

definition created_event :: context_event where
  "created_event = \<lparr>ce_slot = 5, ce_reserve = ''R'', ce_programId = ''P'', ce_eventType = ReserveCreated, ce_manager = Some ''founder'',
     ce_delegate = None, ce_permissionsBitmask = None, ce_restricted = None, ce_eventTsUtc = ''t''\<rparr>"

definition transfer_event :: context_event where
  "transfer_event = created_event\<lparr>ce_slot := 9, ce_eventType := ReserveManagerTransferred, ce_manager := Some ''successor''\<rparr>"

theorem older_sweep_reverts_manager_witness:
  "let db = \<lparr>cx_reserves = [], cx_delegates = []\<rparr> in
   manager_known ''devnet'' ''R'' (applyReserveContextEvents ''devnet'' [transfer_event, created_event] db) = Some ''successor'' \<and>
   manager_known ''devnet'' ''R'' (applyReserveContextEvents ''devnet'' [created_event]
     (applyReserveContextEvents ''devnet'' [transfer_event] db)) = Some ''founder''"
  using older_sweep_reverts_manager [of "''R''" "[transfer_event]" transfer_event "[created_event]" created_event "''devnet''"
      "\<lparr>cx_reserves = [], cx_delegates = []\<rparr>"]
  by (simp add: names_last_def names_manager_def transfer_event_def created_event_def)

section \<open>Reclassification\<close>

lemma new_role_again: "new_role cluster db (r\<lparr>lr_actor_role := x\<rparr>) = new_role cluster db r"
  by (simp add: new_role_def)

definition with_role :: "string \<Rightarrow> context_db \<Rightarrow> ledger_row \<Rightarrow> ledger_row" where
  "with_role cluster db r = (if needs_role cluster db r then r\<lparr>lr_actor_role := new_role cluster db r\<rparr> else r)"

lemma with_role_settled: "\<not> needs_role cluster db (with_role cluster db r)"
  by (simp add: with_role_def needs_role_def new_role_again)

lemma with_role_twice: "with_role cluster db (with_role cluster db r) = with_role cluster db r"
  using with_role_settled by (simp add: with_role_def [of cluster db "with_role cluster db r"])

lemma with_role_keeps: "lr_cluster (with_role cluster db r) = lr_cluster r" "lr_actor_wallet (with_role cluster db r) = lr_actor_wallet r"
  by (simp_all add: with_role_def)

lemma reclassify_rows: "reclassifyActorRoles cluster db rows =
    (map (with_role cluster db) rows, length (filter (\<lambda>r. lr_cluster r = cluster \<and> lr_actor_wallet r \<noteq> None) rows),
     length (filter (needs_role cluster db) rows))"
  by (simp add: reclassifyActorRoles_def with_role_def [abs_def])

lemma reclassify_twice:
  "reclassifyActorRoles cluster db (fst (reclassifyActorRoles cluster db rows)) =
     (fst (reclassifyActorRoles cluster db rows), fst (snd (reclassifyActorRoles cluster db rows)), 0)"
  by (simp add: reclassify_rows with_role_twice filter_map o_def with_role_settled with_role_keeps)

end
