(* ===== verification/Ledger_Ingest.thy ===== *)
theory Ledger_Ingest
  imports Ledger_Context
begin

text \<open>
  The sweep that fills the ledger (\<open>lib/ledger/ingest.ts: ingestProgramEvents\<close>): pages of the
  program's transactions, newest first, each fetched, decoded into rows and inserted unless its
  event id is known, the context events applied at the end, and the cursor the next sweep starts
  from. The answers of the RPC after its retries, the event decoder, the clock and the database's
  refusal of an insert are arguments.
\<close>

section \<open>What a sweep is given\<close>

record program_sig =
  ps_signature :: string
  ps_err :: "string option"  \<comment> \<open>\<open>JSON.stringify(err)\<close>, None for null\<close>
  ps_blockTime :: "int option"

record tx_meta =
  mt_err :: "string option"
  mt_fee :: int
  mt_computeUnitsConsumed :: "int option"
  mt_logMessages :: "string list option"

record fetched_tx =
  ft_slot :: int
  ft_blockTime :: "int option"
  ft_feePayer :: "string option"  \<comment> \<open>\<open>staticAccountKeys?.[0]\<close>\<close>
  ft_meta :: "tx_meta option"

record program_rpc =
  pr_signatures :: "string option \<Rightarrow> string + program_sig list"  \<comment> \<open>\<open>getSignaturesForAddress(programId, {limit: 100, before})\<close>\<close>
  pr_transaction :: "string \<Rightarrow> string + fetched_tx option"

record ingest_env =
  ie_cluster :: string
  ie_programId :: string
  ie_source :: string  \<comment> \<open>\<open>backfill\<close> or \<open>rpc-poll\<close>\<close>
  ie_localeDate :: "number \<Rightarrow> string"
  ie_decode :: "string \<Rightarrow> anchor_event option"
  ie_now :: int
  ie_refused :: "string \<Rightarrow> string option"  \<comment> \<open>the database's message when it refuses the row of an event id\<close>

definition SIGNATURES_PER_PAGE :: nat where "SIGNATURES_PER_PAGE = 100"
definition MAX_PAGES_PER_CALL :: nat where "MAX_PAGES_PER_CALL = 3"
definition MAX_TX_FETCHES_PER_CALL :: nat where "MAX_TX_FETCHES_PER_CALL = 250"
definition INGEST_TOKEN_DECIMALS :: nat where "INGEST_TOKEN_DECIMALS = 6"

section \<open>Events of one transaction\<close>

definition permissions_of :: "dval \<Rightarrow> number" where
  \<comment> \<open>\<open>typeof v === "number" ? v : Number(v ?? 0)\<close>\<close>
  "permissions_of v = number_of (or_zero v)"

definition collectReserveContextEvent :: "anchor_event \<Rightarrow> string option \<Rightarrow> string \<Rightarrow> int \<Rightarrow> string \<Rightarrow> context_event list" where
  \<comment> \<open>what is pushed\<close>
  "collectReserveContextEvent e reserve programId slot ts =
     (case reserve of
        None \<Rightarrow> []
      | Some r \<Rightarrow>
          if r = [] then []
          else
            let d = field (ev_data e);
                base = \<lparr>ce_slot = slot, ce_reserve = r, ce_programId = programId, ce_eventType = ReserveCreated, ce_manager = None,
                        ce_delegate = None, ce_permissionsBitmask = None, ce_restricted = None, ce_eventTsUtc = ts\<rparr> in
            if ev_name e = ''reserveCreated'' then [base\<lparr>ce_manager := key_or_null (d ''manager'')\<rparr>]
            else if ev_name e = ''reserveManagerTransferred''
            then [base\<lparr>ce_eventType := ReserveManagerTransferred, ce_manager := key_or_null (d ''newManager'')\<rparr>]
            else if ev_name e = ''delegateAdded''
            then [base\<lparr>ce_eventType := DelegateAdded, ce_delegate := key_or_null (d ''delegate''),
                       ce_permissionsBitmask := Some (permissions_of (d ''permissions'')), ce_restricted := Some (truthy (d ''restricted''))\<rparr>]
            else if ev_name e = ''delegatePermissionsUpdated''
            then [base\<lparr>ce_eventType := DelegatePermissionsUpdated, ce_delegate := key_or_null (d ''delegate''),
                       ce_permissionsBitmask := Some (permissions_of (d ''newPermissions''))\<rparr>]
            else if ev_name e = ''delegateRemoved''
            then [base\<lparr>ce_eventType := DelegateRemoved, ce_delegate := key_or_null (d ''delegate'')\<rparr>]
            else [])"

definition event_options :: "(string option \<Rightarrow> actor_context) \<Rightarrow> event_data \<Rightarrow> row_options" where
  \<comment> \<open>\<open>extractReserveContext\<close> and the constant options\<close>
  "event_options actors d =
     \<lparr>ro_reserve = key_or_null (field d ''reserve''), ro_reserveTokenMint = key_or_null (field d ''reserveTokenMint''),
      ro_reserveAssetMint = key_or_null (field d ''assetMint''), ro_decimals = Some INGEST_TOKEN_DECIMALS, ro_usdPricing = None,
      ro_actorRoleContext = actors (key_or_null (field d ''reserve''))\<rparr>"

definition tx_context :: "ingest_env \<Rightarrow> program_sig \<Rightarrow> fetched_tx \<Rightarrow> tx_meta \<Rightarrow> transaction_context" where
  "tx_context e s tx m =
     \<lparr>tc_cluster = ie_cluster e, tc_programId = ie_programId e, tc_signature = ps_signature s, tc_slot = Some (ft_slot tx),
      tc_blockTimeUnix = (case ft_blockTime tx of Some t \<Rightarrow> Some t | None \<Rightarrow> ps_blockTime s),
      tc_transactionFailed = (ps_err s \<noteq> None \<or> mt_err m \<noteq> None), tc_errorCode = None,
      tc_errorMessage = (case ps_err s of Some j \<Rightarrow> Some j | None \<Rightarrow> mt_err m), tc_feePayer = ft_feePayer tx,
      tc_computeUnitsConsumed = mt_computeUnitsConsumed m, tc_networkFeeLamports = Some (mt_fee m), tc_priorityFeeLamports = None,
      tc_confirmationStatus = Some ''confirmed'', tc_instructionIndex = None, tc_innerInstructionIndex = None,
      tc_instructionName = None, tc_eventIndex = None, tc_ingestionSource = ie_source e, tc_decoderVersion = None\<rparr>"

definition event_context :: "transaction_context \<Rightarrow> located_event \<Rightarrow> nat \<Rightarrow> transaction_context" where
  "event_context tx le i =
     tx\<lparr>tc_instructionIndex := Some (le_instructionIndex le), tc_innerInstructionIndex := map_option int (le_innerInstructionIndex le),
        tc_instructionName := le_instructionName le, tc_eventIndex := Some (int i)\<rparr>"

fun decode_events ::
  "ingest_env \<Rightarrow> (string option \<Rightarrow> actor_context) \<Rightarrow> transaction_context \<Rightarrow> int \<Rightarrow> nat \<Rightarrow> located_event list
   \<Rightarrow> ledger_row list \<times> context_event list \<times> ledger_error option" where
  \<comment> \<open>the rows and context events up to the first event that throws\<close>
  "decode_events e actors tx slot i [] = ([], [], None)"
| "decode_events e actors tx slot i (le # les) =
     (let ev = le_event le; opts = event_options actors (ev_data ev) in
      case buildLedgerEventRecord (ie_localeDate e) (ie_now e) ev (event_context tx le i) opts of
        Inl x \<Rightarrow> ([], [], Some x)
      | Inr row \<Rightarrow>
          (case (case row of Some r \<Rightarrow> Inr (lr_event_ts_utc r) | None \<Rightarrow> toISOString (ie_now e)) of
             Inl x \<Rightarrow> (case row of Some r \<Rightarrow> [r] | None \<Rightarrow> [], [], Some x)
           | Inr ts \<Rightarrow>
               (case decode_events e actors tx slot (Suc i) les of (rs, cs, err) \<Rightarrow>
                ((case row of Some r \<Rightarrow> [r] | None \<Rightarrow> []) @ rs,
                 collectReserveContextEvent ev (ro_reserve opts) (ie_programId e) slot ts @ cs, err))))"

section \<open>The walk\<close>

datatype ingest_cause = Message string | Decoding ledger_error

record sweep =
  sw_events :: "ledger_row list"  \<comment> \<open>the table, in order of insertion\<close>
  sw_walked :: nat
  sw_fetched :: nat
  sw_upserted :: nat
  sw_oldest :: "string option"
  sw_context :: "context_event list"
  sw_errors :: "(string \<times> ingest_cause) list"

definition upsertLedgerEvent :: "ingest_env \<Rightarrow> ledger_row \<Rightarrow> sweep \<Rightarrow> sweep" where
  \<comment> \<open>\<open>on conflict (event_id) do nothing\<close>; a refused row is reported\<close>
  "upsertLedgerEvent e r st =
     (case ie_refused e (lr_event_id r) of
        Some m \<Rightarrow> st\<lparr>sw_errors := sw_errors st @ [(lr_event_id r, Message m)]\<rparr>
      | None \<Rightarrow>
          st\<lparr>sw_events := (if lr_event_id r \<in> set (map lr_event_id (sw_events st)) then sw_events st else sw_events st @ [r]),
             sw_upserted := sw_upserted st + 1\<rparr>)"

definition store_rows :: "ingest_env \<Rightarrow> ledger_row list \<Rightarrow> sweep \<Rightarrow> sweep" where
  "store_rows e rs st = foldl (\<lambda>st r. upsertLedgerEvent e r st) st rs"

definition ingest_logs ::
  "ingest_env \<Rightarrow> (string option \<Rightarrow> actor_context) \<Rightarrow> program_sig \<Rightarrow> fetched_tx \<Rightarrow> tx_meta \<Rightarrow> string list \<Rightarrow> sweep \<Rightarrow> sweep \<times> ledger_error option" where
  "ingest_logs e actors s tx m logs st =
     (let ctx = tx_context e s tx m in
      case decode_events e actors ctx (ft_slot tx) 0 (parseLogsWithInstructionContext logs (ie_programId e) (ie_decode e)) of (rs, cs, err) \<Rightarrow>
      let st' = st\<lparr>sw_context := sw_context st @ cs,
                  sw_errors := sw_errors st @ (case err of Some x \<Rightarrow> [(ps_signature s, Decoding x)] | None \<Rightarrow> [])\<rparr>;
          rows = (if err = None then rs else []) in
      if rows = [] \<and> tc_transactionFailed ctx
      then (case buildFailedTransactionRecord (ie_now e) ctx of Inl x \<Rightarrow> (st', Some x) | Inr r \<Rightarrow> (store_rows e [r] st', None))
      else (store_rows e rows st', None))"

definition ingest_transaction ::
  "ingest_env \<Rightarrow> (string option \<Rightarrow> actor_context) \<Rightarrow> program_sig \<Rightarrow> string + fetched_tx option \<Rightarrow> sweep \<Rightarrow> sweep \<times> ledger_error option" where
  "ingest_transaction e actors s answer st =
     (case answer of
        Inl m \<Rightarrow> (st\<lparr>sw_errors := sw_errors st @ [(ps_signature s, Message m)]\<rparr>, None)
      | Inr tx \<Rightarrow>
          let st' = st\<lparr>sw_fetched := sw_fetched st + 1\<rparr> in
          case tx of
            None \<Rightarrow> (st', None)
          | Some t \<Rightarrow>
              (case ft_meta t of
                 None \<Rightarrow> (st', None)
               | Some m \<Rightarrow>
                   (case mt_logMessages m of None \<Rightarrow> (st', None) | Some logs \<Rightarrow> ingest_logs e actors s t m logs st')))"

fun ingest_page ::
  "ingest_env \<Rightarrow> (string option \<Rightarrow> actor_context) \<Rightarrow> (string \<Rightarrow> string + fetched_tx option) \<Rightarrow> program_sig list \<Rightarrow> sweep \<Rightarrow> sweep \<times> ledger_error option" where
  "ingest_page e actors fetch [] st = (st, None)"
| "ingest_page e actors fetch (s # ss) st =
     (let st1 = st\<lparr>sw_oldest := Some (ps_signature s)\<rparr> in
      if MAX_TX_FETCHES_PER_CALL \<le> sw_fetched st1 then (st1, None)
      else (case ingest_transaction e actors s (fetch (ps_signature s)) st1 of
              (st2, Some x) \<Rightarrow> (st2, Some x)
            | (st2, None) \<Rightarrow> ingest_page e actors fetch ss st2))"

record walk_end =
  we_sweep :: sweep
  we_reachedRealEnd :: bool
  we_thrown :: "ingest_cause option"

fun ingest_pages :: "nat \<Rightarrow> ingest_env \<Rightarrow> (string option \<Rightarrow> actor_context) \<Rightarrow> program_rpc \<Rightarrow> string option \<Rightarrow> sweep \<Rightarrow> walk_end" where
  "ingest_pages 0 e actors rpc before st = \<lparr>we_sweep = st, we_reachedRealEnd = False, we_thrown = None\<rparr>"
| "ingest_pages (Suc n) e actors rpc before st =
     (if MAX_TX_FETCHES_PER_CALL \<le> sw_fetched st then \<lparr>we_sweep = st, we_reachedRealEnd = False, we_thrown = None\<rparr>
      else case pr_signatures rpc before of
        Inl m \<Rightarrow> \<lparr>we_sweep = st, we_reachedRealEnd = False, we_thrown = Some (Message m)\<rparr>
      | Inr sigs \<Rightarrow>
          if sigs = [] then \<lparr>we_sweep = st, we_reachedRealEnd = True, we_thrown = None\<rparr>
          else (case ingest_page e actors (pr_transaction rpc) sigs (st\<lparr>sw_walked := sw_walked st + length sigs\<rparr>) of
            (st', Some x) \<Rightarrow> \<lparr>we_sweep = st', we_reachedRealEnd = False, we_thrown = Some (Decoding x)\<rparr>
          | (st', None) \<Rightarrow>
              if length sigs < SIGNATURES_PER_PAGE then \<lparr>we_sweep = st', we_reachedRealEnd = True, we_thrown = None\<rparr>
              else ingest_pages n e actors rpc (Some (ps_signature (last sigs))) st'))"

section \<open>A sweep\<close>

record ledger_cursor =
  lc_oldest :: "string option"
  lc_complete :: bool

record ledger_db =
  ld_events :: "ledger_row list"
  ld_context :: context_db
  ld_cursors :: "((string \<times> string \<times> string) \<times> ledger_cursor) list"  \<comment> \<open>by cluster, program and source\<close>

record ingest_options =
  io_before :: "string option"
  io_maxPages :: "nat option"

record ingest_result =
  ir_signaturesWalked :: nat
  ir_transactionsFetched :: nat
  ir_eventsUpserted :: nat
  ir_reachedRealEnd :: bool
  ir_errors :: "(string \<times> ingest_cause) list"

definition cursor_key :: "ingest_env \<Rightarrow> string \<times> string \<times> string" where
  "cursor_key e = (ie_cluster e, ie_programId e, ie_source e)"

definition start_before :: "ingest_env \<Rightarrow> ingest_options \<Rightarrow> ledger_db \<Rightarrow> string option" where
  "start_before e opts db =
     (case io_before opts of
        Some b \<Rightarrow> Some b
      | None \<Rightarrow>
          (case dget (ld_cursors db) (cursor_key e) of
             None \<Rightarrow> None
           | Some c \<Rightarrow> if \<not> lc_complete c \<and> truthy_text (lc_oldest c) then lc_oldest c else None))"

definition upsertIngestCursor :: "ingest_env \<Rightarrow> string option \<Rightarrow> bool \<Rightarrow> ledger_db \<Rightarrow> ledger_db" where
  "upsertIngestCursor e oldest reachedRealEnd db =
     db\<lparr>ld_cursors := upsert (cursor_key e) \<lparr>lc_oldest = oldest, lc_complete = reachedRealEnd\<rparr>
        (\<lambda>c. \<lparr>lc_oldest = (case oldest of Some s \<Rightarrow> Some s | None \<Rightarrow> lc_oldest c), lc_complete = (lc_complete c \<or> reachedRealEnd)\<rparr>)
        (ld_cursors db)\<rparr>"

definition start_sweep :: "ledger_db \<Rightarrow> sweep" where
  "start_sweep db = \<lparr>sw_events = ld_events db, sw_walked = 0, sw_fetched = 0, sw_upserted = 0, sw_oldest = None, sw_context = [], sw_errors = []\<rparr>"

definition sweep_walk :: "ingest_env \<Rightarrow> program_rpc \<Rightarrow> ingest_options \<Rightarrow> ledger_db \<Rightarrow> walk_end" where
  "sweep_walk e rpc opts db =
     ingest_pages (case io_maxPages opts of Some n \<Rightarrow> n | None \<Rightarrow> MAX_PAGES_PER_CALL) e
       (loadReserveActorLookup (ie_cluster e) (ld_context db)) rpc (start_before e opts db) (start_sweep db)"

definition ingestProgramEvents :: "ingest_env \<Rightarrow> program_rpc \<Rightarrow> ingest_options \<Rightarrow> ledger_db \<Rightarrow> ledger_db \<times> (ingest_cause + ingest_result)" where
  \<comment> \<open>a sweep that throws leaves the rows it has inserted\<close>
  "ingestProgramEvents e rpc opts db =
     (let w = sweep_walk e rpc opts db; st = we_sweep w; db1 = db\<lparr>ld_events := sw_events st\<rparr> in
      case we_thrown w of
        Some x \<Rightarrow> (db1, Inl x)
      | None \<Rightarrow>
          let db2 = (if sw_context st \<noteq> [] then db1\<lparr>ld_context := applyReserveContextEvents (ie_cluster e) (sw_context st) (ld_context db1)\<rparr> else db1) in
          (upsertIngestCursor e (sw_oldest st) (we_reachedRealEnd w) db2,
           Inr \<lparr>ir_signaturesWalked = sw_walked st, ir_transactionsFetched = sw_fetched st, ir_eventsUpserted = sw_upserted st,
                ir_reachedRealEnd = we_reachedRealEnd w, ir_errors = sw_errors st\<rparr>))"

end
