(* ===== verification/Ledger_Sweeps.thy ===== *)
theory Ledger_Sweeps
  imports Ledger_Ingest
begin

text \<open>
  What repeated sweeps of the ledger do (\<open>lib/ledger/ingest.ts\<close>): a replay inserts nothing, because
  event ids depend on neither the actor roles nor the table; and the transaction at which the cap
  of 250 fetches stops a sweep is never ingested.
\<close>

section \<open>Replays\<close>

definition ids :: "ledger_row list \<Rightarrow> string set" where
  "ids rows = lr_event_id ` set rows"

definition same_row :: "ledger_row option \<Rightarrow> ledger_row option \<Rightarrow> bool" where
  "same_row a b \<longleftrightarrow> map_option (\<lambda>r. (lr_event_id r, lr_event_ts_utc r)) a = map_option (\<lambda>r. (lr_event_id r, lr_event_ts_utc r)) b"

lemma build_same_row:
  "case buildLedgerEventRecord ld now ev tx opts of
     Inl x \<Rightarrow> buildLedgerEventRecord ld now ev tx opts' = Inl x
   | Inr row \<Rightarrow> \<exists>row'. buildLedgerEventRecord ld now ev tx opts' = Inr row' \<and> same_row row row'"
  by (auto simp: buildLedgerEventRecord_def rbind_def Let_def same_row_def split: sum.splits option.splits)

lemma decode_same_ids:
  "map lr_event_id (fst (decode_events e actors tx slot i les)) = map lr_event_id (fst (decode_events e actors' tx slot i les)) \<and>
   snd (snd (decode_events e actors tx slot i les)) = snd (snd (decode_events e actors' tx slot i les))"
proof (induction les arbitrary: i)
  case (Cons le les)
  let ?ev = "le_event le"
  let ?row = "\<lambda>ac. buildLedgerEventRecord (ie_localeDate e) (ie_now e) ?ev (event_context tx le i) (event_options ac (ev_data ?ev))"
  show ?case
  proof (cases "?row actors")
    case (Inl x)
    then have "?row actors' = Inl x"
      using build_same_row [of "ie_localeDate e" "ie_now e" ?ev "event_context tx le i" "event_options actors' (ev_data ?ev)"
          "event_options actors (ev_data ?ev)"] by simp
    then show ?thesis using Inl by simp
  next
    case (Inr row)
    then obtain row' where "?row actors' = Inr row'" "same_row row row'"
      using build_same_row [of "ie_localeDate e" "ie_now e" ?ev "event_context tx le i" "event_options actors' (ev_data ?ev)"
          "event_options actors (ev_data ?ev)"] by auto
    then show ?thesis using Inr Cons.IH [of "Suc i"]
      by (cases row; cases row'; cases "toISOString (ie_now e)")
        (auto simp: same_row_def Let_def split: prod.splits)
  qed
qed simp

lemma ids_insert: "ids (sw_events st) \<subseteq> ids (sw_events (upsertLedgerEvent e r st))"
  by (auto simp: upsertLedgerEvent_def ids_def split: option.split)

lemma ids_store: "ids (sw_events st) \<subseteq> ids (sw_events (store_rows e rs st))"
proof (induction rs arbitrary: st)
  case (Cons r rs)
  show ?case using ids_insert [of st e r] Cons.IH [of "upsertLedgerEvent e r st"] by (auto simp: store_rows_def)
qed (simp add: store_rows_def)

definition replays :: "ledger_row list \<Rightarrow> sweep \<Rightarrow> sweep \<Rightarrow> bool" where
  \<comment> \<open>a replay on the table \<open>T\<close> is where the first run was\<close>
  "replays T st st' \<longleftrightarrow> sw_events st' = T \<and> sw_fetched st' = sw_fetched st"

lemma store_known:
  assumes "ids (sw_events (store_rows e rs st)) \<subseteq> ids T" "map lr_event_id rs = map lr_event_id rs'" "sw_events st' = T"
  shows "sw_events (store_rows e rs' st') = T"
  using assms
proof (induction rs arbitrary: rs' st st')
  case (Cons r rs)
  then obtain r' rs2 where rs': "rs' = r' # rs2" "lr_event_id r' = lr_event_id r" "map lr_event_id rs = map lr_event_id rs2" by (cases rs') auto
  have sub: "ids (sw_events (store_rows e rs (upsertLedgerEvent e r st))) \<subseteq> ids T" using Cons.prems(1) by (simp add: store_rows_def)
  then have "ids (sw_events (upsertLedgerEvent e r st)) \<subseteq> ids T" using ids_store by blast
  then have "sw_events (upsertLedgerEvent e r' st') = T"
    using Cons.prems(3) rs'(2) by (auto simp: upsertLedgerEvent_def ids_def split: option.splits if_splits)
  then show ?case using Cons.IH [OF sub rs'(3)] rs'(1) by (simp add: store_rows_def)
qed (simp add: store_rows_def)

lemma store_fetched [simp]: "sw_fetched (store_rows e rs st) = sw_fetched st"
proof (induction rs arbitrary: st)
  case (Cons r rs)
  have "sw_fetched (upsertLedgerEvent e r st) = sw_fetched st" by (simp add: upsertLedgerEvent_def split: option.split)
  then show ?case using Cons.IH [of "upsertLedgerEvent e r st"] by (simp add: store_rows_def)
qed (simp add: store_rows_def)

lemma store_replays:
  assumes "ids (sw_events (store_rows e rs st)) \<subseteq> ids T" "map lr_event_id rs = map lr_event_id rs'" "replays T st st'"
  shows "replays T (store_rows e rs st) (store_rows e rs' st')"
  using store_known [OF assms(1,2)] assms(3) by (simp add: replays_def)

lemma logs_replay:
  assumes "ingest_logs e actors s tx m logs st = (st1, x)" "ids (sw_events st1) \<subseteq> ids T" "replays T st st'"
  obtains st1' where "ingest_logs e actors' s tx m logs st' = (st1', x)" "replays T st1 st1'"
proof -
  let ?les = "parseLogsWithInstructionContext logs (ie_programId e) (ie_decode e)"
  let ?c = "tx_context e s tx m"
  obtain rs cs er where d: "decode_events e actors ?c (ft_slot tx) 0 ?les = (rs, cs, er)" by (metis prod_cases3)
  obtain rs' cs' er' where d': "decode_events e actors' ?c (ft_slot tx) 0 ?les = (rs', cs', er')" by (metis prod_cases3)
  have same: "map lr_event_id rs = map lr_event_id rs'" "er' = er"
    using decode_same_ids [of e actors ?c "ft_slot tx" 0 ?les actors'] by (simp_all add: d d')
  let ?rows = "if er = None then rs else []" and ?rows' = "if er = None then rs' else []"
  have rows: "map lr_event_id ?rows = map lr_event_id ?rows'" "(?rows = []) = (?rows' = [])" using same by (auto dest: map_eq_imp_length_eq)
  let ?note = "\<lambda>st cs. st\<lparr>sw_context := sw_context st @ cs,
      sw_errors := sw_errors st @ (case er of Some x \<Rightarrow> [(ps_signature s, Decoding x)] | None \<Rightarrow> [])\<rparr>"
  have rep: "replays T (?note st cs) (?note st' cs')" using assms(3) by (simp add: replays_def)
  show thesis
  proof (cases "?rows = [] \<and> tc_transactionFailed ?c")
    case True
    then show ?thesis
      using assms(1,2) rep store_replays [of e "[r]" "?note st cs" T "[r]" "?note st' cs'" for r] that rows
      by (auto simp: ingest_logs_def Let_def d d' same split: sum.splits)
  next
    case False
    then have "ingest_logs e actors s tx m logs st = (store_rows e ?rows (?note st cs), None)"
      "ingest_logs e actors' s tx m logs st' = (store_rows e ?rows' (?note st' cs'), None)"
      using rows(2) by (auto simp: ingest_logs_def Let_def d d' same)
    then show ?thesis using assms(1,2) that store_replays [OF _ rows(1) rep] by simp
  qed
qed

lemma transaction_replays:
  assumes "ingest_transaction e actors s answer st = (st1, x)" "ids (sw_events st1) \<subseteq> ids T" "replays T st st'"
  obtains st1' where "ingest_transaction e actors' s answer st' = (st1', x)" "replays T st1 st1'"
proof -
  have fetched: "replays T (st\<lparr>sw_fetched := Suc (sw_fetched st)\<rparr>) (st'\<lparr>sw_fetched := Suc (sw_fetched st')\<rparr>)"
    using assms(3) by (simp add: replays_def)
  have noted: "replays T (st\<lparr>sw_errors := u\<rparr>) (st'\<lparr>sw_errors := u'\<rparr>)" for u u' using assms(3) by (simp add: replays_def)
  show thesis
  proof (cases "\<exists>t m logs. answer = Inr (Some t) \<and> ft_meta t = Some m \<and> mt_logMessages m = Some logs")
    case True
    then obtain t m logs where a: "answer = Inr (Some t)" "ft_meta t = Some m" "mt_logMessages m = Some logs" by auto
    then have "ingest_logs e actors s t m logs (st\<lparr>sw_fetched := Suc (sw_fetched st)\<rparr>) = (st1, x)"
      using assms(1) by (simp add: ingest_transaction_def)
    from logs_replay [OF this assms(2) fetched] show ?thesis using that a by (auto simp: ingest_transaction_def)
  next
    case False
    then show ?thesis using assms(1) fetched noted that
      by (auto simp: ingest_transaction_def Let_def split: sum.splits option.splits)
  qed
qed

lemma transaction_ids: "ids (sw_events st) \<subseteq> ids (sw_events (fst (ingest_transaction e actors s answer st)))"
proof -
  have "ids (sw_events st) \<subseteq> ids (sw_events (fst (ingest_logs e actors s t m logs st)))" for st t m logs
    using ids_store by (fastforce simp: ingest_logs_def Let_def split: prod.splits sum.splits)
  from this [of "st\<lparr>sw_fetched := sw_fetched st + 1\<rparr>"] show ?thesis
    by (auto simp: ingest_transaction_def Let_def split: sum.splits option.splits)
qed

lemma page_ids: "ids (sw_events st) \<subseteq> ids (sw_events (fst (ingest_page e actors fetch sigs st)))"
proof (induction sigs arbitrary: st)
  case (Cons s ss)
  let ?st = "st\<lparr>sw_oldest := Some (ps_signature s)\<rparr>"
  show ?case
    using transaction_ids [of ?st e actors s "fetch (ps_signature s)"]
      Cons.IH [of "fst (ingest_transaction e actors s (fetch (ps_signature s)) ?st)"]
    by (auto simp: Let_def split: prod.splits option.splits)
qed simp

lemma page_replays:
  assumes "ingest_page e actors fetch sigs st = (st1, x)" "ids (sw_events st1) \<subseteq> ids T" "replays T st st'"
  shows "\<exists>st1'. ingest_page e actors' fetch sigs st' = (st1', x) \<and> replays T st1 st1'"
  using assms
proof (induction sigs arbitrary: st st')
  case (Cons s ss)
  let ?at = "\<lambda>st::sweep. st\<lparr>sw_oldest := Some (ps_signature s)\<rparr>"
  have at: "replays T (?at st) (?at st')" using Cons.prems(3) by (simp add: replays_def)
  show ?case
  proof (cases "MAX_TX_FETCHES_PER_CALL \<le> sw_fetched st")
    case True
    then show ?thesis using Cons.prems at by (auto simp: replays_def)
  next
    case False
    obtain st2 y where t: "ingest_transaction e actors s (fetch (ps_signature s)) (?at st) = (st2, y)" by (metis surj_pair)
    have "ids (sw_events st2) \<subseteq> ids (sw_events st1)"
      using Cons.prems(1) False t page_ids [of st2 e actors fetch ss] by (auto split: option.splits)
    then have "ids (sw_events st2) \<subseteq> ids T" using Cons.prems(2) by blast
    from transaction_replays [OF t this at] obtain st2' where
      t': "ingest_transaction e actors' s (fetch (ps_signature s)) (?at st') = (st2', y)" "replays T st2 st2'" by metis
    have f: "\<not> MAX_TX_FETCHES_PER_CALL \<le> sw_fetched st'" using False at by (simp add: replays_def)
    show ?thesis
      using Cons.prems(1,2) False f t t' Cons.IH [OF _ Cons.prems(2) t'(2)] by (cases y) auto
  qed
qed auto

lemma pages_ids: "ids (sw_events st) \<subseteq> ids (sw_events (we_sweep (ingest_pages n e actors rpc before st)))"
proof (induction n arbitrary: before st)
  case (Suc n)
  have "ids (sw_events st) \<subseteq> ids (sw_events st2)"
    if "ingest_page e actors (pr_transaction rpc) sigs (st\<lparr>sw_walked := k\<rparr>) = (st2, x)" for sigs k st2 x
    using page_ids [of "st\<lparr>sw_walked := k\<rparr>" e actors "pr_transaction rpc" sigs] that by simp
  then show ?case using Suc.IH by (fastforce simp: Let_def split: sum.splits prod.splits option.splits)
qed simp

lemma pages_replay:
  assumes "ids (sw_events (we_sweep (ingest_pages n e actors rpc before st))) \<subseteq> ids T" "replays T st st'"
  shows "replays T (we_sweep (ingest_pages n e actors rpc before st)) (we_sweep (ingest_pages n e actors' rpc before st'))"
  using assms
proof (induction n arbitrary: before st st')
  case (Suc n)
  show ?case
  proof (cases "sw_fetched st < MAX_TX_FETCHES_PER_CALL \<and> (\<exists>sigs. pr_signatures rpc before = Inr sigs \<and> sigs \<noteq> [])")
    case False
    then show ?thesis using Suc.prems(2) by (auto simp: replays_def split: sum.splits)
  next
    case True
    then obtain sigs where sigs: "pr_signatures rpc before = Inr sigs" "sigs \<noteq> []" and f: "\<not> MAX_TX_FETCHES_PER_CALL \<le> sw_fetched st"
      by auto
    let ?w = "\<lambda>st::sweep. st\<lparr>sw_walked := sw_walked st + length sigs\<rparr>"
    obtain st2 x where p: "ingest_page e actors (pr_transaction rpc) sigs (?w st) = (st2, x)" by (metis surj_pair)
    have "ids (sw_events st2) \<subseteq> ids (sw_events (we_sweep (ingest_pages (Suc n) e actors rpc before st)))"
      using pages_ids [of st2 n e actors rpc "Some (ps_signature (last sigs))"] sigs f p by (auto split: option.splits)
    then have T: "ids (sw_events st2) \<subseteq> ids T" using Suc.prems(1) by blast
    have "replays T (?w st) (?w st')" using Suc.prems(2) by (simp add: replays_def)
    then obtain st2' where p': "ingest_page e actors' (pr_transaction rpc) sigs (?w st') = (st2', x)" "replays T st2 st2'"
      using page_replays [OF p T] by blast
    have f': "\<not> MAX_TX_FETCHES_PER_CALL \<le> sw_fetched st'" using f Suc.prems(2) by (simp add: replays_def)
    show ?thesis using Suc.prems(1) sigs f f' p p' T Suc.IH [OF _ p'(2)] by (auto split: option.splits)
  qed
qed simp

lemma sweep_events: "ld_events (fst (ingestProgramEvents e rpc opts db)) = sw_events (we_sweep (sweep_walk e rpc opts db))"
  by (simp add: ingestProgramEvents_def Let_def upsertIngestCursor_def split: option.split)


section \<open>The transaction at the cap\<close>

definition page_start :: "program_sig list \<Rightarrow> nat \<Rightarrow> string option" where
  "page_start history p = (if p = 0 then None else Some (ps_signature (history ! (p - 1))))"

definition serves_history :: "program_rpc \<Rightarrow> program_sig list \<Rightarrow> bool" where
  \<comment> \<open>\<open>getSignaturesForAddress\<close>: newest first, strictly older than \<open>before\<close>, 100 at most\<close>
  "serves_history rpc history \<longleftrightarrow>
     (\<forall>p \<le> length history. pr_signatures rpc (page_start history p) = Inr (take SIGNATURES_PER_PAGE (drop p history)))"

lemma logs_fetched [simp]: "sw_fetched (fst (ingest_logs e actors s tx m logs st)) = sw_fetched st"
  by (auto simp: ingest_logs_def Let_def split: prod.split sum.split)

lemma transaction_fetched: "sw_fetched (fst (ingest_transaction e actors s (Inr tx) st)) = sw_fetched st + 1"
  by (auto simp: ingest_transaction_def Let_def split: option.split)

lemma logs_oldest: "sw_oldest (fst (ingest_logs e actors s tx m logs st)) = sw_oldest st"
proof -
  have u: "sw_oldest (upsertLedgerEvent e r st) = sw_oldest st" for r st by (simp add: upsertLedgerEvent_def split: option.split)
  have "sw_oldest (store_rows e rs st) = sw_oldest st" for rs st
    unfolding store_rows_def by (induction rs arbitrary: st) (auto simp: u)
  then show ?thesis by (auto simp: ingest_logs_def Let_def split: prod.split sum.split)
qed

lemma transaction_oldest: "sw_oldest (fst (ingest_transaction e actors s answer st)) = sw_oldest st"
  using logs_oldest by (auto simp: ingest_transaction_def Let_def split: sum.split option.split)

lemma page_agrees:
  assumes "\<forall>s \<in> set (take (MAX_TX_FETCHES_PER_CALL - sw_fetched st) sigs). \<exists>tx. fetch (ps_signature s) = Inr tx \<and> fetch' (ps_signature s) = Inr tx"
  shows "ingest_page e actors fetch sigs st = ingest_page e actors fetch' sigs st"
  using assms
proof (induction sigs arbitrary: st)
  case (Cons s ss)
  show ?case
  proof (cases "MAX_TX_FETCHES_PER_CALL \<le> sw_fetched st")
    case False
    let ?at = "st\<lparr>sw_oldest := Some (ps_signature s)\<rparr>"
    from False obtain k where k: "MAX_TX_FETCHES_PER_CALL - sw_fetched st = Suc k" "MAX_TX_FETCHES_PER_CALL - (sw_fetched st + 1) = k"
      by (metis Suc_diff_Suc add.commute leI plus_1_eq_Suc)
    obtain tx where tx: "fetch (ps_signature s) = Inr tx" "fetch' (ps_signature s) = Inr tx" using Cons.prems k(1) by auto
    obtain st2 x where t: "ingest_transaction e actors s (Inr tx) ?at = (st2, x)" by (metis surj_pair)
    then have "sw_fetched st2 = sw_fetched st + 1" using transaction_fetched [of e actors s tx ?at] by simp
    then show ?thesis using Cons.IH [of st2] Cons.prems False tx t k by (cases x) auto
  qed simp
qed simp

lemma page_agrees_everywhere:
  assumes "\<forall>s \<in> set sigs. fetch (ps_signature s) = fetch' (ps_signature s)"
  shows "ingest_page e actors fetch sigs st = ingest_page e actors fetch' sigs st"
  using assms by (induction sigs arbitrary: st) (auto simp: Let_def split: prod.split option.split)

lemma page_end:
  assumes "\<forall>s \<in> set (take (MAX_TX_FETCHES_PER_CALL - sw_fetched st) sigs). \<exists>tx. fetch (ps_signature s) = Inr tx"
    and "ingest_page e actors fetch sigs st = (st', None)" and "sigs \<noteq> []" and "sw_fetched st \<le> MAX_TX_FETCHES_PER_CALL"
  shows "(let k = MAX_TX_FETCHES_PER_CALL - sw_fetched st in
     if k < length sigs then sw_fetched st' = MAX_TX_FETCHES_PER_CALL \<and> sw_oldest st' = Some (ps_signature (sigs ! k))
     else sw_fetched st' = sw_fetched st + length sigs)"
  using assms
proof (induction sigs arbitrary: st)
  case (Cons s ss)
  show ?case
  proof (cases "MAX_TX_FETCHES_PER_CALL \<le> sw_fetched st")
    case False
    let ?at = "st\<lparr>sw_oldest := Some (ps_signature s)\<rparr>"
    from False obtain k where k: "MAX_TX_FETCHES_PER_CALL - sw_fetched st = Suc k" "MAX_TX_FETCHES_PER_CALL - (sw_fetched st + 1) = k"
      by (metis Suc_diff_Suc add.commute leI plus_1_eq_Suc)
    obtain tx where tx: "fetch (ps_signature s) = Inr tx" using Cons.prems(1) k(1) by auto
    obtain st2 x where t: "ingest_transaction e actors s (Inr tx) ?at = (st2, x)" by (metis surj_pair)
    then have f: "sw_fetched st2 = sw_fetched st + 1" using transaction_fetched [of e actors s tx ?at] by simp
    have r: "ingest_page e actors fetch ss st2 = (st', None)" and x: "x = None" using Cons.prems(2) False tx t by (auto split: option.splits)
    show ?thesis
    proof (cases "ss = []")
      case True
      then show ?thesis using r f k by simp
    next
      case ss: False
      have "\<forall>s \<in> set (take (MAX_TX_FETCHES_PER_CALL - sw_fetched st2) ss). \<exists>tx. fetch (ps_signature s) = Inr tx"
        using Cons.prems(1) k f by simp
      from Cons.IH [OF this r ss] show ?thesis using False f k by (auto simp: Let_def)
    qed
  qed (use Cons.prems in \<open>auto simp: Let_def\<close>)
qed simp

lemma page_oldest:
  "ingest_page e actors fetch sigs st = (st', x) \<Longrightarrow> sw_oldest st' = sw_oldest st \<or> sw_oldest st' \<in> (Some \<circ> ps_signature) ` set sigs"
proof (induction sigs arbitrary: st)
  case (Cons s ss)
  let ?at = "st\<lparr>sw_oldest := Some (ps_signature s)\<rparr>"
  obtain st2 y where t: "ingest_transaction e actors s (fetch (ps_signature s)) ?at = (st2, y)" by (metis surj_pair)
  have "sw_oldest st2 = Some (ps_signature s)" using transaction_oldest [of e actors s "fetch (ps_signature s)" ?at] t by simp
  then show ?case using Cons.prems Cons.IH [of st2] t by (cases y) (auto simp: Let_def split: if_splits)
qed auto

lemma pages_step:
  assumes "pr_signatures rpc before = Inr sigs" "sigs \<noteq> []" "\<not> MAX_TX_FETCHES_PER_CALL \<le> sw_fetched st"
    and "ingest_page e actors (pr_transaction rpc) sigs (st\<lparr>sw_walked := sw_walked st + length sigs\<rparr>) = (st', x)"
  shows "ingest_pages (Suc n) e actors rpc before st =
    (case x of
       Some y \<Rightarrow> \<lparr>we_sweep = st', we_reachedRealEnd = False, we_thrown = Some (Decoding y)\<rparr>
     | None \<Rightarrow> if length sigs < SIGNATURES_PER_PAGE then \<lparr>we_sweep = st', we_reachedRealEnd = True, we_thrown = None\<rparr>
              else ingest_pages n e actors rpc (Some (ps_signature (last sigs))) st')"
  using assms by simp

lemma first_pages:
  assumes rpc: "serves_history rpc history" "serves_history rpc' history" and len: "250 < length history"
    and answers: "\<forall>i < 250. \<exists>tx. pr_transaction rpc (ps_signature (history ! i)) = Inr tx \<and> pr_transaction rpc' (ps_signature (history ! i)) = Inr tx"
    and "j \<le> 2" "3 \<le> n + j" "sw_fetched st = 100 * j"
  shows "ingest_pages n e actors rpc (page_start history (100 * j)) st = ingest_pages n e actors rpc' (page_start history (100 * j)) st \<and>
    (we_thrown (ingest_pages n e actors rpc (page_start history (100 * j)) st) = None \<longrightarrow>
       sw_oldest (we_sweep (ingest_pages n e actors rpc (page_start history (100 * j)) st)) = Some (ps_signature (history ! 250)))"
  using assms(5-7)
proof (induction n arbitrary: j st)
  case (Suc n)
  let ?sigs = "take SIGNATURES_PER_PAGE (drop (100 * j) history)"
  let ?st = "st\<lparr>sw_walked := sw_walked st + length ?sigs\<rparr>"
  have page: "pr_signatures rpc (page_start history (100 * j)) = Inr ?sigs" "pr_signatures rpc' (page_start history (100 * j)) = Inr ?sigs"
    using rpc len Suc.prems(1) by (simp_all add: serves_history_def)
  have ne: "?sigs \<noteq> []" and f: "\<not> MAX_TX_FETCHES_PER_CALL \<le> sw_fetched st"
    using len Suc.prems by (simp_all add: SIGNATURES_PER_PAGE_def MAX_TX_FETCHES_PER_CALL_def)
  have elem: "\<exists>i < 250. s = history ! i" if s: "s \<in> set (take (MAX_TX_FETCHES_PER_CALL - sw_fetched ?st) ?sigs)" for s
  proof -
    from s obtain k where "k < length (take (MAX_TX_FETCHES_PER_CALL - sw_fetched ?st) ?sigs)"
        "s = take (MAX_TX_FETCHES_PER_CALL - sw_fetched ?st) ?sigs ! k" unfolding in_set_conv_nth by blast
    then show ?thesis using Suc.prems by (intro exI [of _ "100 * j + k"]) (auto simp: MAX_TX_FETCHES_PER_CALL_def)
  qed
  have agree: "ingest_page e actors (pr_transaction rpc) ?sigs ?st = ingest_page e actors (pr_transaction rpc') ?sigs ?st"
    by (rule page_agrees) (use elem answers in blast)
  obtain st' x where p: "ingest_page e actors (pr_transaction rpc) ?sigs ?st = (st', x)" by (metis surj_pair)
  note step = pages_step [OF page(1) ne f p] pages_step [OF page(2) ne f p [unfolded agree]]
  show ?case
  proof (cases x)
    case (Some y)
    then show ?thesis by (simp only: step option.case) simp
  next
    case None
    have "\<forall>s \<in> set (take (MAX_TX_FETCHES_PER_CALL - sw_fetched ?st) ?sigs). \<exists>tx. pr_transaction rpc (ps_signature s) = Inr tx"
      using elem answers by blast
    from page_end [OF this p [unfolded None] ne] f
    have e: "if 250 - 100 * j < length ?sigs then sw_fetched st' = 250 \<and> sw_oldest st' = Some (ps_signature (?sigs ! (250 - 100 * j)))
        else sw_fetched st' = 100 * j + length ?sigs"
      using Suc.prems(3) by (simp add: Let_def MAX_TX_FETCHES_PER_CALL_def)
    show ?thesis
    proof (cases "j = 2")
      case True
      have e2: "sw_fetched st' = 250" "sw_oldest st' = Some (ps_signature (history ! 250))"
        using e True len by (auto simp: SIGNATURES_PER_PAGE_def)
      have stop: "ingest_pages n e actors r b st' = \<lparr>we_sweep = st', we_reachedRealEnd = False, we_thrown = None\<rparr>" for r b
        using e2 by (cases n) (auto simp: MAX_TX_FETCHES_PER_CALL_def)
      show ?thesis by (simp only: step None option.case) (simp add: e2 stop)
    next
      case False
      then have j: "j \<le> 1" using Suc.prems(1) by simp
      have full: "length ?sigs = 100" using len j by (simp add: SIGNATURES_PER_PAGE_def)
      then have f': "sw_fetched st' = 100 * (j + 1)" using e j by auto
      have "last ?sigs = history ! (100 * j + 99)"
        using full len j by (simp add: last_conv_nth ne nth_append SIGNATURES_PER_PAGE_def)
      then have "Some (ps_signature (last ?sigs)) = page_start history (100 * (j + 1))" by (simp add: page_start_def add.commute)
      moreover have "\<not> length ?sigs < SIGNATURES_PER_PAGE" using full by (simp add: SIGNATURES_PER_PAGE_def)
      ultimately have next_page:
        "ingest_pages (Suc n) e actors rpc (page_start history (100 * j)) st = ingest_pages n e actors rpc (page_start history (100 * (j + 1))) st'"
        "ingest_pages (Suc n) e actors rpc' (page_start history (100 * j)) st = ingest_pages n e actors rpc' (page_start history (100 * (j + 1))) st'"
        by (simp_all only: step None option.case if_False)
      have "j + 1 \<le> 2" "3 \<le> n + (j + 1)" using j Suc.prems(2) by simp_all
      then show ?thesis unfolding next_page by (rule Suc.IH [OF _ _ f'])
    qed
  qed
qed simp

lemma later_pages:
  assumes rpc: "serves_history rpc history" "serves_history rpc' history"
    and answers: "\<forall>i < length history. 250 < i \<longrightarrow> pr_transaction rpc (ps_signature (history ! i)) = pr_transaction rpc' (ps_signature (history ! i))"
    and "250 < p" "p \<le> length history"
  shows "ingest_pages n e actors rpc (page_start history p) st = ingest_pages n e actors rpc' (page_start history p) st \<and>
    (sw_oldest (we_sweep (ingest_pages n e actors rpc (page_start history p) st)) = sw_oldest st \<or>
     (\<exists>q < length history. 250 < q \<and> sw_oldest (we_sweep (ingest_pages n e actors rpc (page_start history p) st)) = Some (ps_signature (history ! q))))"
  using assms(4,5)
proof (induction n arbitrary: p st)
  case (Suc n)
  let ?sigs = "take SIGNATURES_PER_PAGE (drop p history)"
  let ?st = "st\<lparr>sw_walked := sw_walked st + length ?sigs\<rparr>"
  have page: "pr_signatures rpc (page_start history p) = Inr ?sigs" "pr_signatures rpc' (page_start history p) = Inr ?sigs"
    using rpc Suc.prems(2) by (simp_all add: serves_history_def)
  have elem: "\<exists>i < length history. 250 < i \<and> s = history ! i" if s: "s \<in> set ?sigs" for s
  proof -
    from s obtain k where "k < length ?sigs" "s = ?sigs ! k" unfolding in_set_conv_nth by blast
    then show ?thesis using Suc.prems by (intro exI [of _ "p + k"]) auto
  qed
  have agree: "ingest_page e actors (pr_transaction rpc) ?sigs ?st = ingest_page e actors (pr_transaction rpc') ?sigs ?st"
    by (rule page_agrees_everywhere) (use elem answers in blast)
  obtain st' x where p: "ingest_page e actors (pr_transaction rpc) ?sigs ?st = (st', x)" by (metis surj_pair)
  have old: "sw_oldest st' = sw_oldest st \<or> (\<exists>q < length history. 250 < q \<and> sw_oldest st' = Some (ps_signature (history ! q)))"
    using page_oldest [OF p] elem by fastforce
  show ?case
  proof (cases "MAX_TX_FETCHES_PER_CALL \<le> sw_fetched st \<or> ?sigs = []")
    case True
    then show ?thesis using page by auto
  next
    case False
    then have ne: "?sigs \<noteq> []" and f: "\<not> MAX_TX_FETCHES_PER_CALL \<le> sw_fetched st" by auto
    note step = pages_step [OF page(1) ne f p] pages_step [OF page(2) ne f p [unfolded agree]]
    show ?thesis
    proof (cases "x = None \<and> \<not> length ?sigs < SIGNATURES_PER_PAGE")
      case True
      then have full: "p + 100 \<le> length history" by (auto simp: SIGNATURES_PER_PAGE_def split: if_splits)
      have "last ?sigs = history ! (p + 99)" using ne full by (simp add: last_conv_nth SIGNATURES_PER_PAGE_def)
      then have "Some (ps_signature (last ?sigs)) = page_start history (p + 100)" by (simp add: page_start_def add.commute)
      then have "ingest_pages (Suc n) e actors rpc (page_start history p) st = ingest_pages n e actors rpc (page_start history (p + 100)) st'"
        "ingest_pages (Suc n) e actors rpc' (page_start history p) st = ingest_pages n e actors rpc' (page_start history (p + 100)) st'"
        using True step by simp_all
      then show ?thesis using Suc.IH [of "p + 100" st'] full Suc.prems(1) old by auto
    next
      case False
      then show ?thesis using step old by (auto split: option.splits)
    qed
  qed
qed simp

definition key_below_cap :: "string \<times> string \<times> string \<Rightarrow> program_sig list \<Rightarrow> ledger_db \<Rightarrow> bool" where
  "key_below_cap key history db \<longleftrightarrow>
     (case dget (ld_cursors db) key of
        None \<Rightarrow> True
      | Some c \<Rightarrow> lc_oldest c = None \<or> (\<exists>q < length history. 250 \<le> q \<and> lc_oldest c = Some (ps_signature (history ! q))))"

definition next_sweep :: "program_rpc \<Rightarrow> ledger_db \<Rightarrow> ingest_env \<Rightarrow> ledger_db" where
  \<comment> \<open>one more call, without options\<close>
  "next_sweep rpc db e = fst (ingestProgramEvents e rpc \<lparr>io_before = None, io_maxPages = None\<rparr> db)"

lemma sweep_below_cap:
  assumes rpc: "serves_history rpc history" "serves_history rpc' history" and len: "250 < length history"
    and answers: "\<forall>i < length history. i \<noteq> 250 \<longrightarrow>
      (\<exists>tx. pr_transaction rpc (ps_signature (history ! i)) = Inr tx \<and> pr_transaction rpc' (ps_signature (history ! i)) = Inr tx)"
    and below: "key_below_cap (cursor_key e) history db"
  shows "next_sweep rpc db e = next_sweep rpc' db e \<and> key_below_cap (cursor_key e) history (next_sweep rpc db e)"
proof -
  let ?o = "\<lparr>io_before = None, io_maxPages = None\<rparr>"
  let ?w = "\<lambda>r. sweep_walk e r ?o db"
  let ?start = "start_before e ?o db"
  have ok: "?w rpc = ?w rpc' \<and> (we_thrown (?w rpc) = None \<longrightarrow> sw_oldest (we_sweep (?w rpc)) = None \<or>
      (\<exists>q < length history. 250 \<le> q \<and> sw_oldest (we_sweep (?w rpc)) = Some (ps_signature (history ! q))))"
  proof (cases ?start)
    case None
    then have "page_start history (100 * 0) = ?start" by (simp add: page_start_def)
    then show ?thesis
      using first_pages [OF rpc len, of 0 3 "start_sweep db" e "loadReserveActorLookup (ie_cluster e) (ld_context db)"] answers len
      by (auto simp: sweep_walk_def MAX_PAGES_PER_CALL_def start_sweep_def)
  next
    case (Some b)
    then obtain q where q: "q < length history" "250 \<le> q" "?start = Some (ps_signature (history ! q))"
      using below by (auto simp: start_before_def key_below_cap_def split: option.splits if_splits)
    then have start: "page_start history (q + 1) = ?start" by (simp add: page_start_def)
    have "\<forall>i < length history. 250 < i \<longrightarrow> pr_transaction rpc (ps_signature (history ! i)) = pr_transaction rpc' (ps_signature (history ! i))"
      using answers by force
    from later_pages [OF rpc this, of "q + 1" MAX_PAGES_PER_CALL e "loadReserveActorLookup (ie_cluster e) (ld_context db)" "start_sweep db"]
    show ?thesis using q(1,2) unfolding start by (auto simp: sweep_walk_def start_sweep_def)
  qed
  have "next_sweep rpc db e = next_sweep rpc' db e" using ok by (simp add: next_sweep_def ingestProgramEvents_def)
  moreover have "key_below_cap (cursor_key e) history (next_sweep rpc db e)"
    using ok below
    by (auto simp: next_sweep_def ingestProgramEvents_def Let_def upsertIngestCursor_def upsert_def key_below_cap_def od.get_put
        split: option.splits)
  ultimately show ?thesis by simp
qed

text \<open>C28: When a history has more than 250 transactions, the sweep that starts at its newest one takes the 251st for walked
  although its cap stopped it from fetching that one, and the next sweep starts below it: what the ledger holds after
  any number of sweeps does not depend on that transaction.\<close>

theorem capped_sweep_skips_a_transaction:
  assumes rpc: "serves_history rpc history" "serves_history rpc' history" and len: "250 < length history"
    and answers: "\<forall>i < length history. i \<noteq> 250 \<longrightarrow>
      (\<exists>tx. pr_transaction rpc (ps_signature (history ! i)) = Inr tx \<and> pr_transaction rpc' (ps_signature (history ! i)) = Inr tx)"
    and "dget (ld_cursors db) key = None" and key: "\<forall>e \<in> set es. cursor_key e = key"
  shows "foldl (next_sweep rpc) db es = foldl (next_sweep rpc') db es"
proof -
  have "key_below_cap key history db" using assms(5) by (simp add: key_below_cap_def)
  then show ?thesis using key
  proof (induction es arbitrary: db)
    case (Cons e es)
    then have "cursor_key e = key" by simp
    then have "next_sweep rpc db e = next_sweep rpc' db e" "key_below_cap key history (next_sweep rpc db e)"
      using sweep_below_cap [OF rpc len answers, of e db] Cons.prems(1) by blast+
    then show ?case using Cons.IH [of "next_sweep rpc db e"] Cons.prems(2) by simp
  qed simp
qed

section \<open>Concrete sweeps\<close>

definition honest_program :: "program_sig list \<Rightarrow> (string \<Rightarrow> string + fetched_tx option) \<Rightarrow> program_rpc" where
  "honest_program history fetch =
     \<lparr>pr_signatures = (\<lambda>before. Inr (take SIGNATURES_PER_PAGE
        (case before of None \<Rightarrow> history | Some b \<Rightarrow> tl (dropWhile (\<lambda>s. ps_signature s \<noteq> b) history)))),
      pr_transaction = fetch\<rparr>"

lemma dropWhile_to_nth:
  "distinct (map f xs) \<Longrightarrow> i < length xs \<Longrightarrow> dropWhile (\<lambda>x. f x \<noteq> f (xs ! i)) xs = drop i xs"
proof (induction xs arbitrary: i)
  case (Cons x xs)
  then show ?case by (cases i) (auto simp: image_iff dest!: nth_mem)
qed simp

lemma honest_serves:
  assumes "distinct (map ps_signature history)"
  shows "serves_history (honest_program history fetch) history"
proof -
  have "tl (dropWhile (\<lambda>s. ps_signature s \<noteq> ps_signature (history ! (p - 1))) history) = drop p history"
    if "p \<le> length history" "p \<noteq> 0" for p
    using dropWhile_to_nth [OF assms, of "p - 1"] that by (simp add: drop_Suc [symmetric] tl_drop)
  then show ?thesis by (auto simp: serves_history_def honest_program_def page_start_def)
qed

definition demo_ingest_env :: ingest_env where
  "demo_ingest_env = \<lparr>ie_cluster = ''devnet'', ie_programId = ''P'', ie_source = ''backfill'', ie_localeDate = (\<lambda>n. []),
     ie_decode = (\<lambda>l. None), ie_now = 0, ie_refused = (\<lambda>i. None)\<rparr>"

definition failed_tx :: fetched_tx where
  "failed_tx = \<lparr>ft_slot = 7, ft_blockTime = Some 0, ft_feePayer = Some ''W'',
     ft_meta = Some \<lparr>mt_err = Some ''e'', mt_fee = 5000, mt_computeUnitsConsumed = None, mt_logMessages = Some []\<rparr>\<rparr>"

definition empty_ledger :: ledger_db where
  "empty_ledger = \<lparr>ld_events = [], ld_context = \<lparr>cx_reserves = [], cx_delegates = []\<rparr>, ld_cursors = []\<rparr>"

definition sig_at :: "nat \<Rightarrow> program_sig" where
  "sig_at i = \<lparr>ps_signature = nat_str i, ps_err = None, ps_blockTime = None\<rparr>"

definition no_options :: ingest_options where
  "no_options = \<lparr>io_before = None, io_maxPages = None\<rparr>"

definition one_failure :: program_rpc where
  "one_failure = honest_program [sig_at 1] (\<lambda>s. Inr (Some failed_tx))"


definition long_history :: "program_sig list" where
  "long_history = map sig_at [0..<260]"

theorem capped_sweep_skips_a_transaction_witness:
  "let quiet = honest_program long_history (\<lambda>s. Inr None);
       eventful = honest_program long_history (\<lambda>s. if s = nat_str 250 then Inr (Some failed_tx) else Inr None) in
   foldl (next_sweep quiet) empty_ledger [demo_ingest_env, demo_ingest_env] =
   foldl (next_sweep eventful) empty_ledger [demo_ingest_env, demo_ingest_env]"
proof -
  let ?quiet = "honest_program long_history (\<lambda>s. Inr None)"
  let ?eventful = "honest_program long_history (\<lambda>s. if s = nat_str 250 then Inr (Some failed_tx) else Inr None)"
  have d: "distinct (map ps_signature long_history)"
    by (auto simp: long_history_def sig_at_def distinct_map inj_on_def)
  have l: "250 < length long_history" by (simp add: long_history_def)
  have a: "\<forall>i < length long_history. i \<noteq> 250 \<longrightarrow>
      (\<exists>tx. pr_transaction ?quiet (ps_signature (long_history ! i)) = Inr tx \<and> pr_transaction ?eventful (ps_signature (long_history ! i)) = Inr tx)"
    by (auto simp: honest_program_def long_history_def sig_at_def)
  have k: "\<forall>e \<in> set [demo_ingest_env, demo_ingest_env]. cursor_key e = cursor_key demo_ingest_env" by simp
  have c: "dget (ld_cursors empty_ledger) (cursor_key demo_ingest_env) = None" by (simp add: empty_ledger_def)
  show ?thesis
    unfolding Let_def by (rule capped_sweep_skips_a_transaction [OF honest_serves [OF d] honest_serves [OF d] l a c k])
qed

end
