(* ===== verification/Proposal.thy ===== *)
theory Proposal
  imports Js_Number Ssr_Base
begin

text \<open>
  The target weights a manager edits (\<open>src/merge/lib/rebalanceSlider.ts\<close>) and how they are
  derived from the Reserve's weights on chain (\<open>rebalanceProposal.ts\<close>). Weights are basis points,
  integers far below 2^53, so their sums are exact; the proportional shares are binary64. The
  keys of a \<open>Record\<close> are mints, whose base58 text is no array index, so they keep their order.
\<close>

section \<open>Sharing an amount\<close>

record slider_asset =
  sa_mint :: string
  sa_weightBps :: int

type_synonym weights = "(string \<times> int) list"

definition TOTAL_BPS :: int where "TOTAL_BPS = 10000"

definition floor_of :: "number \<Rightarrow> int" where
  \<comment> \<open>\<open>Math.floor\<close>; the products it is applied to are finite\<close>
  "floor_of x = (case x of Fin a \<Rightarrow> \<lfloor>a\<rfloor> | _ \<Rightarrow> 0)"

definition pool_share :: "slider_asset list \<Rightarrow> int \<Rightarrow> slider_asset \<Rightarrow> number" where
  "pool_share pool poolTotal a =
     (if poolTotal > 0 then num_div (num_of_int (sa_weightBps a)) (num_of_int poolTotal)
      else num_div (Fin 1) (num_of_int (int (length pool))))"

definition share_floor :: "slider_asset list \<Rightarrow> int \<Rightarrow> int \<Rightarrow> slider_asset \<Rightarrow> int" where
  "share_floor pool poolTotal amount a = floor_of (num_mul (num_of_int amount) (pool_share pool poolTotal a))"

definition weight_in :: "weights \<Rightarrow> string \<Rightarrow> int" where
  "weight_in w m = (case dget w m of Some v \<Rightarrow> v | None \<Rightarrow> 0)"

fun spread :: "nat \<Rightarrow> bool \<Rightarrow> string list \<Rightarrow> nat \<Rightarrow> int \<Rightarrow> weights \<Rightarrow> weights" where
  \<comment> \<open>the loop over the leftover, at most \<open>safety\<close> times; the flag is \<open>direction === "add"\<close>\<close>
  "spread 0 up mints idx leftover w = w"
| "spread (Suc safety) up mints idx leftover w =
     (if 0 < leftover
      then let m = mints ! (idx mod length mints); cur = weight_in w m in
        if up then spread safety up mints (Suc idx) (leftover - 1) (dput m (cur + 1) w)
        else if 0 < cur then spread safety up mints (Suc idx) (leftover - 1) (dput m (cur - 1) w)
        else spread safety up mints (Suc idx) leftover w
      else w)"

definition moved :: "bool \<Rightarrow> int \<Rightarrow> int \<Rightarrow> int" where
  "moved up base fl = (if up then base + fl else max 0 (base - fl))"

definition distributeProportionally :: "slider_asset list \<Rightarrow> int \<Rightarrow> bool \<Rightarrow> weights" where
  "distributeProportionally pool amount up =
     (if pool = [] then []
      else if amount \<le> 0 then foldl (\<lambda>r a. dput (sa_mint a) (sa_weightBps a) r) [] pool
      else
        let poolTotal = sum_list (map sa_weightBps pool);
            capped = (if up then amount else min amount poolTotal);
            fl = share_floor pool poolTotal capped;
            result = foldl (\<lambda>r a. dput (sa_mint a) (moved up (sa_weightBps a) (fl a)) r) [] pool;
            allocated = sum_list (map (\<lambda>a. \<bar>moved up (sa_weightBps a) (fl a) - sa_weightBps a\<bar>) pool) in
        spread (length pool * length pool + length pool + 5) up (map sa_mint pool) 0 (capped - allocated) result)"

section \<open>One edit\<close>

definition byMint :: "slider_asset list \<Rightarrow> weights" where
  "byMint assets = foldl (\<lambda>r a. dput (sa_mint a) (sa_weightBps a) r) [] assets"

definition set_all :: "weights \<Rightarrow> weights \<Rightarrow> weights" where
  "set_all changes w = foldl (\<lambda>r (m, v). dput m v r) w changes"

definition read_back :: "weights \<Rightarrow> slider_asset list \<Rightarrow> slider_asset list" where
  "read_back w assets =
     map (\<lambda>a. \<lparr>sa_mint = sa_mint a, sa_weightBps = (case dget w (sa_mint a) of Some v \<Rightarrow> v | None \<Rightarrow> sa_weightBps a)\<rparr>) assets"

definition clamped_weight :: "rat \<Rightarrow> int" where
  "clamped_weight x = max 0 (min 10000 \<lfloor>x + 1 / 2\<rfloor>)"

definition with_mint :: "string \<Rightarrow> slider_asset list \<Rightarrow> slider_asset option" where
  "with_mint m assets = find (\<lambda>a. sa_mint a = m) assets"

definition applySliderWeightChange :: "slider_asset list \<Rightarrow> string \<Rightarrow> rat \<Rightarrow> string \<Rightarrow> slider_asset list" where
  \<comment> \<open>of a finite \<open>newWeightBps\<close>\<close>
  "applySliderWeightChange assets editedMint newWeightBps devUsdcMint =
     (case with_mint editedMint assets of
        None \<Rightarrow> assets
      | Some edited \<Rightarrow>
          let clamped = clamped_weight newWeightBps; delta = clamped - sa_weightBps edited in
          if delta = 0 then assets
          else
            let w = byMint assets in
            read_back (dput editedMint clamped
              (if editedMint = devUsdcMint \<or> with_mint devUsdcMint assets = None
               then set_all (distributeProportionally (filter (\<lambda>a. sa_mint a \<noteq> editedMint) assets) \<bar>delta\<bar> (delta < 0)) w
               else if delta < 0 then dput devUsdcMint (weight_in w devUsdcMint - delta) w
               else
                 let available = weight_in w devUsdcMint; drawn = min delta available;
                     w' = dput devUsdcMint (available - drawn) w; needed = delta - drawn in
                 if 0 < needed
                 then set_all (distributeProportionally
                        (filter (\<lambda>a. sa_mint a \<noteq> editedMint \<and> sa_mint a \<noteq> devUsdcMint) assets) needed False) w'
                 else w')) assets)"

section \<open>The proposal\<close>

definition normalizeProposal :: "slider_asset list \<Rightarrow> string \<Rightarrow> string set \<Rightarrow> slider_asset list" where
  "normalizeProposal rows cashMint frozen =
     (let diff = TOTAL_BPS - sum_list (map sa_weightBps rows) in
      if diff = 0 \<or> rows = [] then rows
      else
        let w = byMint rows; cash = with_mint cashMint rows in
        read_back
          (if 0 < diff
           then (case cash of
                   Some c \<Rightarrow>
                     if cashMint \<notin> frozen then dput cashMint (sa_weightBps c + diff) w
                     else set_all (distributeProportionally
                       (let pool = filter (\<lambda>a. sa_mint a \<notin> frozen) rows in if pool \<noteq> [] then pool else rows) diff True) w
                 | None \<Rightarrow>
                     set_all (distributeProportionally
                       (let pool = filter (\<lambda>a. sa_mint a \<notin> frozen) rows in if pool \<noteq> [] then pool else rows) diff True) w)
           else
             let fromCash = (case cash of Some c \<Rightarrow> min (- diff) (sa_weightBps c) | None \<Rightarrow> 0);
                 w' = (case cash of Some c \<Rightarrow> dput cashMint (sa_weightBps c - fromCash) w | None \<Rightarrow> w);
                 excess = - diff - fromCash in
             if 0 < excess
             then set_all (distributeProportionally (filter (\<lambda>a. sa_mint a \<noteq> cashMint) rows) excess False) w'
             else w') rows)"

record reseeded_proposal =
  rp_weights :: weights
  rp_chainSeen :: weights

definition reseed_row :: "weights \<Rightarrow> weights \<Rightarrow> string set \<Rightarrow> slider_asset \<Rightarrow> slider_asset" where
  "reseed_row prev chainSeen forcedZero a =
     (let changed = (dget chainSeen (sa_mint a) \<noteq> Some (sa_weightBps a) \<or> dget prev (sa_mint a) = None) in
      \<lparr>sa_mint = sa_mint a,
       sa_weightBps = (if sa_mint a \<in> forcedZero then 0 else if changed then sa_weightBps a else weight_in prev (sa_mint a))\<rparr>)"

definition proposal_rows :: "weights \<Rightarrow> slider_asset list \<Rightarrow> weights \<Rightarrow> string \<Rightarrow> string set \<Rightarrow> slider_asset list" where
  "proposal_rows prev onChain chainSeen cashMint forcedZero =
     (let rows = map (reseed_row prev chainSeen forcedZero) onChain
               @ map (\<lambda>(m, v). \<lparr>sa_mint = m, sa_weightBps = (if m \<in> forcedZero then 0 else v)\<rparr>)
                   (filter (\<lambda>(m, v). m \<notin> sa_mint ` set onChain) prev) in
      if cashMint \<in> sa_mint ` set rows then rows else rows @ [\<lparr>sa_mint = cashMint, sa_weightBps = 0\<rparr>])"

definition reseedProposal :: "weights \<Rightarrow> slider_asset list \<Rightarrow> weights \<Rightarrow> string \<Rightarrow> bool \<Rightarrow> string set \<Rightarrow> reseeded_proposal" where
  "reseedProposal prev onChain chainSeen cashMint resolvedFully forcedZero =
     (let rows = proposal_rows prev onChain chainSeen cashMint forcedZero;
          finalRows = (if resolvedFully then normalizeProposal rows cashMint forcedZero else rows) in
      \<lparr>rp_weights = byMint finalRows, rp_chainSeen = foldl (\<lambda>s a. dput (sa_mint a) (sa_weightBps a) s) chainSeen onChain\<rparr>)"

section \<open>Shares in binary64\<close>

lemma num_of_int_exact: "\<bar>i\<bar> < 2 ^ 53 \<Longrightarrow> num_of_int i = Fin (of_int i)"
  by (simp add: num_of_int_def round64_int)

lemma share_near:
  assumes "0 \<le> w" "w \<le> t" "0 < t" "t \<le> 2 ^ 20" "0 \<le> a" "a \<le> 2 ^ 20"
  obtains z where "num_mul (num_of_int a) (num_div (num_of_int w) (num_of_int t)) = Fin z" "0 \<le> z"
    "\<bar>z - of_int a * of_int w / of_int t\<bar> \<le> 1 / 2 ^ 31"
proof -
  have q: "0 \<le> (of_int w / of_int t :: rat)" "(of_int w / of_int t :: rat) \<le> 1" using assms(1-3) by (simp_all add: divide_le_eq)
  then have "(of_int w / of_int t :: rat) < pow2 1" by (simp add: pow2_def)
  then obtain y where y: "round64 (of_int w / of_int t) = Fin y" "\<bar>y - of_int w / of_int t\<bar> \<le> pow2 (1 - 54)" "0 \<le> y"
    using round64_near [OF q(1)] by (metis abs_le_D1 abs_le_D2 numeral_One neg_numeral_le_numeral one_le_numeral)
  have n: "num_of_int a = Fin (of_int a)" "num_of_int w = Fin (of_int w)" "num_of_int t = Fin (of_int t)"
    using assms by (simp_all add: num_of_int_exact)
  have a: "0 \<le> (of_int a :: rat)" "(of_int a :: rat) \<le> 2 ^ 20" using assms(5,6) by (simp, metis of_int_le_iff of_int_numeral of_int_power)
  define x where "x = of_int a * y"
  have "pow2 (1 - 54) \<le> 1" by (simp add: pow2_def)
  then have "y \<le> 2" using y(2) q(2) by linarith
  then have "x \<le> 2 ^ 20 * 2" unfolding x_def using a y(3) by (intro mult_mono) simp_all
  then have x: "0 \<le> x" "x < pow2 22" using a y(3) by (simp_all add: x_def pow2_def)
  obtain z where z: "round64 x = Fin z" "\<bar>z - x\<bar> \<le> pow2 (22 - 54)" "0 \<le> z"
    by (rule round64_near [OF x]) simp_all
  define r where "r = (of_int a * of_int w / of_int t :: rat)"
  have "x - r = of_int a * (y - of_int w / of_int t)" by (simp add: x_def r_def right_diff_distrib)
  then have "\<bar>x - r\<bar> = of_int a * \<bar>y - of_int w / of_int t\<bar>" by (simp only: abs_mult abs_of_nonneg [OF a(1)])
  also have "\<dots> \<le> 2 ^ 20 * pow2 (1 - 54)" using a y(2) by (intro mult_mono) simp_all
  finally have "\<bar>x - r\<bar> \<le> 1 / 2 ^ 33" by (simp add: pow2_def)
  moreover have "\<bar>z - x\<bar> \<le> 1 / 2 ^ 32" using z(2) by (simp add: pow2_def)
  ultimately have "\<bar>z - r\<bar> \<le> 1 / 2 ^ 31" using abs_triangle_ineq [of "z - x" "x - r"] by simp
  moreover have "num_mul (num_of_int a) (num_div (num_of_int w) (num_of_int t)) = Fin z" using y(1) z(1) assms(3) by (simp add: n x_def)
  ultimately show thesis using that z(3) by (simp add: r_def)
qed

lemma share_bounds:
  assumes "0 \<le> w" "w \<le> t" "0 < t" "t \<le> 2 ^ 20" "0 \<le> a" "a \<le> 2 ^ 20"
  defines "f \<equiv> floor_of (num_mul (num_of_int a) (num_div (num_of_int w) (num_of_int t)))"
  shows "0 \<le> f \<and> f * t \<le> a * w \<and> a * w \<le> (f + 1) * t"
proof -
  define r where "r = (of_int a * of_int w / of_int t :: rat)"
  obtain z where z: "num_mul (num_of_int a) (num_div (num_of_int w) (num_of_int t)) = Fin z" "0 \<le> z" "\<bar>z - r\<bar> \<le> 1 / 2 ^ 31"
    unfolding r_def by (rule share_near [OF assms(1-6)])
  note near = z(3)
  have f: "f = \<lfloor>z\<rfloor>" by (simp add: f_def floor_of_def z(1))
  have t: "(0::rat) < of_int t" "(of_int t :: rat) \<le> 2 ^ 20" using assms(3,4) by (simp, metis of_int_le_iff of_int_numeral of_int_power)
  have unit: "(1::rat) / 2 ^ 20 \<le> 1 / of_int t" using t by (intro divide_left_mono) simp_all
  have fz: "of_int f \<le> z" "z < of_int f + 1" unfolding f by linarith+
  have "f * t \<le> a * w"
  proof (rule ccontr)
    assume "\<not> f * t \<le> a * w"
    then have "(of_int (a * w + 1) :: rat) \<le> of_int (f * t)" by (simp only: of_int_le_iff)
    then have "r + 1 / of_int t \<le> of_int f" using t(1) by (simp add: r_def field_simps)
    then show False using near fz(1) unit by simp
  qed
  moreover have "a * w \<le> (f + 1) * t"
  proof (rule ccontr)
    assume "\<not> a * w \<le> (f + 1) * t"
    then have "(of_int ((f + 1) * t + 1) :: rat) \<le> of_int (a * w)" by (simp only: of_int_le_iff)
    then have "(of_int ((f + 1) * t + 1) :: rat) / of_int t \<le> of_int (a * w) / of_int t" using t(1) by (intro divide_right_mono) simp_all
    then have "of_int f + 1 + 1 / of_int t \<le> r" using assms(3) by (simp add: r_def add_divide_distrib)
    then show False using near fz(2) unit by simp
  qed
  moreover have "0 \<le> f" using z(2) by (simp add: f)
  ultimately show ?thesis by simp
qed

section \<open>The leftover\<close>

definition weight_total :: "string list \<Rightarrow> weights \<Rightarrow> int" where
  "weight_total mints w = sum_list (map (weight_in w) mints)"

lemma weight_in_put [simp]: "weight_in (dput m v w) m' = (if m' = m then v else weight_in w m')"
  by (simp add: weight_in_def od.get_put)

lemma total_put_other: "m \<notin> set mints \<Longrightarrow> weight_total mints (dput m v w) = weight_total mints w"
  unfolding weight_total_def by (intro arg_cong [where f = sum_list] map_cong) auto

lemma total_put: "distinct mints \<Longrightarrow> m \<in> set mints \<Longrightarrow> weight_total mints (dput m v w) = weight_total mints w + v - weight_in w m"
proof (induction mints)
  case (Cons m' mints)
  then show ?case using total_put_other [of m' mints v w] by (cases "m = m'") (auto simp: weight_total_def)
qed simp

definition givers :: "bool \<Rightarrow> weights \<Rightarrow> string list \<Rightarrow> nat" where
  "givers up w mints = length (filter (\<lambda>m. up \<or> 0 < weight_in w m) mints)"

lemma spread_exact:
  assumes "distinct mints" "0 \<le> leftover" "idx \<le> length mints" "length mints - idx \<le> safety"
    "leftover \<le> int (givers up w (drop idx mints))" "\<forall>m. 0 \<le> weight_in w m"
  defines "w' \<equiv> spread safety up mints idx leftover w"
  shows "weight_total mints w' = weight_total mints w + (if up then leftover else - leftover) \<and>
    (\<forall>m. 0 \<le> weight_in w' m \<and> (up \<longrightarrow> weight_in w m \<le> weight_in w' m) \<and> (\<not> up \<longrightarrow> weight_in w' m \<le> weight_in w m))"
  using assms(2-6) unfolding w'_def
proof (induction safety arbitrary: idx leftover w)
  case 0
  then show ?case by (simp add: givers_def)
next
  case (Suc safety)
  show ?case
  proof (cases "0 < leftover")
    case True
    then have i: "idx < length mints" using Suc.prems(4) by (cases "idx < length mints") (auto simp: givers_def)
    let ?m = "mints ! idx"
    have d: "drop idx mints = ?m # drop (Suc idx) mints" using i by (rule Cons_nth_drop_Suc [symmetric])
    have fresh: "?m \<notin> set (drop (Suc idx) mints)"
      using assms(1) d by (metis distinct.simps(2) distinct_drop)
    have g: "givers up w (drop idx mints) = (if up \<or> 0 < weight_in w ?m then 1 else 0) + givers up w (drop (Suc idx) mints)"
      by (simp add: d givers_def)
    have same: "givers up (dput ?m v w) (drop (Suc idx) mints) = givers up w (drop (Suc idx) mints)" for v
      unfolding givers_def using fresh by (intro arg_cong [where f = length] filter_cong) auto
    let ?v = "weight_in w ?m + (if up then 1 else -1)"
    show ?thesis
    proof (cases "up \<or> 0 < weight_in w ?m")
      case take: True
      have nn: "\<forall>m. 0 \<le> weight_in (dput ?m ?v w) m" using Suc.prems(5) take by auto
      have "leftover - 1 \<le> int (givers up (dput ?m ?v w) (drop (Suc idx) mints))" using Suc.prems(4) g take same by simp
      moreover obtain r where r: "r = spread safety up mints (Suc idx) (leftover - 1) (dput ?m ?v w)" by blast
      ultimately have ih: "weight_total mints r = weight_total mints (dput ?m ?v w) + (if up then leftover - 1 else - (leftover - 1))"
        "0 \<le> weight_in r m" "up \<Longrightarrow> weight_in (dput ?m ?v w) m \<le> weight_in r m" "\<not> up \<Longrightarrow> weight_in r m \<le> weight_in (dput ?m ?v w) m" for m
        using Suc.IH [of "leftover - 1" "Suc idx" "dput ?m ?v w"] True i Suc.prems(3) nn by simp_all
      have step: "spread (Suc safety) up mints idx leftover w = r" using True take i by (auto simp: Let_def r)
      have sum: "weight_total mints r = weight_total mints w + (if up then leftover else - leftover)"
        using ih(1) total_put [OF assms(1) nth_mem [OF i]] by simp
      have "weight_in w m \<le> weight_in r m" if up for m using ih(3) [OF that, of m] that by (cases "m = ?m") simp_all
      moreover have "weight_in r m \<le> weight_in w m" if "\<not> up" for m using ih(4) [OF that, of m] that by (cases "m = ?m") simp_all
      ultimately show ?thesis unfolding step using sum ih(2) by blast
    next
      case False
      then have "leftover \<le> int (givers up w (drop (Suc idx) mints))" using Suc.prems(4) g by simp
      then show ?thesis using Suc.IH [of leftover "Suc idx" w] False True i Suc.prems by (simp add: Let_def)
    qed
  next
    case False
    then have "leftover = 0" using Suc.prems(1) by simp
    then show ?thesis using Suc.prems(5) by simp
  qed
qed

section \<open>Proportional shares\<close>

definition put_all :: "('a \<Rightarrow> int) \<Rightarrow> (('a \<Rightarrow> string)) \<Rightarrow> 'a list \<Rightarrow> weights \<Rightarrow> weights" where
  "put_all f g xs w = foldl (\<lambda>r a. dput (g a) (f a) r) w xs"

lemma put_all_Cons: "put_all f g (x # xs) w = put_all f g xs (dput (g x) (f x) w)"
  by (simp add: put_all_def)

lemma dget_put_all_other: "m \<notin> g ` set xs \<Longrightarrow> dget (put_all f g xs w) m = dget w m"
  by (induction xs arbitrary: w) (auto simp: put_all_def od.get_put)

lemma dget_put_all: "distinct (map g xs) \<Longrightarrow> a \<in> set xs \<Longrightarrow> dget (put_all f g xs w) (g a) = Some (f a)"
proof (induction xs arbitrary: w)
  case (Cons x xs)
  then show ?case using dget_put_all_other [of "g x" g xs f "dput (g x) (f x) w"]
    by (auto simp: put_all_Cons od.get_put)
qed simp

lemma weight_put_all: "distinct (map g xs) \<Longrightarrow> a \<in> set xs \<Longrightarrow> weight_in (put_all f g xs w) (g a) = f a"
  by (simp add: weight_in_def dget_put_all)

lemma total_put_all: "distinct (map g xs) \<Longrightarrow> weight_total (map g xs) (put_all f g xs w) = sum_list (map f xs)"
  unfolding weight_total_def by (simp add: o_def) (intro arg_cong [where f = sum_list] map_cong, simp_all add: weight_put_all)

lemma distinct_put_all: "distinct (dkeys w) \<Longrightarrow> distinct (dkeys (put_all f g xs w))"
  by (induction xs arbitrary: w) (auto simp: put_all_def distinct_dput)

lemma distinct_spread: "distinct (dkeys w) \<Longrightarrow> distinct (dkeys (spread safety up mints idx leftover w))"
  by (induction safety up mints idx leftover w rule: spread.induct) (auto simp: Let_def distinct_dput)

lemma keys_spread:
  "mints \<noteq> [] \<Longrightarrow> set mints \<subseteq> set (dkeys w) \<Longrightarrow> set (dkeys (spread safety up mints idx leftover w)) = set (dkeys w)"
proof (induction safety up mints idx leftover w rule: spread.induct)
  case (2 safety up mints idx leftover w)
  let ?m = "mints ! (idx mod length mints)"
  have "?m \<in> set (dkeys w)" using 2 by (metis length_greater_0_conv mod_less_divisor nth_mem subsetD)
  then have "set (dkeys (dput ?m v w)) = set (dkeys w)" for v using od.keys_put [of ?m v w] by auto
  then show ?case using 2 by (auto simp: Let_def)
qed simp

lemma keys_put_all: "set (dkeys (put_all f g xs w)) = set (dkeys w) \<union> g ` set xs"
proof (induction xs arbitrary: w)
  case (Cons x xs)
  then show ?case using od.keys_put [of "g x" "f x" w] by (auto simp: put_all_Cons)
qed (simp add: put_all_def)

lemma int_sum_mult: "sum_list (map (\<lambda>a. f a * (c::int)) xs) = sum_list (map f xs) * c"
  by (induction xs) (auto simp: algebra_simps)

definition pool_ok :: "slider_asset list \<Rightarrow> bool" where
  "pool_ok pool \<longleftrightarrow> distinct (map sa_mint pool) \<and> (\<forall>a \<in> set pool. 0 \<le> sa_weightBps a) \<and>
     sum_list (map sa_weightBps pool) \<le> 2 ^ 20 \<and> length pool \<le> 2 ^ 20"

definition pool_total :: "slider_asset list \<Rightarrow> int" where
  "pool_total pool = sum_list (map sa_weightBps pool)"

lemma pool_total_bounds: "pool_ok pool \<Longrightarrow> 0 \<le> pool_total pool \<and> pool_total pool \<le> 2 ^ 20"
  unfolding pool_total_def by (intro conjI sum_list_nonneg) (auto simp: pool_ok_def)

lemma weight_le_total: "\<forall>a \<in> set pool. 0 \<le> sa_weightBps a \<Longrightarrow> a \<in> set pool \<Longrightarrow> sa_weightBps a \<le> pool_total pool"
  unfolding pool_total_def by (rule member_le_sum_list [of "sa_weightBps a" "map sa_weightBps pool", simplified]) auto

lemma pool_floor:
  assumes ok: "pool_ok pool" and a: "a \<in> set pool" and amount: "0 \<le> amount" "amount \<le> 2 ^ 20"
  defines "t \<equiv> (if 0 < pool_total pool then pool_total pool else int (length pool))"
    and "u \<equiv> (if 0 < pool_total pool then sa_weightBps a else 1)"
    and "f \<equiv> share_floor pool (pool_total pool) amount a"
  shows "0 \<le> f \<and> f * t \<le> amount * u \<and> amount * u \<le> (f + 1) * t"
proof -
  have t: "0 < t" "t \<le> 2 ^ 20" "0 \<le> u" "u \<le> t"
    using ok a weight_le_total [of pool a] by (auto simp: t_def u_def pool_ok_def pool_total_def [symmetric] Suc_le_eq)
  have "num_of_int 1 = Fin 1" by (simp add: num_of_int_exact)
  then have "share_floor pool (pool_total pool) amount a = floor_of (num_mul (num_of_int amount) (num_div (num_of_int u) (num_of_int t)))"
    by (simp add: share_floor_def pool_share_def t_def u_def)
  then show ?thesis using share_bounds [OF t(3,4,1,2) amount] by (simp add: f_def)
qed

lemma floors_sum:
  assumes "\<forall>a \<in> set pool. f a * t \<le> amount * u a \<and> amount * u a \<le> (f a + 1) * t" "0 < t" "sum_list (map u pool) = t"
  shows "sum_list (map f pool) \<le> amount \<and> amount \<le> sum_list (map f pool) + int (length (filter (\<lambda>a. f a * t < amount * u a) pool))"
proof -
  have "sum_list (map (\<lambda>a. f a * t) pool) \<le> sum_list (map (\<lambda>a. u a * amount) pool)"
    by (rule sum_list_mono) (use assms(1) in \<open>simp add: mult.commute\<close>)
  then have "sum_list (map f pool) * t \<le> t * amount" by (simp add: int_sum_mult assms(3))
  then have lower: "sum_list (map f pool) \<le> amount" using assms(2) by (simp add: mult.commute)
  let ?short = "\<lambda>a. if f a * t < amount * u a then 1 else 0 :: int"
  have "sum_list (map (\<lambda>a. u a * amount) pool) \<le> sum_list (map (\<lambda>a. (f a + ?short a) * t) pool)"
    by (rule sum_list_mono) (use assms(1) in \<open>auto simp: mult.commute distrib_left not_less\<close>)
  then have "t * amount \<le> sum_list (map (\<lambda>a. f a + ?short a) pool) * t" by (simp add: int_sum_mult assms(3))
  then have "amount \<le> sum_list (map (\<lambda>a. f a + ?short a) pool)" using assms(2) by (simp add: mult.commute)
  also have "\<dots> = sum_list (map f pool) + int (length (filter (\<lambda>a. f a * t < amount * u a) pool))" by (induction pool) auto
  finally show ?thesis using lower by simp
qed

lemma weight_put_all_other: "m \<notin> g ` set xs \<Longrightarrow> weight_in (put_all f g xs w) m = weight_in w m"
  by (simp add: weight_in_def dget_put_all_other)

lemma weight_put_all_nonneg: "distinct (map g xs) \<Longrightarrow> \<forall>a \<in> set xs. 0 \<le> f a \<Longrightarrow> 0 \<le> weight_in (put_all f g xs []) m"
  by (cases "m \<in> g ` set xs") (auto simp: weight_put_all weight_put_all_other, simp add: weight_in_def)

definition capped :: "slider_asset list \<Rightarrow> int \<Rightarrow> bool \<Rightarrow> int" where
  "capped pool amount up = (if up then amount else min amount (pool_total pool))"

lemma pool_shares:
  fixes up :: bool
  assumes ok: "pool_ok pool" and ne: "pool \<noteq> []" and amount: "0 < amount" "amount \<le> 2 ^ 20"
  defines "f \<equiv> share_floor pool (pool_total pool) (capped pool amount up)" and "c \<equiv> capped pool amount up"
  shows "\<And>a. a \<in> set pool \<Longrightarrow> 0 \<le> f a \<and> (\<not> up \<longrightarrow> f a \<le> sa_weightBps a)"
    and "0 \<le> c - sum_list (map f pool)"
    and "c - sum_list (map f pool) \<le> int (length (filter (\<lambda>a. up \<or> 0 < sa_weightBps a - f a) pool))"
proof -
  have pt: "0 \<le> pool_total pool" using pool_total_bounds [OF ok] by simp
  then have c: "0 \<le> c" "c \<le> 2 ^ 20" "\<not> up \<Longrightarrow> c \<le> pool_total pool" using amount by (auto simp: c_def capped_def)
  define t where "t = (if 0 < pool_total pool then pool_total pool else int (length pool))"
  define u where "u a = (if 0 < pool_total pool then sa_weightBps a else 1)" for a :: slider_asset
  have f: "0 \<le> f a" "f a * t \<le> c * u a" "c * u a \<le> (f a + 1) * t" if "a \<in> set pool" for a
    using pool_floor [OF ok that c(1,2)] by (simp_all add: f_def c_def t_def u_def)
  have t: "0 < t" "sum_list (map u pool) = t"
    using ne by (cases "0 < pool_total pool"; simp add: t_def u_def [abs_def] pool_total_def sum_list_triv)+
  have w: "0 \<le> sa_weightBps a" if "a \<in> set pool" for a using ok that by (simp add: pool_ok_def)
  have down: "f a \<le> sa_weightBps a \<and> (f a * t < c * u a \<longrightarrow> f a < sa_weightBps a)" if "\<not> up" "a \<in> set pool" for a
  proof (cases "0 < pool_total pool")
    case True
    then have cu: "c * u a \<le> sa_weightBps a * t"
      using c(3) [OF that(1)] w [OF that(2)] by (simp add: t_def u_def mult.commute [of _ "pool_total pool"] mult_right_mono)
    then have "f a * t \<le> sa_weightBps a * t" using f(2) [OF that(2)] by simp
    moreover have "f a * t < c * u a \<longrightarrow> f a * t < sa_weightBps a * t" using cu by simp
    ultimately show ?thesis using t(1) by simp
  next
    case False
    then have "c = 0" using c(1) c(3) [OF that(1)] by simp
    then have "f a * t \<le> 0" using f(2) [OF that(2)] by simp
    then have "f a = 0" using f(1) [OF that(2)] t(1) by (simp add: mult_le_0_iff)
    then show ?thesis using w [OF that(2)] \<open>c = 0\<close> by simp
  qed
  show "0 \<le> f a \<and> (\<not> up \<longrightarrow> f a \<le> sa_weightBps a)" if "a \<in> set pool" for a using f(1) [OF that] down [OF _ that] by simp
  have sums: "sum_list (map f pool) \<le> c" "c \<le> sum_list (map f pool) + int (length (filter (\<lambda>a. f a * t < c * u a) pool))"
    using floors_sum [of pool f t c u] f t by simp_all
  show "0 \<le> c - sum_list (map f pool)" using sums(1) by simp
  have "length (filter (\<lambda>a. f a * t < c * u a) pool) \<le> length (filter (\<lambda>a. up \<or> 0 < sa_weightBps a - f a) pool)"
    unfolding length_filter_conv_card by (rule card_mono) (use down nth_mem in force)+
  then show "c - sum_list (map f pool) \<le> int (length (filter (\<lambda>a. up \<or> 0 < sa_weightBps a - f a) pool))"
    using sums(2) by linarith
qed

lemma distribute_spec:
  fixes up :: bool
  assumes ok: "pool_ok pool" and ne: "pool \<noteq> []" and amount: "0 < amount" "amount \<le> 2 ^ 20"
  defines "d \<equiv> distributeProportionally pool amount up"
  shows "weight_total (map sa_mint pool) d = pool_total pool + (if up then amount else - min amount (pool_total pool))"
    and "0 \<le> weight_in d m"
    and "a \<in> set pool \<Longrightarrow> \<not> up \<Longrightarrow> weight_in d (sa_mint a) \<le> sa_weightBps a"
    and "a \<in> set pool \<Longrightarrow> up \<Longrightarrow> sa_weightBps a \<le> weight_in d (sa_mint a)"
    and "set (dkeys d) = sa_mint ` set pool" and "distinct (dkeys d)"
proof -
  define c where "c = capped pool amount up"
  define f where "f = share_floor pool (pool_total pool) c"
  define g where "g a = moved up (sa_weightBps a) (f a)" for a
  have dist: "distinct (map sa_mint pool)" using ok by (simp add: pool_ok_def)
  have shares: "0 \<le> f a" "\<not> up \<longrightarrow> f a \<le> sa_weightBps a" if "a \<in> set pool" for a
    using pool_shares(1) [OF ok ne amount that, of up] by (simp_all add: f_def c_def)
  have left: "0 \<le> c - sum_list (map f pool)"
    "c - sum_list (map f pool) \<le> int (length (filter (\<lambda>a. up \<or> 0 < sa_weightBps a - f a) pool))"
    using pool_shares(2,3) [OF ok ne amount, of up] by (simp_all add: f_def c_def)
  have w: "0 \<le> sa_weightBps a" if "a \<in> set pool" for a using ok that by (simp add: pool_ok_def)
  have g: "g a = sa_weightBps a + (if up then f a else - f a)" if "a \<in> set pool" for a
    using shares [OF that] by (simp add: g_def moved_def)
  define r where "r = put_all g sa_mint pool []"
  have alloc: "sum_list (map (\<lambda>a. \<bar>g a - sa_weightBps a\<bar>) pool) = sum_list (map f pool)"
    by (intro arg_cong [where f = sum_list] map_cong refl) (use g shares in simp)
  have d: "d = spread (length pool * length pool + length pool + 5) up (map sa_mint pool) 0 (c - sum_list (map f pool)) r"
    unfolding alloc [symmetric] using ne amount
    by (simp add: d_def distributeProportionally_def Let_def c_def capped_def pool_total_def [symmetric] f_def g_def [abs_def] r_def put_all_def)
  have gn: "0 \<le> g a" if "a \<in> set pool" for a using g [OF that] shares [OF that] w [OF that] by simp
  have rw: "weight_in r (sa_mint a) = g a" if "a \<in> set pool" for a using dist that by (simp add: r_def weight_put_all)
  have "filter (\<lambda>m. up \<or> 0 < weight_in r m) (map sa_mint pool) = map sa_mint (filter (\<lambda>a. up \<or> 0 < sa_weightBps a - f a) pool)"
    unfolding filter_map o_def by (intro arg_cong [where f = "map sa_mint"] filter_cong refl) (use rw g in auto)
  then have giv: "c - sum_list (map f pool) \<le> int (givers up r (drop 0 (map sa_mint pool)))" using left(2) by (simp add: givers_def)
  have rn: "\<forall>m. 0 \<le> weight_in r m" unfolding r_def using weight_put_all_nonneg [OF dist] gn by blast
  note s = spread_exact [OF dist left(1) _ _ giv rn, of "length pool * length pool + length pool + 5", folded d, simplified]
  have "weight_total (map sa_mint pool) r = sum_list (map g pool)" unfolding r_def by (rule total_put_all [OF dist])
  also have "\<dots> = pool_total pool + (if up then sum_list (map f pool) else - sum_list (map f pool))"
  proof -
    have "sum_list (map g pool) = sum_list (map (\<lambda>a. sa_weightBps a + (if up then f a else - f a)) pool)"
      by (intro arg_cong [where f = sum_list] map_cong refl g)
    then show ?thesis by (simp add: pool_total_def sum_list_addf uminus_sum_list_map o_def)
  qed
  finally show "weight_total (map sa_mint pool) d = pool_total pool + (if up then amount else - min amount (pool_total pool))"
    using s by (simp add: c_def capped_def)
  show "0 \<le> weight_in d m" using s by simp
  show "weight_in d (sa_mint a) \<le> sa_weightBps a" if "a \<in> set pool" "\<not> up"
  proof -
    have "weight_in d (sa_mint a) \<le> weight_in r (sa_mint a)" using s that(2) by blast
    then show ?thesis using rw [OF that(1)] g [OF that(1)] shares [OF that(1)] that(2) by simp
  qed
  show "sa_weightBps a \<le> weight_in d (sa_mint a)" if "a \<in> set pool" "up"
  proof -
    have "weight_in r (sa_mint a) \<le> weight_in d (sa_mint a)" using s that(2) by blast
    then show ?thesis using rw [OF that(1)] g [OF that(1)] shares [OF that(1)] that(2) by simp
  qed
  have keys: "set (dkeys r) = sa_mint ` set pool" unfolding r_def keys_put_all by (simp add: dkeys_def)
  then show "set (dkeys d) = sa_mint ` set pool" using keys_spread [of "map sa_mint pool" r] ne by (simp add: d)
  show "distinct (dkeys d)" unfolding d by (rule distinct_spread) (unfold r_def, rule distinct_put_all, simp add: dkeys_def)
qed

section \<open>Writing the changes back\<close>

definition covers :: "weights \<Rightarrow> slider_asset list \<Rightarrow> bool" where
  "covers w rows \<longleftrightarrow> sa_mint ` set rows \<subseteq> set (dkeys w)"

lemma covers_put: "covers w rows \<Longrightarrow> covers (dput m v w) rows"
  using od.keys_put [of m v w] by (auto simp: covers_def)

lemma byMint_put_all: "byMint rows = put_all sa_weightBps sa_mint rows []"
  by (simp add: byMint_def put_all_def)

lemma covers_byMint: "covers (byMint rows) rows"
  unfolding covers_def byMint_put_all keys_put_all by blast

lemma weight_byMint: "distinct (map sa_mint rows) \<Longrightarrow> a \<in> set rows \<Longrightarrow> weight_in (byMint rows) (sa_mint a) = sa_weightBps a"
  by (simp add: byMint_put_all weight_put_all)

lemma byMint_nonneg: "distinct (map sa_mint rows) \<Longrightarrow> \<forall>a \<in> set rows. 0 \<le> sa_weightBps a \<Longrightarrow> 0 \<le> weight_in (byMint rows) m"
  unfolding byMint_put_all by (rule weight_put_all_nonneg)

lemma total_byMint: "distinct (map sa_mint rows) \<Longrightarrow> weight_total (map sa_mint rows) (byMint rows) = pool_total rows"
  by (simp add: byMint_put_all total_put_all pool_total_def)

lemma read_back_weights:
  assumes "covers w rows"
  shows "read_back w rows = map (\<lambda>a. \<lparr>sa_mint = sa_mint a, sa_weightBps = weight_in w (sa_mint a)\<rparr>) rows"
  unfolding read_back_def
proof (rule map_cong [OF refl])
  fix a assume "a \<in> set rows"
  then have "sa_mint a \<in> set (dkeys w)" using assms by (auto simp: covers_def)
  then obtain v where "dget w (sa_mint a) = Some v" by (auto simp: set_dkeys)
  then show "\<lparr>sa_mint = sa_mint a, sa_weightBps = (case dget w (sa_mint a) of Some v \<Rightarrow> v | None \<Rightarrow> sa_weightBps a)\<rparr> =
    \<lparr>sa_mint = sa_mint a, sa_weightBps = weight_in w (sa_mint a)\<rparr>" by (simp add: weight_in_def)
qed

lemma read_back_total: "covers w rows \<Longrightarrow> pool_total (read_back w rows) = weight_total (map sa_mint rows) w"
  by (simp add: read_back_weights pool_total_def weight_total_def o_def)

lemma set_all_put_all: "set_all d w = put_all snd fst d w"
  by (simp add: set_all_def put_all_def case_prod_unfold)

lemma weight_set_all:
  assumes "distinct (dkeys d)"
  shows "weight_in (set_all d w) m = (if m \<in> set (dkeys d) then weight_in d m else weight_in w m)"
proof (cases "m \<in> set (dkeys d)")
  case True
  then obtain v where v: "dget d m = Some v" by (auto simp: set_dkeys)
  then have "(m, v) \<in> set d" using assms by (simp add: dget_in_set)
  then have "weight_in (set_all d w) m = v"
    using weight_put_all [of fst d "(m, v)" snd w] assms by (simp add: set_all_put_all dkeys_def)
  then show ?thesis using True v by (simp add: weight_in_def)
next
  case False
  then show ?thesis using weight_put_all_other [of m fst d snd w] by (simp add: set_all_put_all dkeys_def)
qed

lemma covers_set_all: "covers w rows \<Longrightarrow> covers (set_all d w) rows"
  unfolding covers_def set_all_put_all keys_put_all by blast

lemma apply_shares:
  fixes up :: bool
  assumes dist: "distinct (map sa_mint rows)" and ok: "pool_ok (filter P rows)" and ne: "filter P rows \<noteq> []"
    and amount: "0 < amount" "amount \<le> 2 ^ 20"
    and w: "\<forall>a \<in> set rows. P a \<longrightarrow> weight_in w (sa_mint a) = sa_weightBps a"
  defines "w' \<equiv> set_all (distributeProportionally (filter P rows) amount up) w"
  shows "weight_total (map sa_mint rows) w' = weight_total (map sa_mint rows) w + (if up then amount else - min amount (pool_total (filter P rows)))"
    and "m \<notin> sa_mint ` set (filter P rows) \<Longrightarrow> weight_in w' m = weight_in w m"
    and "\<forall>m. 0 \<le> weight_in w m \<Longrightarrow> 0 \<le> weight_in w' m"
    and "\<not> up \<Longrightarrow> a \<in> set rows \<Longrightarrow> weight_in w' (sa_mint a) \<le> weight_in w (sa_mint a)"
proof -
  let ?d = "distributeProportionally (filter P rows) amount up"
  note spec = distribute_spec [OF ok ne amount]
  have w': "weight_in w' m = (if m \<in> sa_mint ` set (filter P rows) then weight_in ?d m else weight_in w m)" for m
    unfolding w'_def using weight_set_all [OF spec(6)] spec(5) by metis
  show "m \<notin> sa_mint ` set (filter P rows) \<Longrightarrow> weight_in w' m = weight_in w m" using w' by simp
  show "0 \<le> weight_in w' m" if "\<forall>m. 0 \<le> weight_in w m" using w' [of m] spec(2) that by simp
  show "weight_in w' (sa_mint a) \<le> weight_in w (sa_mint a)" if "\<not> up" "a \<in> set rows"
  proof (cases "P a")
    case True
    then show ?thesis using spec(3) [of a up] w' [of "sa_mint a"] w that by auto
  next
    case False
    then have "sa_mint a \<notin> sa_mint ` set (filter P rows)" using that(2) dist by (auto simp: distinct_map dest: inj_onD)
    then show ?thesis using w' [of "sa_mint a"] by simp
  qed
  have split: "weight_total (map sa_mint xs) v = weight_total (map sa_mint (filter P xs)) v + weight_total (map sa_mint (filter (\<lambda>a. \<not> P a) xs)) v" for xs v
    by (induction xs) (auto simp: weight_total_def)
  have "weight_total (map sa_mint (filter P rows)) w' = weight_total (map sa_mint (filter P rows)) ?d"
    unfolding weight_total_def map_map o_def by (intro arg_cong [where f = sum_list] map_cong refl) (use w' in auto)
  moreover have "weight_total (map sa_mint (filter P rows)) w = pool_total (filter P rows)"
    unfolding weight_total_def pool_total_def map_map o_def by (intro arg_cong [where f = sum_list] map_cong refl) (use w in auto)
  moreover have "weight_total (map sa_mint (filter (\<lambda>a. \<not> P a) rows)) w' = weight_total (map sa_mint (filter (\<lambda>a. \<not> P a) rows)) w"
    unfolding weight_total_def map_map o_def
  proof (intro arg_cong [where f = sum_list] map_cong refl)
    fix a assume "a \<in> set (filter (\<lambda>a. \<not> P a) rows)"
    then have "sa_mint a \<notin> sa_mint ` set (filter P rows)" using dist by (auto simp: distinct_map dest: inj_onD)
    then show "weight_in w' (sa_mint a) = weight_in w (sa_mint a)" using w' by simp
  qed
  ultimately show "weight_total (map sa_mint rows) w' = weight_total (map sa_mint rows) w + (if up then amount else - min amount (pool_total (filter P rows)))"
    using split [of rows w'] split [of rows w] spec(1) [of up] by simp
qed

lemma pool_without:
  "distinct (map sa_mint rows) \<Longrightarrow> with_mint m rows = Some a \<Longrightarrow>
   pool_total (filter (\<lambda>a. sa_mint a \<noteq> m) rows) = pool_total rows - sa_weightBps a"
proof (induction rows)
  case (Cons x rows)
  show ?case
  proof (cases "sa_mint x = m")
    case True
    have "m \<notin> sa_mint ` set rows" using Cons.prems(1) True by simp
    then have "filter (\<lambda>a. sa_mint a \<noteq> m) rows = rows" unfolding filter_id_conv by (metis imageI)
    then show ?thesis using True Cons.prems(2) by (simp add: with_mint_def pool_total_def)
  next
    case False
    then show ?thesis using Cons by (simp add: with_mint_def pool_total_def)
  qed
qed (simp add: with_mint_def)

lemma with_mint_Some: "with_mint m rows = Some a \<Longrightarrow> a \<in> set rows \<and> sa_mint a = m"
  by (auto simp: with_mint_def find_Some_iff)

lemma with_mint_None: "with_mint m rows = None \<longleftrightarrow> m \<notin> sa_mint ` set rows"
  by (auto simp: with_mint_def find_None_iff)

lemma sum_list_filter_le_int: "\<forall>a \<in> set xs. 0 \<le> f a \<Longrightarrow> sum_list (map f (filter P xs)) \<le> (sum_list (map f xs) :: int)"
  by (induction xs) (auto intro: add_increasing)

lemma pool_ok_filter: "pool_ok rows \<Longrightarrow> pool_ok (filter P rows)"
proof -
  assume ok: "pool_ok rows"
  have "sum_list (map sa_weightBps (filter P rows)) \<le> sum_list (map sa_weightBps rows)"
    using ok unfolding pool_ok_def by (intro sum_list_filter_le_int) auto
  moreover have "length (filter P rows) \<le> length rows" by (rule length_filter_le)
  ultimately show "pool_ok (filter P rows)" using ok by (auto simp: pool_ok_def distinct_map_filter simp del: length_filter_le)
qed

section \<open>An edit keeps the sum\<close>

definition full :: "slider_asset list \<Rightarrow> bool" where
  "full rows \<longleftrightarrow> sum_list (map sa_weightBps rows) = TOTAL_BPS \<and> (\<forall>a \<in> set rows. 0 \<le> sa_weightBps a)"

lemma full_read_back:
  assumes "covers w rows" "weight_total (map sa_mint rows) w = TOTAL_BPS" "\<And>m. 0 \<le> weight_in w m"
  shows "full (read_back w rows)"
  using assms read_back_total [OF assms(1)] unfolding full_def pool_total_def [symmetric] by (auto simp: read_back_weights)

lemma weight_read_back: "covers w rows \<Longrightarrow> a \<in> set (read_back w rows) \<Longrightarrow> sa_weightBps a = weight_in w (sa_mint a)"
  by (auto simp: read_back_weights)

lemma edit_lands:
  assumes dist: "distinct (map sa_mint rows)" and e: "with_mint m rows = Some e" and c: "0 \<le> c"
    and w: "covers w rows" "\<And>m. 0 \<le> weight_in w m" "weight_in w m = sa_weightBps e" "weight_total (map sa_mint rows) w = TOTAL_BPS - (c - sa_weightBps e)"
  shows "full (read_back (dput m c w) rows)"
proof (rule full_read_back [OF covers_put [OF w(1)]])
  have "m \<in> set (map sa_mint rows)" using with_mint_Some [OF e] by auto
  then show "weight_total (map sa_mint rows) (dput m c w) = TOTAL_BPS" using total_put [OF dist] w(3,4) by simp
  show "0 \<le> weight_in (dput m c w) m'" for m' using w(2) c by simp
qed

text \<open>What the branches of an edit share: a full composition \<open>rows\<close> with the edited asset \<open>e\<close> and another one.\<close>

definition editable :: "slider_asset list \<Rightarrow> string \<Rightarrow> slider_asset \<Rightarrow> bool" where
  "editable rows m e \<longleftrightarrow> pool_ok rows \<and> full rows \<and> 2 \<le> length rows \<and> with_mint m rows = Some e"

lemma editable_rows:
  assumes "editable rows m e"
  shows "pool_ok rows" "with_mint m rows = Some e" "distinct (map sa_mint rows)" "\<forall>a \<in> set rows. 0 \<le> sa_weightBps a"
    "pool_total rows = 10000" "0 \<le> sa_weightBps e" "sa_weightBps e \<le> 10000"
  using assms with_mint_Some [of m rows e] weight_le_total [of rows e]
  by (auto simp: editable_def pool_ok_def full_def pool_total_def TOTAL_BPS_def)

lemma editable_byMint:
  assumes "editable rows m e"
  shows "covers (byMint rows) rows" "\<forall>m. 0 \<le> weight_in (byMint rows) m" "\<forall>a \<in> set rows. P a \<longrightarrow> weight_in (byMint rows) (sa_mint a) = sa_weightBps a"
    "weight_total (map sa_mint rows) (byMint rows) = 10000" "weight_in (byMint rows) m = sa_weightBps e"
  using editable_rows [OF assms] with_mint_Some [of m rows e] covers_byMint byMint_nonneg weight_byMint total_byMint by auto

lemma editable_others:
  assumes "editable rows m e"
  shows "filter (\<lambda>a. sa_mint a \<noteq> m) rows \<noteq> []" "pool_total (filter (\<lambda>a. sa_mint a \<noteq> m) rows) = 10000 - sa_weightBps e"
proof -
  note ed = editable_rows [OF assms]
  show "filter (\<lambda>a. sa_mint a \<noteq> m) rows \<noteq> []"
  proof
    assume "filter (\<lambda>a. sa_mint a \<noteq> m) rows = []"
    then have "set (map sa_mint rows) \<subseteq> {m}" by (auto simp: filter_empty_conv)
    then have "card (set (map sa_mint rows)) \<le> 1" using card_mono [of "{m}" "set (map sa_mint rows)"] by simp
    then show False using assms distinct_card [OF ed(3)] by (simp add: editable_def)
  qed
  show "pool_total (filter (\<lambda>a. sa_mint a \<noteq> m) rows) = 10000 - sa_weightBps e" using pool_without [OF ed(3,2)] ed(5) by simp
qed

lemma edit_spread:
  assumes ed: "editable rows m e" and c: "0 \<le> c" "c \<le> 10000" "c \<noteq> sa_weightBps e"
  shows "full (read_back (dput m c (set_all (distributeProportionally (filter (\<lambda>a. sa_mint a \<noteq> m) rows)
    \<bar>c - sa_weightBps e\<bar> (c < sa_weightBps e)) (byMint rows))) rows)"
proof -
  note e = editable_rows [OF ed] and w = editable_byMint [OF ed] and others = editable_others [OF ed]
  have amount: "0 < \<bar>c - sa_weightBps e\<bar>" "\<bar>c - sa_weightBps e\<bar> \<le> 2 ^ 20" using c e(6,7) by auto
  note shares = apply_shares [OF e(3) pool_ok_filter [OF e(1)] others(1) amount w(3), where up = "c < sa_weightBps e"]
  show ?thesis
  proof (rule edit_lands [OF e(3,2) c(1) covers_set_all [OF w(1)] shares(3) [OF w(2)]])
    show "weight_in (set_all (distributeProportionally (filter (\<lambda>a. sa_mint a \<noteq> m) rows) \<bar>c - sa_weightBps e\<bar> (c < sa_weightBps e)) (byMint rows)) m
      = sa_weightBps e" using shares(2) [of m] w(5) by auto
    show "weight_total (map sa_mint rows) (set_all (distributeProportionally (filter (\<lambda>a. sa_mint a \<noteq> m) rows) \<bar>c - sa_weightBps e\<bar> (c < sa_weightBps e)) (byMint rows))
      = TOTAL_BPS - (c - sa_weightBps e)" using shares(1) w(4) others(2) c by (auto simp: TOTAL_BPS_def)
  qed
qed

lemma edit_draws:
  assumes ed: "editable rows m e" and c: "sa_weightBps e < c" "c \<le> 10000" and d: "m \<noteq> dm" "with_mint dm rows = Some d"
  defines "drawn \<equiv> min (c - sa_weightBps e) (sa_weightBps d)"
  defines "w1 \<equiv> dput dm (sa_weightBps d - drawn) (byMint rows)" and "needed \<equiv> c - sa_weightBps e - drawn"
  shows "full (read_back (dput m c (if 0 < needed
    then set_all (distributeProportionally (filter (\<lambda>a. sa_mint a \<noteq> m \<and> sa_mint a \<noteq> dm) rows) needed False) w1 else w1)) rows)"
proof -
  note e = editable_rows [OF ed] and w = editable_byMint [OF ed] and others = editable_others [OF ed]
  define P where "P a \<longleftrightarrow> sa_mint a \<noteq> m \<and> sa_mint a \<noteq> dm" for a :: slider_asset
  have dd: "weight_in (byMint rows) dm = sa_weightBps d" "0 \<le> sa_weightBps d" "dm \<in> set (map sa_mint rows)"
    using with_mint_Some [OF d(2)] w(3) [of "\<lambda>_. True"] e(4) by auto
  have w1: "covers w1 rows" "\<forall>m. 0 \<le> weight_in w1 m" "weight_in w1 m = sa_weightBps e"
    "weight_total (map sa_mint rows) w1 = 10000 - drawn" "\<forall>a \<in> set rows. P a \<longrightarrow> weight_in w1 (sa_mint a) = sa_weightBps a"
    using covers_put [OF w(1)] w(2,4,5) w(3) [of P] dd d(1) total_put [OF e(3) dd(3)] by (auto simp: w1_def drawn_def P_def)
  note land = edit_lands [OF e(3,2)]
  show ?thesis
  proof (cases "0 < needed")
    case True
    have "with_mint dm (filter (\<lambda>a. sa_mint a \<noteq> m) xs) = with_mint dm xs" for xs
      by (induction xs) (use d(1) in \<open>auto simp: with_mint_def\<close>)
    then have "pool_total (filter P rows) = 10000 - sa_weightBps e - sa_weightBps d"
      using pool_without [OF distinct_map_filter [OF e(3)], of dm "\<lambda>a. sa_mint a \<noteq> m" d] d(2) others(2)
      unfolding P_def filter_filter by simp
    then have fits: "needed \<le> pool_total (filter P rows)" "pool_total (filter P rows) \<le> 10000"
      using True c(2) e(6) dd(2) by (simp_all add: needed_def drawn_def)
    have nep: "filter P rows \<noteq> []" using fits True by (auto simp: pool_total_def)
    have small: "needed \<le> 2 ^ 20" using fits by simp
    note shares = apply_shares [OF e(3) pool_ok_filter [OF e(1)] nep True small w1(5), where up = False]
    have "m \<notin> sa_mint ` set (filter P rows)" by (auto simp: P_def)
    then have "full (read_back (dput m c (set_all (distributeProportionally (filter P rows) needed False) w1)) rows)"
      by (intro land covers_set_all [OF w1(1)] shares(3) [OF w1(2)])
        (use shares(1,2) w1(3,4) True fits c e in \<open>simp_all add: TOTAL_BPS_def\<close>, simp add: needed_def)
    then show ?thesis using True by (simp add: P_def [abs_def])
  next
    case False
    then have "drawn = c - sa_weightBps e" by (simp add: needed_def drawn_def)
    then have "full (read_back (dput m c w1) rows)"
      using w1 c e by (intro land) (simp_all add: TOTAL_BPS_def)
    then show ?thesis using False by simp
  qed
qed

lemma slider_full:
  assumes ok: "pool_ok rows" and full: "full rows" and two: "2 \<le> length rows"
  shows "full (applySliderWeightChange rows editedMint newWeightBps devUsdcMint)"
proof (cases "with_mint editedMint rows")
  case None
  then show ?thesis using full by (simp add: applySliderWeightChange_def)
next
  case (Some e)
  then have ed: "editable rows editedMint e" using assms by (simp add: editable_def)
  note e = editable_rows [OF ed] and w = editable_byMint [OF ed]
  define c where "c = clamped_weight newWeightBps"
  have c: "0 \<le> c" "c \<le> 10000" by (simp_all add: c_def clamped_weight_def)
  consider (same) "c = sa_weightBps e" | (spread) "c \<noteq> sa_weightBps e" "editedMint = devUsdcMint \<or> with_mint devUsdcMint rows = None"
    | (cash) d where "c \<noteq> sa_weightBps e" "editedMint \<noteq> devUsdcMint" "with_mint devUsdcMint rows = Some d" by fastforce
  then show ?thesis
  proof cases
    case same
    then show ?thesis using full Some by (simp add: applySliderWeightChange_def c_def)
  next
    case spread
    then show ?thesis using edit_spread [OF ed c spread(1)] Some by (auto simp: applySliderWeightChange_def c_def Let_def)
  next
    case (cash d)
    have dd: "weight_in (byMint rows) devUsdcMint = sa_weightBps d" "0 \<le> sa_weightBps d" "devUsdcMint \<in> set (map sa_mint rows)"
      using with_mint_Some [OF cash(3)] w(3) [of "\<lambda>_. True"] e(4) by auto
    show ?thesis
    proof (cases "c < sa_weightBps e")
      case True
      have "full (read_back (dput editedMint c (dput devUsdcMint (sa_weightBps d - (c - sa_weightBps e)) (byMint rows))) rows)"
        by (rule edit_lands [OF e(3,2) c(1) covers_put [OF w(1)]])
          (use True cash(2) w(2,4,5) dd total_put [OF e(3) dd(3)] in \<open>auto simp: TOTAL_BPS_def\<close>)
      then show ?thesis using True cash Some dd by (simp add: applySliderWeightChange_def c_def [symmetric] Let_def)
    next
      case False
      then have "sa_weightBps e < c" using cash(1) by simp
      note draws = edit_draws [OF ed this c(2) cash(2,3)]
      have "applySliderWeightChange rows editedMint newWeightBps devUsdcMint = read_back (dput editedMint c (let needed = c - sa_weightBps e - min (c - sa_weightBps e) (sa_weightBps d);
          w1 = dput devUsdcMint (sa_weightBps d - min (c - sa_weightBps e) (sa_weightBps d)) (byMint rows) in
          if 0 < needed then set_all (distributeProportionally (filter (\<lambda>a. sa_mint a \<noteq> editedMint \<and> sa_mint a \<noteq> devUsdcMint) rows) needed False) w1 else w1)) rows"
        using False cash Some dd(1) unfolding applySliderWeightChange_def c_def by (simp add: Let_def)
      then show ?thesis using draws by (simp only: Let_def)
    qed
  qed
qed

lemma slider_mints: "map sa_mint (applySliderWeightChange rows editedMint x devUsdcMint) = map sa_mint rows"
  by (auto simp: applySliderWeightChange_def read_back_def Let_def o_def split: option.split)

lemma read_back_put: "a \<in> set (read_back (dput m v w) rows) \<Longrightarrow> sa_mint a = m \<Longrightarrow> sa_weightBps a = v"
  by (cases a) (auto simp: read_back_def od.get_put)

lemma slider_lands:
  assumes "distinct (map sa_mint rows)" "a \<in> set (applySliderWeightChange rows m x devUsdcMint)" "sa_mint a = m"
  shows "sa_weightBps a = clamped_weight x"
proof (cases "with_mint m rows")
  case None
  then have "m \<notin> sa_mint ` set rows" "applySliderWeightChange rows m x devUsdcMint = rows"
    by (simp_all add: applySliderWeightChange_def with_mint_None [symmetric])
  then show ?thesis using assms(2,3) by auto
next
  case (Some e)
  have "b = e" if "b \<in> set rows" "sa_mint b = m" for b
    using that with_mint_Some [OF Some] assms(1) by (auto simp: distinct_map dest: inj_onD)
  then have "applySliderWeightChange rows m x devUsdcMint = rows \<Longrightarrow> sa_weightBps e = clamped_weight x \<Longrightarrow> ?thesis" using assms(2,3) by auto
  moreover have "\<exists>w. applySliderWeightChange rows m x devUsdcMint = read_back (dput m (clamped_weight x) w) rows"
    if "sa_weightBps e \<noteq> clamped_weight x" using that Some by (auto simp: applySliderWeightChange_def Let_def)
  moreover have "applySliderWeightChange rows m x devUsdcMint = rows" if "sa_weightBps e = clamped_weight x"
    using that Some by (simp add: applySliderWeightChange_def Let_def)
  ultimately show ?thesis using assms(2,3) by (metis read_back_put)
qed

section \<open>Normalising\<close>

definition settled :: "string set \<Rightarrow> slider_asset list \<Rightarrow> weights \<Rightarrow> bool" where
  "settled frozen rows w \<longleftrightarrow> covers w rows \<and> (\<forall>m. 0 \<le> weight_in w m) \<and> weight_total (map sa_mint rows) w = TOTAL_BPS \<and>
     ((\<exists>a \<in> set rows. sa_mint a \<notin> frozen) \<longrightarrow> (\<forall>a \<in> set rows. sa_mint a \<in> frozen \<longrightarrow> weight_in w (sa_mint a) \<le> sa_weightBps a))"

lemma normalize_short:
  assumes ok: "pool_ok rows" and ne: "rows \<noteq> []" and short: "pool_total rows < TOTAL_BPS"
  shows "\<exists>w. normalizeProposal rows cashMint frozen = read_back w rows \<and> settled frozen rows w"
proof -
  define w where "w = byMint rows"
  define diff where "diff = TOTAL_BPS - pool_total rows"
  have dist: "distinct (map sa_mint rows)" and nn: "\<forall>a \<in> set rows. 0 \<le> sa_weightBps a" using ok by (simp_all add: pool_ok_def)
  have w: "covers w rows" "\<forall>m. 0 \<le> weight_in w m" "\<forall>a \<in> set rows. P a \<longrightarrow> weight_in w (sa_mint a) = sa_weightBps a"
    "weight_total (map sa_mint rows) w = pool_total rows" for P
    unfolding w_def using covers_byMint byMint_nonneg [OF dist nn] weight_byMint [OF dist] total_byMint [OF dist] by simp_all
  define P where "P = (if filter (\<lambda>a. sa_mint a \<notin> frozen) rows \<noteq> [] then (\<lambda>a :: slider_asset. sa_mint a \<notin> frozen) else (\<lambda>_. True))"
  define w1 where "w1 = set_all (distributeProportionally (filter P rows) diff True) w"
  show ?thesis
  proof (cases "\<exists>d. with_mint cashMint rows = Some d \<and> cashMint \<notin> frozen")
    case True
    then obtain d where d: "with_mint cashMint rows = Some d" "cashMint \<notin> frozen" by blast
    then have cw: "d \<in> set rows" "sa_mint d = cashMint" "weight_in w cashMint = sa_weightBps d" "0 \<le> sa_weightBps d"
      using with_mint_Some [OF d(1)] w(3) [of "\<lambda>_. True"] nn by auto
    then have "weight_total (map sa_mint rows) (dput cashMint (sa_weightBps d + diff) w) = TOTAL_BPS"
      using total_put [OF dist, of cashMint "sa_weightBps d + diff" w] w(4) by (auto simp: diff_def)
    then have "settled frozen rows (dput cashMint (sa_weightBps d + diff) w)"
      using w(2) w(3) [of "\<lambda>_. True"] covers_put [OF w(1)] short d(2) cw(4) by (auto simp: settled_def diff_def)
    moreover have "normalizeProposal rows cashMint frozen = read_back (dput cashMint (sa_weightBps d + diff) w) rows"
      using short ne d by (simp add: normalizeProposal_def Let_def w_def diff_def pool_total_def)
    ultimately show ?thesis by blast
  next
    case False
    have nep: "filter P rows \<noteq> []" using ne by (simp add: P_def)
    have small: "0 < diff" "diff \<le> 2 ^ 20" using short pool_total_bounds [OF ok] by (simp_all add: diff_def TOTAL_BPS_def)
    note shares = apply_shares [OF dist pool_ok_filter [OF ok] nep small w(3), where up = True, folded w1_def]
    have "weight_in w1 (sa_mint a) \<le> sa_weightBps a" if "b \<in> set rows" "sa_mint b \<notin> frozen" "a \<in> set rows" "sa_mint a \<in> frozen" for a b
    proof -
      have "filter (\<lambda>a. sa_mint a \<notin> frozen) rows \<noteq> []" using that(1,2) by (auto simp: filter_empty_conv)
      then have "sa_mint a \<notin> sa_mint ` set (filter P rows)" using that(4) by (auto simp: P_def)
      then show ?thesis using shares(2) w(3) [of "\<lambda>_. True"] that(3) by simp
    qed
    then have "settled frozen rows w1"
      using shares(1) shares(3) [OF w(2)] w(4) covers_set_all [OF w(1)] unfolding settled_def w1_def diff_def by auto
    moreover have "normalizeProposal rows cashMint frozen = read_back w1 rows"
      using short ne False unfolding normalizeProposal_def Let_def w1_def P_def w_def diff_def pool_total_def by (auto split: option.split)
    ultimately show ?thesis by blast
  qed
qed

lemma normalize_excess:
  assumes ok: "pool_ok rows" and ne: "rows \<noteq> []" and excess: "TOTAL_BPS < pool_total rows"
  shows "\<exists>w. normalizeProposal rows cashMint frozen = read_back w rows \<and> settled frozen rows w"
proof -
  define w where "w = byMint rows"
  define over where "over = pool_total rows - TOTAL_BPS"
  have dist: "distinct (map sa_mint rows)" and nn: "\<forall>a \<in> set rows. 0 \<le> sa_weightBps a" using ok by (simp_all add: pool_ok_def)
  have w: "covers w rows" "\<forall>m. 0 \<le> weight_in w m" "\<forall>a \<in> set rows. weight_in w (sa_mint a) = sa_weightBps a"
    "weight_total (map sa_mint rows) w = pool_total rows"
    unfolding w_def using covers_byMint byMint_nonneg [OF dist nn] weight_byMint [OF dist] total_byMint [OF dist] by simp_all
  define fromCash where "fromCash = (case with_mint cashMint rows of Some d \<Rightarrow> min over (sa_weightBps d) | None \<Rightarrow> 0)"
  define w1 where "w1 = (case with_mint cashMint rows of Some d \<Rightarrow> dput cashMint (sa_weightBps d - fromCash) w | None \<Rightarrow> w)"
  define rest where "rest = over - fromCash"
  define P where "P a \<longleftrightarrow> sa_mint a \<noteq> cashMint" for a :: slider_asset
  define w2 where "w2 = (if 0 < rest then set_all (distributeProportionally (filter P rows) rest False) w1 else w1)"
  have cw: "weight_in w cashMint = sa_weightBps d \<and> 0 \<le> sa_weightBps d \<and> cashMint \<in> set (map sa_mint rows)"
    if "with_mint cashMint rows = Some d" for d using with_mint_Some [OF that] w(3) nn by auto
  have fc: "0 \<le> fromCash" "fromCash \<le> over" using excess cw by (auto simp: fromCash_def over_def split: option.split)
  have w1: "covers w1 rows" "\<forall>m. 0 \<le> weight_in w1 m" "\<forall>a \<in> set rows. P a \<longrightarrow> weight_in w1 (sa_mint a) = sa_weightBps a"
    "weight_total (map sa_mint rows) w1 = pool_total rows - fromCash" "\<forall>a \<in> set rows. weight_in w1 (sa_mint a) \<le> sa_weightBps a"
    using w covers_put [OF w(1)] cw fc total_put [OF dist, of cashMint _ w] by (auto simp: w1_def fromCash_def P_def split: option.split)
  have fits: "rest \<le> pool_total (filter P rows)" if "0 < rest"
  proof (cases "with_mint cashMint rows")
    case None
    then have "filter P rows = rows" by (auto simp: P_def filter_id_conv with_mint_None)
    then show ?thesis using None by (simp add: rest_def fromCash_def over_def TOTAL_BPS_def)
  next
    case (Some d)
    then show ?thesis using that pool_without [OF dist Some] cw [OF Some]
      by (simp add: P_def [abs_def] rest_def fromCash_def over_def TOTAL_BPS_def)
  qed
  have "settled frozen rows w2"
  proof (cases "0 < rest")
    case True
    then have nep: "filter P rows \<noteq> []" using fits by (auto simp: pool_total_def)
    have small: "rest \<le> 2 ^ 20" using fc(1) pool_total_bounds [OF ok] by (simp add: rest_def over_def TOTAL_BPS_def)
    note shares = apply_shares [OF dist pool_ok_filter [OF ok] nep True small w1(3), where up = False]
    have w2: "w2 = set_all (distributeProportionally (filter P rows) rest False) w1" using True by (simp add: w2_def)
    have "weight_in w2 (sa_mint a) \<le> sa_weightBps a" if "a \<in> set rows" for a
      using shares(4) [OF _ that] w1(5) that unfolding w2 by force
    then show ?thesis using shares(1) shares(3) [OF w1(2)] w1(4) fits [OF True] covers_set_all [OF w1(1)]
      unfolding settled_def w2 by (simp add: rest_def over_def)
  next
    case False
    then show ?thesis using fc w1 by (simp add: settled_def w2_def rest_def over_def)
  qed
  moreover have "normalizeProposal rows cashMint frozen = read_back w2 rows"
    using excess ne unfolding normalizeProposal_def Let_def w2_def w1_def rest_def fromCash_def over_def w_def P_def [abs_def] pool_total_def
    by (simp cong: option.case_cong)
  ultimately show ?thesis by blast
qed

lemma normalize_settled:
  assumes ok: "pool_ok rows" and ne: "rows \<noteq> []"
  shows "\<exists>w. normalizeProposal rows cashMint frozen = read_back w rows \<and> settled frozen rows w"
proof -
  have dist: "distinct (map sa_mint rows)" and nn: "\<forall>a \<in> set rows. 0 \<le> sa_weightBps a" using ok by (simp_all add: pool_ok_def)
  consider "pool_total rows < TOTAL_BPS" | "TOTAL_BPS < pool_total rows" | "pool_total rows = TOTAL_BPS" by linarith
  then show ?thesis
  proof cases
    case 3
    have w: "weight_in (byMint rows) (sa_mint a) = sa_weightBps a" if "a \<in> set rows" for a by (rule weight_byMint [OF dist that])
    then have "settled frozen rows (byMint rows)"
      using covers_byMint byMint_nonneg [OF dist nn] total_byMint [OF dist] 3 by (simp add: settled_def)
    moreover have "read_back (byMint rows) rows = rows"
      unfolding read_back_weights [OF covers_byMint] by (rule map_idI) (simp add: w)
    moreover have "normalizeProposal rows cashMint frozen = rows" using 3 by (simp add: normalizeProposal_def pool_total_def)
    ultimately show ?thesis by metis
  qed (use normalize_short [OF ok ne] normalize_excess [OF ok ne] in blast)+
qed

section \<open>The rows of a proposal\<close>

lemma dput_new: "k \<notin> set (dkeys m) \<Longrightarrow> dput k v m = m @ [(k, v)]"
  by (induction m) (auto simp: dput_def dkeys_def)

lemma put_all_append: "distinct (dkeys w @ map g xs) \<Longrightarrow> put_all f g xs w = w @ map (\<lambda>a. (g a, f a)) xs"
proof (induction xs arbitrary: w)
  case (Cons x xs)
  then have "dput (g x) (f x) w = w @ [(g x, f x)]" by (intro dput_new) auto
  then show ?case using Cons by (simp add: put_all_Cons dkeys_def)
qed (simp add: put_all_def)

lemma byMint_map: "distinct (map sa_mint rows) \<Longrightarrow> byMint rows = map (\<lambda>a. (sa_mint a, sa_weightBps a)) rows"
  unfolding byMint_put_all by (subst put_all_append) (simp_all add: dkeys_def)

lemma mints_reseed_row: "map sa_mint (map (reseed_row prev seen forced) onChain) = map sa_mint onChain"
  by (simp add: reseed_row_def Let_def)

definition added_row :: "string set \<Rightarrow> string \<times> int \<Rightarrow> slider_asset" where
  "added_row forced e = \<lparr>sa_mint = fst e, sa_weightBps = (if fst e \<in> forced then 0 else snd e)\<rparr>"

definition held_rows :: "weights \<Rightarrow> slider_asset list \<Rightarrow> weights \<Rightarrow> string set \<Rightarrow> slider_asset list" where
  "held_rows prev onChain seen forced = map (reseed_row prev seen forced) onChain
     @ map (added_row forced) (filter (\<lambda>e. fst e \<notin> sa_mint ` set onChain) prev)"

lemma proposal_rows_held:
  "proposal_rows prev onChain seen cash forced =
   (let rows = held_rows prev onChain seen forced in
    if cash \<in> sa_mint ` set rows then rows else rows @ [\<lparr>sa_mint = cash, sa_weightBps = 0\<rparr>])"
  by (simp add: proposal_rows_def held_rows_def added_row_def [abs_def] case_prod_unfold)

lemma mints_held: "map sa_mint (held_rows prev onChain seen forced) =
    map sa_mint onChain @ filter (\<lambda>m. m \<notin> sa_mint ` set onChain) (dkeys prev)"
  by (simp add: held_rows_def mints_reseed_row [simplified] added_row_def dkeys_def filter_map o_def)

lemma distinct_proposal_rows:
  assumes "distinct (map sa_mint onChain)" "distinct (dkeys prev)"
  shows "distinct (map sa_mint (proposal_rows prev onChain seen cash forced))"
proof -
  have "distinct (map sa_mint (held_rows prev onChain seen forced))" unfolding mints_held using assms by auto
  then show ?thesis by (simp add: proposal_rows_held Let_def)
qed

lemma cash_in_rows: "cash \<in> sa_mint ` set (proposal_rows prev onChain seen cash forced)"
  by (auto simp: proposal_rows_held Let_def)

lemma row_bounds:
  assumes "\<forall>a \<in> set onChain. 0 \<le> sa_weightBps a \<and> sa_weightBps a \<le> 10000" "\<forall>(m, v) \<in> set prev. 0 \<le> v \<and> v \<le> 10000"
    "a \<in> set (proposal_rows prev onChain seen cash forced)"
  shows "0 \<le> sa_weightBps a \<and> sa_weightBps a \<le> 10000 \<and> (sa_mint a \<in> forced \<longrightarrow> sa_weightBps a = 0)"
proof -
  have held: "0 \<le> weight_in prev m \<and> weight_in prev m \<le> 10000" for m
    using assms(2) by (auto simp: weight_in_def split: option.split dest: dget_SomeD)
  have "a \<in> set (held_rows prev onChain seen forced) \<or> sa_weightBps a = 0"
    using assms(3) by (auto simp: proposal_rows_held Let_def split: if_splits)
  then show ?thesis using assms(1,2) held by (auto simp: held_rows_def reseed_row_def added_row_def Let_def)
qed

lemma rows_pool_ok:
  assumes "distinct (map sa_mint onChain)" "distinct (dkeys prev)"
    "\<forall>a \<in> set onChain. 0 \<le> sa_weightBps a \<and> sa_weightBps a \<le> 10000" "\<forall>(m, v) \<in> set prev. 0 \<le> v \<and> v \<le> 10000"
    "length onChain + length prev < 100"
  shows "pool_ok (proposal_rows prev onChain seen cash forced)"
proof -
  let ?rows = "proposal_rows prev onChain seen cash forced"
  have "length (held_rows prev onChain seen forced) \<le> length onChain + length prev" by (simp add: held_rows_def)
  then have len: "length ?rows \<le> 100" using assms(5) by (simp add: proposal_rows_held Let_def)
  have b: "0 \<le> sa_weightBps a" "sa_weightBps a \<le> 10000" if "a \<in> set ?rows" for a using row_bounds [OF assms(3,4) that] by auto
  have "sum_list (map sa_weightBps ?rows) \<le> sum_list (map (\<lambda>_. 10000) ?rows)" by (rule sum_list_mono) (rule b)
  then have "sum_list (map sa_weightBps ?rows) \<le> 2 ^ 20" using len by (simp add: sum_list_triv)
  then show ?thesis using distinct_proposal_rows [OF assms(1,2)] b len by (simp add: pool_ok_def)
qed

text \<open>
  C10: Whatever the manager edited and whatever the chain reports, a proposal seeded from a complete
  read sums to exactly 10,000 basis points, no weight is negative, the cash slot is there, and a mint
  the manager took out stays at zero as long as some mint of the proposal was not taken out.
\<close>

theorem proposal_always_full:
  assumes "distinct (map sa_mint onChain)" "distinct (dkeys prev)"
    "\<forall>a \<in> set onChain. 0 \<le> sa_weightBps a \<and> sa_weightBps a \<le> 10000" "\<forall>(m, v) \<in> set prev. 0 \<le> v \<and> v \<le> 10000"
    "length onChain + length prev < 100"
  shows "let w = rp_weights (reseedProposal prev onChain chainSeen cashMint True forcedZero) in
    sum_list (map snd w) = TOTAL_BPS \<and> (\<forall>(m, v) \<in> set w. 0 \<le> v) \<and> cashMint \<in> set (dkeys w) \<and>
    (\<not> set (dkeys w) \<subseteq> forcedZero \<longrightarrow> (\<forall>(m, v) \<in> set w. m \<in> forcedZero \<longrightarrow> v = 0))"
proof -
  let ?rows = "proposal_rows prev onChain chainSeen cashMint forcedZero"
  define w where "w = rp_weights (reseedProposal prev onChain chainSeen cashMint True forcedZero)"
  have ok: "pool_ok ?rows" by (rule rows_pool_ok [OF assms(1-5)])
  have ne: "?rows \<noteq> []" using cash_in_rows [of cashMint prev onChain chainSeen forcedZero] by auto
  obtain v where v: "normalizeProposal ?rows cashMint forcedZero = read_back v ?rows" "settled forcedZero ?rows v"
    using normalize_settled [OF ok ne] by blast
  have cov: "covers v ?rows" using v(2) by (simp add: settled_def)
  have mints: "map sa_mint (read_back v ?rows) = map sa_mint ?rows" by (simp add: read_back_def o_def)
  have w: "w = map (\<lambda>a. (sa_mint a, weight_in v (sa_mint a))) ?rows"
    using distinct_proposal_rows [OF assms(1,2)] mints
    by (simp add: w_def reseedProposal_def v(1) byMint_map) (simp add: read_back_weights [OF cov])
  have zero: "weight_in v (sa_mint a) = 0"
    if "a \<in> set ?rows" "sa_mint a \<in> forcedZero" "\<not> set (dkeys w) \<subseteq> forcedZero" for a
  proof -
    have "\<exists>b \<in> set ?rows. sa_mint b \<notin> forcedZero" using that(3) by (auto simp: w dkeys_def)
    then have "weight_in v (sa_mint a) \<le> sa_weightBps a" using v(2) that(1,2) by (simp add: settled_def)
    moreover have "sa_weightBps a = 0" using row_bounds [OF assms(3,4) that(1)] that(2) by simp
    ultimately show ?thesis using v(2) by (simp add: settled_def order_antisym)
  qed
  have "sum_list (map snd w) = TOTAL_BPS" using v(2) by (simp add: w settled_def weight_total_def o_def)
  moreover have "\<forall>(m, x) \<in> set w. 0 \<le> x" using v(2) by (auto simp: w settled_def)
  moreover have "cashMint \<in> set (dkeys w)" using cash_in_rows [of cashMint] by (simp add: w dkeys_def image_image)
  moreover have "\<forall>(m, x) \<in> set w. m \<in> forcedZero \<longrightarrow> x = 0" if "\<not> set (dkeys w) \<subseteq> forcedZero"
    using zero [OF _ _ that] by (auto simp: w)
  ultimately show ?thesis unfolding w_def [symmetric] Let_def by blast
qed

theorem proposal_always_full_witness:
  "(let w = rp_weights (reseedProposal [(''sol'', 4000), (''new'', 500)] [\<lparr>sa_mint = ''sol'', sa_weightBps = 7000\<rparr>, \<lparr>sa_mint = ''btc'', sa_weightBps = 6000\<rparr>]
      [(''sol'', 7000)] ''usdc'' True {''btc''}) in sum_list (map snd w) = TOTAL_BPS \<and> (''btc'', 0) \<in> set w)"
proof -
  let ?w = "rp_weights (reseedProposal [(''sol'', 4000), (''new'', 500)] [\<lparr>sa_mint = ''sol'', sa_weightBps = 7000\<rparr>, \<lparr>sa_mint = ''btc'', sa_weightBps = 6000\<rparr>]
      [(''sol'', 7000)] ''usdc'' True {''btc''})"
  have "sum_list (map snd ?w) = TOTAL_BPS" by (rule proposal_always_full [unfolded Let_def, THEN conjunct1]) (simp_all add: dkeys_def)
  moreover have "(''btc'', 0) \<in> set ?w" by code_simp
  ultimately show ?thesis by simp
qed



lemma poll_rows:
  assumes "distinct (dkeys prev)"
    "\<forall>a \<in> set onChain. dget chainSeen (sa_mint a) = Some (sa_weightBps a) \<and> sa_mint a \<in> set (dkeys prev)"
    "\<forall>(m, v) \<in> set prev. m \<in> forcedZero \<longrightarrow> v = 0" "cashMint \<in> set (dkeys prev)"
  defines "rows \<equiv> proposal_rows prev onChain chainSeen cashMint forcedZero"
  shows "set (map sa_mint rows) = set (dkeys prev)"
    and "a \<in> set rows \<Longrightarrow> sa_weightBps a = weight_in prev (sa_mint a)"
proof -
  have mints: "set (map sa_mint (held_rows prev onChain chainSeen forcedZero)) = set (dkeys prev)"
    unfolding mints_held using assms(2) by auto
  then have held: "rows = held_rows prev onChain chainSeen forcedZero" using assms(4) by (simp add: rows_def proposal_rows_held Let_def)
  then show "set (map sa_mint rows) = set (dkeys prev)" using mints by simp
  have zero: "m \<in> forcedZero \<Longrightarrow> weight_in prev m = 0" for m
    using assms(3) by (auto simp: weight_in_def split: option.split dest: dget_SomeD)
  show "sa_weightBps a = weight_in prev (sa_mint a)" if "a \<in> set rows"
  proof -
    have "(k, v) \<in> set prev \<Longrightarrow> weight_in prev k = v" for k v using assms(1) by (simp add: weight_in_def dget_in_set)
    then have chain: "a \<in> set (map (added_row forcedZero) prev) \<Longrightarrow> ?thesis" using assms(3) by (auto simp: added_row_def)
    have "a \<in> set (map (reseed_row prev chainSeen forcedZero) onChain) \<Longrightarrow> ?thesis"
      using assms(2) zero by (auto simp: reseed_row_def set_dkeys Let_def)
    then show ?thesis using that chain unfolding held held_rows_def by auto
  qed
qed

text \<open>
  C40: A poll that reports the same chain never moves a slider: if every asset on chain was already
  accounted for at its present weight, the proposal holds every one of them and the cash slot, sums to
  10,000 and has the mints taken out at zero, it is shown again with the same weight for every mint.
\<close>

theorem poll_keeps_edits:
  assumes "distinct (map sa_mint onChain)" "distinct (dkeys prev)" "sum_list (map snd prev) = TOTAL_BPS"
    "\<forall>a \<in> set onChain. dget chainSeen (sa_mint a) = Some (sa_weightBps a) \<and> sa_mint a \<in> set (dkeys prev)"
    "\<forall>(m, v) \<in> set prev. m \<in> forcedZero \<longrightarrow> v = 0" "cashMint \<in> set (dkeys prev)"
  shows "dget (rp_weights (reseedProposal prev onChain chainSeen cashMint resolvedFully forcedZero)) m = dget prev m"
proof -
  let ?rows = "proposal_rows prev onChain chainSeen cashMint forcedZero"
  have dist: "distinct (map sa_mint ?rows)" by (rule distinct_proposal_rows [OF assms(1,2)])
  note mints = poll_rows(1) [OF assms(2,4,5,6)] and row = poll_rows(2) [OF assms(2,4,5,6)]
  have "map sa_weightBps ?rows = map (weight_in prev) (map sa_mint ?rows)" using row by simp
  then have "sum_list (map sa_weightBps ?rows) = sum_list (map (weight_in prev) (map sa_mint ?rows))" by (rule arg_cong)
  also have "\<dots> = sum (weight_in prev) (set (dkeys prev))" unfolding mints [symmetric] by (rule sum_list_distinct_conv_sum_set [OF dist])
  also have "\<dots> = sum_list (map (weight_in prev) (dkeys prev))" by (rule sum_list_distinct_conv_sum_set [OF assms(2), symmetric])
  also have "map (weight_in prev) (dkeys prev) = map snd prev"
    unfolding dkeys_def map_map by (rule map_cong [OF refl]) (use dget_in_set [OF assms(2)] in \<open>auto simp: weight_in_def\<close>)
  finally have "sum_list (map sa_weightBps ?rows) = TOTAL_BPS" using assms(3) by simp
  then have "normalizeProposal ?rows cashMint forcedZero = ?rows" by (simp add: normalizeProposal_def)
  then have w: "rp_weights (reseedProposal prev onChain chainSeen cashMint resolvedFully forcedZero) = byMint ?rows"
    by (simp add: reseedProposal_def Let_def)
  show ?thesis
  proof (cases "m \<in> set (dkeys prev)")
    case True
    then obtain a where a: "a \<in> set ?rows" "sa_mint a = m" using mints by (metis (no_types, lifting) imageE list.set_map)
    then have "dget (byMint ?rows) m = Some (sa_weightBps a)" using dget_put_all [OF dist a(1)] by (simp add: byMint_put_all)
    moreover obtain v where "dget prev m = Some v" using True by (auto simp: set_dkeys)
    ultimately show ?thesis using row [OF a(1)] a(2) w by (simp add: weight_in_def)
  next
    case False
    then have "m \<notin> sa_mint ` set ?rows" using mints by auto
    then show ?thesis using dget_put_all_other [of m sa_mint ?rows sa_weightBps "[]"] False w by (simp add: byMint_put_all set_dkeys)
  qed
qed

theorem poll_keeps_edits_witness:
  "dget (rp_weights (reseedProposal [(''sol'', 4500), (''usdc'', 5500)] [\<lparr>sa_mint = ''sol'', sa_weightBps = 7000\<rparr>]
     [(''sol'', 7000)] ''usdc'' True {})) ''sol'' = Some 4500"
  by (subst poll_keeps_edits) (simp_all add: dkeys_def TOTAL_BPS_def)

text \<open>
  When every mint of the proposal, the cash slot too, was taken out, the shortfall is spread over the
  frozen mints: they do receive weight, which the comments of both functions rule out.
\<close>

lemma all_removed_regain_weight:
  "rp_weights (reseedProposal [(''usdc'', 10000)] [] [(''sol'', 7000)] ''usdc'' True {''sol'', ''usdc''}) = [(''usdc'', 10000)]"
proof -
  have "share_floor [\<lparr>sa_mint = ''usdc'', sa_weightBps = 0\<rparr>] 0 10000 \<lparr>sa_mint = ''usdc'', sa_weightBps = 0\<rparr> = 10000"
    using round64_int [of 10000] round64_int [of 1] by (simp add: share_floor_def pool_share_def num_of_int_exact floor_of_def)
  moreover have "spread n up mints idx 0 w = w" for n up mints idx w by (cases n) simp_all
  ultimately show ?thesis
    by (simp add: reseedProposal_def proposal_rows_def normalizeProposal_def TOTAL_BPS_def with_mint_def distributeProportionally_def
        moved_def set_all_def read_back_def byMint_def dput_def)
qed

end
