(* ===== verification/Spec2Isabelle.thy ===== *)
theory Spec2Isabelle
  imports Fee_Math Liquidity Pda_Safety Compound Launchpads Deployment Recovery Zap Rebalance Rebalance_Plan Basket_Feed
    Index_Coverage Activity_Healing Ledger_Checks Ledger_Sweeps Proposal
begin

text \<open>
  SSR.fun lets a creator launch a Reserve on Solana: a token backed by a basket of other tokens, minted
  against deposits in kind and redeemable for its share of the basket. This library models the TypeScript
  that surrounds the on-chain program: the SDK (\<open>packages/sdk/src\<close>), the browser's planning and recovery code
  (\<open>src/merge/lib\<close>), the server's liquidity and rebalancing code (\<open>lib/mainnet\<close>), and the two indexers that
  keep the program's events in a database (\<open>lib/reserve-activity\<close>, \<open>lib/ledger\<close>). Names are those of the source.

  \<^bold>\<open>How the parts interact.\<close> A purchase is priced by the reserve arithmetic, planned leg by leg by the buy
  planner, and built by the instruction builders, which resolve token programs and derive addresses. A wallet
  signs; the confirmation loops decide what became of the transaction; when the browser is closed in between,
  the recovery code attributes and sells what is left over. Fees accrue in a vault that the settlement
  builders turn into USDC. The secondary market pays a project tax and creator revenue that the fee policy
  splits; the basket feed keeper releases and spends the basket's part, partly into the Reserve's pool;
  Compound puts a creator's earnings back, over the route the creator approved. A manager's rebalance is
  planned into swap legs and removals. Every instruction emits events: the SDK summarises them, the activity
  index keeps them per Reserve, the ledger keeps them for the whole program.

  \<^bold>\<open>Shared theories.\<close>
  \<^item> \<open>Ssr_Base\<close>: results that may throw as sums with \<open>rbind\<close>, BigInt division, the stable sort, and
    insertion-ordered dictionaries with the locale \<open>dictionary\<close>, interpreted as \<open>od\<close> on association lists.
  \<^item> \<open>Js_Text\<close>, \<open>Js_Number\<close>: strings, decimal printing and JSON; binary64 numbers as exact rationals with
    NaN and infinities, \<open>round64\<close> rounding to nearest even.
  \<^item> \<open>Solana\<close>: bytes as 8-bit words, little-endian integers, account metas, instructions, and the record
    \<open>web3\<close> of library functions that are parameters (address derivation, base58, token accounts).

  \<^bold>\<open>Components.\<close>
  \<^item> \<open>Fee_Math\<close>: \<open>calculations.ts\<close>, \<open>feeMath.ts\<close>, \<open>ammCalculations.ts\<close> and the arithmetic of
    \<open>usdcMintFee.ts\<close>. A mint followed by a redemption gains nothing, neither dilutes the others; the
    largest-remainder apportionment is exact.
  \<^item> \<open>Pda_Safety\<close>: the seeds of \<open>pda.ts\<close> tell all addresses apart.
  \<^item> \<open>Liquidity\<close>: \<open>liquidityRevenue.ts\<close>, \<open>tradeTax.ts\<close>. Splits conserve their input; carried remainders
    make any history of payments split like its total (locale \<open>carry_split\<close>, for both versions); account
    decoders invert the program's layout (locale \<open>account_layout\<close>, for three accounts).
  \<^item> \<open>Instructions\<close>, \<open>Direct_Trades\<close>, \<open>Zap\<close>, \<open>Management\<close>, \<open>Fee_Settlement\<close>, \<open>Rebalance\<close>: the instruction
    builders (\<open>tokenPrograms.ts\<close>, \<open>directInstructions.ts\<close>, \<open>usdcMintFee.ts\<close>, \<open>zapInstructions.ts\<close>,
    \<open>zapPricing.ts\<close>, \<open>createReserveFlow.ts\<close>, \<open>managementInstructions.ts\<close>, \<open>feeSettlementInstructions.ts\<close>,
    \<open>transferFeeInstructions.ts\<close>, \<open>rebalanceSwapInstructions.ts\<close>, \<open>rebalanceExecutionInstructions.ts\<close>,
    \<open>ammPda.ts\<close>, \<open>ammInstructions.ts\<close>). An Anchor call is a record of name, arguments, accounts and
    remaining accounts. Shown: the order and writability the program relies on, that purchases fund what they
    owe, that token programs are never guessed, that the DevNet planner's \<open>for (;;)\<close> returns.
  \<^item> \<open>Compound\<close>, \<open>Pool_Math\<close>: \<open>compoundRoutes.ts\<close>, \<open>compoundQuotes.ts\<close>, \<open>liquidityLifecycle.ts\<close>. An approval
    binds the whole plan; the pool route's quotes pass the validation; adding and withdrawing gains nothing.
  \<^item> \<open>Rebalance_Plan\<close>, \<open>Basket_Feed\<close>: \<open>rebalancePlan.ts\<close>, \<open>poolFeed.ts\<close>, \<open>basketFeed.ts\<close>, \<open>keeperDust.ts\<close>. No
    vault is oversold, removals replay on chain, a keeper's run spends at most what was released.
  \<^item> \<open>Proposal\<close>: \<open>rebalanceSlider.ts\<close>, \<open>rebalanceProposal.ts\<close>. Edits and seeding keep the weights a manager
    proposes at exactly 10,000 basis points, whatever binary64 rounds away from a share; a poll moves none.
  \<^item> \<open>Launchpads\<close>: \<open>launchpads.ts\<close>. A verdict rests on accounts only that launch can have created.
  \<^item> \<open>Deployment\<close>, \<open>Buy_Plan\<close>, \<open>Recovery\<close>: \<open>launchFunding.ts\<close>, \<open>createReserveResume.ts\<close>,
    \<open>multiAssetBuyPlan.ts\<close>, \<open>incompleteTransactions.ts\<close>. Funding never moves back, every leg is funded once,
    nothing is sold twice over any history of attempts (\<open>recovery_run\<close>).
  \<^item> \<open>Rpc_Resilience\<close>: both \<open>rpcResilience.ts\<close> files; the cache and the read gate as step relations
    (\<open>cache_step\<close>, \<open>read_step\<close>), the confirmation loops against a chain that answers over time.
  \<^item> \<open>Activity\<close>, \<open>Activity_Index\<close>, \<open>Index_Coverage\<close>, \<open>Activity_Report\<close>, \<open>Activity_Healing\<close>:
    \<open>activityLog.ts\<close>, \<open>cursorLogic.ts\<close>, \<open>indexer.ts\<close>, \<open>feePayouts.ts\<close>, \<open>volumeUsd.ts\<close>. The event data are the
    values \<open>dval\<close> the decoder yields; the store is one Reserve's slice of the two tables. Shown: no event is
    skipped over any run of syncs (\<open>index_run\<close>) unless a walk meets its cap, what the cap loses, totals that
    add up, and healed rows equal to indexed ones.
  \<^item> \<open>Ledger_Log\<close>, \<open>Ledger\<close>, \<open>Ledger_Checks\<close>, \<open>Ledger_Context\<close>, \<open>Ledger_Ingest\<close>, \<open>Ledger_Sweeps\<close>:
    \<open>logWalker.ts\<close>, \<open>eventId.ts\<close>, \<open>amounts.ts\<close>, \<open>fieldExtraction.ts\<close>, \<open>decodeEvent.ts\<close>, \<open>csv.ts\<close>,
    \<open>reconciliation.ts\<close>, \<open>reserveContext.ts\<close>, \<open>ingest.ts\<close>. Shown: the log walk finds the events of any tree of
    calls, ids identify events, replays insert nothing, CSV rows read back; and three defects: the capped
    sweep skips a transaction, an older sweep reverts a manager, two checks reject sound rows.

  \<^bold>\<open>Termination.\<close> Loops bounded in the source by a counter recurse on it. \<open>retry_from\<close>, \<open>pool_search\<close>,
  \<open>sell_side\<close> and \<open>isqrt\<close> have measures. The unbounded loops \<open>rebalance_loop\<close> and \<open>resolve_from\<close> are partial
  functions with values in option, and are proved to return. The fuel of \<open>read_record\<close> is the number of cells of
  the row it reads, which is exactly what it uses.

  \<^bold>\<open>Assumptions.\<close> Parameters stand for code that is not in the repository: address hashing and base58
  (\<open>web3\<close>), the transfer fee of \<open>@solana/spl-token\<close> (\<open>calc\<close>, with the hypothesis \<open>documented_fee\<close>), digests,
  \<open>localeCompare\<close> and \<open>toLocaleDateString\<close>, the event decoder, Jupiter's answers, RPC answers and the clock.
  Hypotheses on them are named and each has an instance in a witness. A transaction whose logs the RPC has
  pruned counts as one without events, as the code treats it. \<open>Intl\<close> formatting is modelled for finite numbers.
  The databases are dictionaries and lists by their unique keys, and a statement of SQL is atomic.

  \<^bold>\<open>Not modelled.\<close> The Rust program (except the handler the removal steps are replayed on), generated
  interfaces, React components, HTTP handlers and cron jobs, the wallet clients and server builders that
  string the modelled pieces together with RPC calls, the EVM client, operations tooling, auxiliary content
  stores, SQL reports, and within modelled files: superseded v1 builders, dollar estimates shown to the user,
  texts of errors, and the reading of accounts through library coders. Their behaviour is decided by services
  and libraries that are not in the repository, or it is presentation.
\<close>

end
